(* ===== verification/Prelude.thy ===== *)
theory Prelude
  imports Main "HOL-Library.Word" "HOL-Library.Sublist" "HOL-Library.Monad_Syntax"
begin

text \<open>
  Shared vocabulary of the development: the machine types of the Go sources, the failing slice
  operations of the language (an index or a slice expression that would panic is \<open>None\<close>), the
  conversions between text and bytes, and generic list lemmas. Go's \<open>int\<close> is 64 bits wide and only
  ever holds lengths and small sums in the code modelled as \<open>nat\<close>; every quantity that can wrap is
  a word.
\<close>

unbundle bit_operations_syntax

type_synonym byte = "8 word"
type_synonym u16 = "16 word"
type_synonym u32 = "32 word"
type_synonym u64 = "64 word"
type_synonym bytes = "byte list"

text \<open>The outcome of a Go function whose only result is an \<open>error\<close>: \<open>None\<close> is \<open>nil\<close>.\<close>

type_synonym 'e err = "'e option"

named_theorems model_defs \<open>definitions of straight-line operations, unfolded by \<open>simp add\<close>\<close>
named_theorems bytes_simps \<open>lengths and reads of byte strings\<close>
named_theorems text_simps \<open>facts about lines, trimming and prefixes\<close>

subsection \<open>Indexing and slicing\<close>

text \<open>
  \<open>xs[i]\<close> panics outside \<open>0..len(xs)-1\<close>. \<open>xs[i:j]\<close> panics unless \<open>i <= j <= cap(xs)\<close>; the model
  uses \<open>len\<close> for the upper bound, which is stricter, so code that never yields \<open>None\<close> here never
  panics and never reads the hidden capacity of a slice.
\<close>

definition go_index :: "'a list \<Rightarrow> nat \<Rightarrow> 'a option" where
  "go_index xs i = (if i < length xs then Some (xs ! i) else None)"

definition go_slice :: "'a list \<Rightarrow> nat \<Rightarrow> nat \<Rightarrow> 'a list option" where
  "go_slice xs i j = (if i \<le> j \<and> j \<le> length xs then Some (take (j - i) (drop i xs)) else None)"

definition go_from :: "'a list \<Rightarrow> nat \<Rightarrow> 'a list option" where
  "go_from xs i = go_slice xs i (length xs)"

lemma go_index_Some [simp]: "i < length xs \<Longrightarrow> go_index xs i = Some (xs ! i)"
  by (simp add: go_index_def)

lemma go_index_upto: "k \<le> length xs \<Longrightarrow> i < k \<Longrightarrow> go_index xs i = Some (xs ! i)"
  by (simp add: go_index_def)

lemma go_slice_Some [simp]:
  "i \<le> j \<Longrightarrow> j \<le> length xs \<Longrightarrow> go_slice xs i j = Some (take (j - i) (drop i xs))"
  by (simp add: go_slice_def)

lemma go_from_Some [simp]: "i \<le> length xs \<Longrightarrow> go_from xs i = Some (drop i xs)"
  by (simp add: go_from_def)

lemma go_index_append [simp]: "go_index (xs @ ys) (length xs + i) = go_index ys i"
  by (simp add: go_index_def)

subsection \<open>Text and bytes\<close>

text \<open>A Go string is a byte string; \<open>[]byte(s)\<close> and \<open>string(b)\<close> copy it.\<close>

definition byte_of_char :: "char \<Rightarrow> byte" where
  "byte_of_char c = of_nat (of_char c)"

definition char_of_byte :: "byte \<Rightarrow> char" where
  "char_of_byte b = char_of (unat b)"

abbreviation bytes_of :: "string \<Rightarrow> bytes" where
  "bytes_of \<equiv> map byte_of_char"

abbreviation text_of :: "bytes \<Rightarrow> string" where
  "text_of \<equiv> map char_of_byte"

lemma unat_byte_of_char [simp]: "unat (byte_of_char c) = of_char c"
  by (simp add: byte_of_char_def unat_of_nat)

lemma char_of_byte_of_char [simp]: "char_of_byte (byte_of_char c) = c"
  by (simp add: char_of_byte_def)

lemma char_of_byte_comp [simp]: "char_of_byte \<circ> byte_of_char = id"
  by (rule ext) simp

lemma text_of_bytes_of: "text_of (bytes_of s) = s"
  by simp

lemma byte_of_char_inject [simp]: "byte_of_char c = byte_of_char d \<longleftrightarrow> c = d"
  by (metis char_of_byte_of_char)

subsection \<open>Lists\<close>

lemma nth_append_at [simp]: "length xs = n \<Longrightarrow> (xs @ y # ys) ! n = y"
  by auto

lemma take_drop_middle:
  "length xs = i \<Longrightarrow> length ys = n \<Longrightarrow> take n (drop i (xs @ ys @ zs)) = ys"
  by simp

lemma length_concat_const:
  "(\<And>x. x \<in> set xs \<Longrightarrow> length (f x) = k) \<Longrightarrow> length (concat (map f xs)) = k * length xs"
  by (induction xs) auto

lemma list_eq_replicate:
  "xs = replicate n x \<longleftrightarrow> length xs = n \<and> (\<forall>y \<in> set xs. y = x)"
  by (auto simp: replicate_eqI)

lemma find_Some_member: "find P xs = Some x \<Longrightarrow> x \<in> set xs \<and> P x"
  by (auto simp: find_Some_iff)

lemma distinct_map_filter: "distinct (map f xs) \<Longrightarrow> distinct (map f (filter P xs))"
  by (induction xs) auto

lemma map_of_filter_key:
  "distinct (map fst xs) \<Longrightarrow>
   map_of (filter P xs) k = (case map_of xs k of Some v \<Rightarrow> if P (k, v) then Some v else None | None \<Rightarrow> None)"
  by (induction xs) (auto split: option.splits simp: map_of_eq_None_iff rev_image_eqI)

end
