(* ===== verification/GoStrings.thy ===== *)
theory GoStrings
  imports Prelude
begin

text \<open>
  The string operations of the Go standard library that the sources call: \<open>strings.Split\<close> at one
  byte, \<open>strings.Join\<close>, \<open>strings.HasPrefix\<close>, \<open>TrimPrefix\<close>, \<open>TrimSuffix\<close>, \<open>TrimSpace\<close> (with the
  Unicode white space in its UTF-8 form), and the verbs \<open>%d\<close> and \<open>%08x\<close> of \<open>fmt\<close>. A string is its
  list of bytes, as in Go.
\<close>

abbreviation nl :: char where
  "nl \<equiv> CHR 0x0A"

subsection \<open>Prefixes and suffixes\<close>

abbreviation has_prefix :: "string \<Rightarrow> string \<Rightarrow> bool" where
  "has_prefix s p \<equiv> prefix p s"

definition trim_prefix :: "string \<Rightarrow> string \<Rightarrow> string" where
  "trim_prefix p s = (if prefix p s then drop (length p) s else s)"

definition trim_suffix :: "string \<Rightarrow> string \<Rightarrow> string" where
  "trim_suffix p s = (if suffix p s then take (length s - length p) s else s)"

lemma trim_prefix_append [simp, text_simps]: "trim_prefix p (p @ s) = s"
  by (simp add: trim_prefix_def)

lemma trim_suffix_append [simp, text_simps]: "trim_suffix p (s @ p) = s"
  by (auto simp: trim_suffix_def suffix_def)

subsection \<open>Lines: split and join\<close>

text \<open>\<open>strings.Split(s, sep)\<close> for a one-byte separator: never empty, the separators dropped.\<close>

fun split_on :: "char \<Rightarrow> string \<Rightarrow> string list" where
  "split_on c [] = [[]]"
| "split_on c (x # xs) =
     (if x = c then [] # split_on c xs
      else case split_on c xs of [] \<Rightarrow> [[x]] | y # ys \<Rightarrow> (x # y) # ys)"

fun join_with :: "string \<Rightarrow> string list \<Rightarrow> string" where
  "join_with sep [] = []"
| "join_with sep [x] = x"
| "join_with sep (x # y # ys) = x @ sep @ join_with sep (y # ys)"

lemma split_on_nonempty [simp]: "split_on c s \<noteq> []"
  by (induction s) (auto split: list.splits)

lemma split_on_no_sep: "l \<in> set (split_on c s) \<Longrightarrow> c \<notin> set l"
proof (induction s arbitrary: l)
  case Nil
  then show ?case by simp
next
  case (Cons x xs)
  then show ?case
    by (cases "split_on c xs") (auto split: if_splits)
qed

lemma split_on_clean [simp, text_simps]: "c \<notin> set s \<Longrightarrow> split_on c s = [s]"
  by (induction s) auto

lemma split_on_Cons_sep [simp]: "split_on c (c # xs) = [] # split_on c xs"
  by simp

lemma split_on_append [text_simps]:
  "c \<notin> set s \<Longrightarrow> split_on c (s @ c # t) = s # split_on c t"
  by (induction s) auto

lemma join_with_snoc: "xs \<noteq> [] \<Longrightarrow> join_with sep (xs @ [x]) = join_with sep xs @ sep @ x"
  by (induction sep xs rule: join_with.induct) auto

lemma join_split [simp]: "join_with [c] (split_on c s) = s"
proof (induction s)
  case Nil
  then show ?case by simp
next
  case (Cons x xs)
  then show ?case
    by (cases "split_on c xs" rule: list.exhaust; cases "tl (split_on c xs)") auto
qed

lemma split_join [text_simps]:
  "ls \<noteq> [] \<Longrightarrow> \<forall>l \<in> set ls. c \<notin> set l \<Longrightarrow> split_on c (join_with [c] ls) = ls"
proof (induction "[c]" ls rule: join_with.induct)
  case (3 x y ys)
  then show ?case by (simp add: split_on_append)
qed auto

text \<open>A file written as \<open>Join(lines, "\n") + "\n"\<close> splits into its lines and one empty string.\<close>

lemma split_file_lines [text_simps]:
  assumes "ls \<noteq> []" and "\<forall>l \<in> set ls. c \<notin> set l"
  shows "split_on c (join_with [c] ls @ [c]) = ls @ [[]]"
proof -
  have "join_with [c] ls @ [c] = join_with [c] (ls @ [[]])"
    using assms(1) by (simp add: join_with_snoc)
  then show ?thesis
    using assms by (simp only:) (subst split_join, auto)
qed

subsection \<open>TrimSpace\<close>

text \<open>
  The white space of \<open>unicode.IsSpace\<close> in UTF-8: the six ASCII bytes, then U+0085, U+00A0, U+1680,
  U+2000 to U+200A, U+2028, U+2029, U+202F, U+205F and U+3000. None of them is a prefix or a suffix
  of another, and a lone byte 0x85 or 0xA0 is an invalid rune and no space.
\<close>

definition space_runes :: "string list" where
  "space_runes =
    [[CHR 0x09], [CHR 0x0A], [CHR 0x0B], [CHR 0x0C], [CHR 0x0D], [CHR 0x20],
     [CHR 0xC2, CHR 0x85], [CHR 0xC2, CHR 0xA0], [CHR 0xE1, CHR 0x9A, CHR 0x80],
     [CHR 0xE2, CHR 0x80, CHR 0x80], [CHR 0xE2, CHR 0x80, CHR 0x81], [CHR 0xE2, CHR 0x80, CHR 0x82],
     [CHR 0xE2, CHR 0x80, CHR 0x83], [CHR 0xE2, CHR 0x80, CHR 0x84], [CHR 0xE2, CHR 0x80, CHR 0x85],
     [CHR 0xE2, CHR 0x80, CHR 0x86], [CHR 0xE2, CHR 0x80, CHR 0x87], [CHR 0xE2, CHR 0x80, CHR 0x88],
     [CHR 0xE2, CHR 0x80, CHR 0x89], [CHR 0xE2, CHR 0x80, CHR 0x8A], [CHR 0xE2, CHR 0x80, CHR 0xA8],
     [CHR 0xE2, CHR 0x80, CHR 0xA9], [CHR 0xE2, CHR 0x80, CHR 0xAF], [CHR 0xE2, CHR 0x81, CHR 0x9F],
     [CHR 0xE3, CHR 0x80, CHR 0x80]]"

lemma space_runes_nonempty: "r \<in> set space_runes \<Longrightarrow> r \<noteq> []"
  by (auto simp: space_runes_def)

lemma find_space_rune: "find P space_runes = Some r \<Longrightarrow> P r \<and> r \<noteq> []"
  using space_runes_nonempty by (auto simp: find_Some_iff)

lemma find_space_prefix: "find (\<lambda>r. prefix r s) space_runes = Some r \<Longrightarrow> r \<noteq> [] \<and> s \<noteq> []"
  by (drule find_space_rune) auto

lemma find_space_suffix: "find (\<lambda>r. suffix r s) space_runes = Some r \<Longrightarrow> r \<noteq> [] \<and> s \<noteq> []"
  by (drule find_space_rune) auto

function trim_left :: "string \<Rightarrow> string" where
  "trim_left s =
     (case find (\<lambda>r. prefix r s) space_runes of
        None \<Rightarrow> s
      | Some r \<Rightarrow> trim_left (drop (length r) s))"
  by pat_completeness auto
termination
  by (relation "measure length") (use find_space_prefix in auto)

function trim_right :: "string \<Rightarrow> string" where
  "trim_right s =
     (case find (\<lambda>r. suffix r s) space_runes of
        None \<Rightarrow> s
      | Some r \<Rightarrow> trim_right (take (length s - length r) s))"
  by pat_completeness auto
termination
  by (relation "measure length") (use find_space_suffix in auto)

declare trim_left.simps [simp del] trim_right.simps [simp del]

definition trim_space :: "string \<Rightarrow> string" where
  "trim_space s = trim_right (trim_left s)"

definition no_lead :: "string \<Rightarrow> bool" where
  "no_lead s \<longleftrightarrow> (\<forall>r \<in> set space_runes. \<not> prefix r s)"

definition no_trail :: "string \<Rightarrow> bool" where
  "no_trail s \<longleftrightarrow> (\<forall>r \<in> set space_runes. \<not> suffix r s)"

definition trimmed :: "string \<Rightarrow> bool" where
  "trimmed s \<longleftrightarrow> no_lead s \<and> no_trail s"

lemma trim_left_no_lead: "no_lead (trim_left s)"
proof (induction s rule: trim_left.induct)
  case (1 s)
  then show ?case
    by (subst trim_left.simps) (auto simp: no_lead_def find_None_iff split: option.split)
qed

lemma trim_right_no_trail: "no_trail (trim_right s)"
proof (induction s rule: trim_right.induct)
  case (1 s)
  then show ?case
    by (subst trim_right.simps) (auto simp: no_trail_def find_None_iff split: option.split)
qed

lemma trim_left_id: "no_lead s \<Longrightarrow> trim_left s = s"
  by (subst trim_left.simps) (auto simp: no_lead_def find_None_iff split: option.split simp: find_Some_iff)

lemma trim_right_id: "no_trail s \<Longrightarrow> trim_right s = s"
  by (subst trim_right.simps) (auto simp: no_trail_def find_None_iff split: option.split simp: find_Some_iff)

lemma trim_right_prefix: "prefix (trim_right s) s"
proof (induction s rule: trim_right.induct)
  case (1 s)
  show ?case
  proof (cases "find (\<lambda>r. suffix r s) space_runes")
    case None
    then show ?thesis by (subst trim_right.simps) simp
  next
    case (Some r)
    with 1 have "prefix (trim_right (take (length s - length r) s)) (take (length s - length r) s)"
      by simp
    then have "prefix (trim_right (take (length s - length r) s)) s"
      using take_is_prefix prefix_order.trans by blast
    with Some show ?thesis by (subst trim_right.simps) simp
  qed
qed

lemma trim_left_suffix: "suffix (trim_left s) s"
proof (induction s rule: trim_left.induct)
  case (1 s)
  show ?case
  proof (cases "find (\<lambda>r. prefix r s) space_runes")
    case None
    then show ?thesis by (subst trim_left.simps) simp
  next
    case (Some r)
    with 1 have "suffix (trim_left (drop (length r) s)) (drop (length r) s)"
      by simp
    then have "suffix (trim_left (drop (length r) s)) s"
      using suffix_drop suffix_order.trans by blast
    with Some show ?thesis by (subst trim_left.simps) simp
  qed
qed

lemma trim_space_trimmed [simp]: "trimmed (trim_space s)"
proof -
  have "no_lead (trim_right (trim_left s))"
    using trim_left_no_lead [of s] trim_right_prefix [of "trim_left s"]
    unfolding no_lead_def using prefix_order.trans by blast
  then show ?thesis
    by (simp add: trimmed_def trim_space_def trim_right_no_trail)
qed

lemma trim_space_id [simp, text_simps]: "trimmed s \<Longrightarrow> trim_space s = s"
  by (simp add: trimmed_def trim_space_def trim_left_id trim_right_id)

lemma trim_space_idem [simp]: "trim_space (trim_space s) = trim_space s"
  by simp

lemma set_trim_space: "set (trim_space s) \<subseteq> set s"
proof -
  have "set (trim_right (trim_left s)) \<subseteq> set (trim_left s)"
    by (rule set_mono_prefix [OF trim_right_prefix])
  moreover have "set (trim_left s) \<subseteq> set s"
    by (rule set_mono_suffix [OF trim_left_suffix])
  ultimately show ?thesis by (auto simp: trim_space_def)
qed

lemma trimmed_Nil [simp]: "trimmed []"
  using space_runes_nonempty by (auto simp: trimmed_def no_lead_def no_trail_def)

lemma trim_space_Nil [simp]: "trim_space [] = []"
  by simp

text \<open>
  Sufficient conditions. A string that starts and ends with a visible ASCII byte is trimmed, and a
  nonempty trimmed string stays trimmed behind any text that ends in an ASCII byte.
\<close>

definition visible :: "char \<Rightarrow> bool" where
  "visible c \<longleftrightarrow> 33 \<le> (of_char c :: nat) \<and> (of_char c :: nat) < 127"

lemma hd_space_rune: "r \<in> set space_runes \<Longrightarrow> \<not> visible (hd r)"
  by (auto simp: space_runes_def visible_def)

lemma last_space_rune: "r \<in> set space_runes \<Longrightarrow> \<not> visible (last r)"
  by (auto simp: space_runes_def visible_def)

lemma butlast_space_rune: "r \<in> set space_runes \<Longrightarrow> c \<in> set (butlast r) \<Longrightarrow> (of_char c :: nat) \<ge> 128"
  by (auto simp: space_runes_def)

lemma no_lead_visible: "s \<noteq> [] \<Longrightarrow> visible (hd s) \<Longrightarrow> no_lead s"
  using hd_space_rune space_runes_nonempty by (fastforce simp: no_lead_def prefix_def hd_append)

lemma no_trail_visible: "s \<noteq> [] \<Longrightarrow> visible (last s) \<Longrightarrow> no_trail s"
  using last_space_rune space_runes_nonempty by (fastforce simp: no_trail_def suffix_def last_append)

lemma trimmed_visible [text_simps]: "s \<noteq> [] \<Longrightarrow> visible (hd s) \<Longrightarrow> visible (last s) \<Longrightarrow> trimmed s"
  by (simp add: trimmed_def no_lead_visible no_trail_visible)

lemma no_trail_append:
  assumes "no_trail t" and "t \<noteq> []" and "(of_char c :: nat) < 128"
  shows "no_trail (p @ c # t)"
  unfolding no_trail_def
proof (intro ballI notI)
  fix r
  assume r: "r \<in> set space_runes" and "suffix r (p @ c # t)"
  then obtain q where q: "p @ c # t = q @ r"
    by (auto simp: suffix_def)
  have "\<not> suffix r t"
    using assms(1) r by (simp add: no_trail_def)
  then obtain u where u: "r = u @ c # t"
    using q by (force simp: append_eq_append_conv2 append_eq_Cons_conv suffix_def Cons_eq_append_conv)
  then have "c \<in> set (butlast r)"
    using assms(2) by (simp add: butlast_append)
  with butlast_space_rune [OF r] assms(3) show False
    by fastforce
qed

lemma trimmed_append [text_simps]:
  assumes "trimmed t" and "t \<noteq> []" and "visible (hd (p @ [c]))" and "(of_char c :: nat) < 128"
  shows "trimmed (p @ c # t)"
  using assms no_trail_append [of t c p]
  by (auto simp: trimmed_def hd_append intro!: no_lead_visible)

end
