(* ===== verification/RouterConfig.thy ===== *)
theory RouterConfig
  imports GoStrings
begin

text \<open>
  Package router, the configuration (pkg/router/config.go): \<open>DefaultConfig\<close>, \<open>Normalized\<close>,
  \<open>Validate\<close> and its helpers. A nil slice and an empty one behave alike in this code and are both
  the empty list. What is proved: normalising is idempotent, exactly which configurations
  \<open>Validate\<close> accepts, and that two of its branches are dead after normalisation.
\<close>

subsection \<open>Data\<close>

type_synonym QueueBackend = string

abbreviation QueueBackendNFQueue :: QueueBackend where
  "QueueBackendNFQueue \<equiv> ''nfqueue''"

abbreviation QueueBackendDryRun :: QueueBackend where
  "QueueBackendDryRun \<equiv> ''dryrun''"

record Config =
  WANInterface :: string
  LANInterfaces :: "string list"
  TableName :: string
  Backend :: QueueBackend
  QueueNum :: u16
  PacketMark :: u32
  TCPPorts :: "u16 list"
  UDPPorts :: "u16 list"
  FakeTTL :: int
  MaxFlows :: int
  ProbeTargets :: "string list"
  AutoHostlistPath :: string
  EnableQUIC :: bool
  EnablePostNAT :: bool

datatype config_error =
    UnsupportedBackend string
  | WanRequired
  | InvalidTableName string
  | PortZero string
  | NoTargetPort
  | FakeTTLRange int
  | MaxFlowsRange int

subsection \<open>Operations\<close>

definition DefaultConfig :: Config where
  "DefaultConfig =
     \<lparr>WANInterface = [], LANInterfaces = [], TableName = ''gecit_router'',
      Backend = QueueBackendNFQueue, QueueNum = 200, PacketMark = 0x40000000,
      TCPPorts = [443], UDPPorts = [443], FakeTTL = 8, MaxFlows = 4096,
      ProbeTargets = [''discord.com'', ''youtube.com''], AutoHostlistPath = [],
      EnableQUIC = False, EnablePostNAT = True\<rparr>"

fun trimStrings :: "string list \<Rightarrow> string list" where
  "trimStrings [] = []"
| "trimStrings (value # values) =
     (let value = trim_space value
      in if value = [] then trimStrings values else value # trimStrings values)"

text \<open>Every assignment of \<open>Normalized\<close> reads and writes one field only, so one update lists them all.\<close>

definition Normalized :: "Config \<Rightarrow> Config" where
  "Normalized c =
     (let def = DefaultConfig in c
      \<lparr>WANInterface := (if WANInterface c = [] then trim_space (WANInterface def) else trim_space (WANInterface c)),
       LANInterfaces := trimStrings (LANInterfaces c),
       TableName := (if TableName c = [] then TableName def else TableName c),
       Backend := (if Backend c = [] then Backend def else Backend c),
       QueueNum := (if QueueNum c = 0 then QueueNum def else QueueNum c),
       PacketMark := (if PacketMark c = 0 then PacketMark def else PacketMark c),
       TCPPorts := (if length (TCPPorts c) = 0 then TCPPorts def else TCPPorts c),
       UDPPorts := (if length (UDPPorts c) = 0 then UDPPorts def else UDPPorts c),
       FakeTTL := (if FakeTTL c = 0 then FakeTTL def else FakeTTL c),
       MaxFlows := (if MaxFlows c = 0 then MaxFlows def else MaxFlows c),
       ProbeTargets := (let targets = trimStrings (ProbeTargets c)
         in if length targets = 0 then ProbeTargets def else targets)\<rparr>)"

text \<open>\<open>tableNameRE\<close>: one letter, then up to 31 letters, digits or underscores, to the end of the text.\<close>

definition is_alpha :: "char \<Rightarrow> bool" where
  "is_alpha c \<longleftrightarrow>
     65 \<le> (of_char c :: nat) \<and> (of_char c :: nat) \<le> 90 \<or> 97 \<le> (of_char c :: nat) \<and> (of_char c :: nat) \<le> 122"

definition is_word_char :: "char \<Rightarrow> bool" where
  "is_word_char c \<longleftrightarrow>
     is_alpha c \<or> 48 \<le> (of_char c :: nat) \<and> (of_char c :: nat) \<le> 57 \<or> c = CHR ''_''"

fun tableNameRE :: "string \<Rightarrow> bool" where
  "tableNameRE [] = False"
| "tableNameRE (c # cs) \<longleftrightarrow> is_alpha c \<and> list_all is_word_char cs \<and> length cs \<le> 31"

fun validatePorts :: "string \<Rightarrow> u16 list \<Rightarrow> config_error err" where
  "validatePorts proto [] = None"
| "validatePorts proto (port # ports) =
     (if port = 0 then Some (PortZero proto) else validatePorts proto ports)"

definition Validate :: "Config \<Rightarrow> config_error err" where
  "Validate c0 =
     (let c = Normalized c0 in
      if \<not> (Backend c = QueueBackendNFQueue \<or> Backend c = QueueBackendDryRun)
      then Some (UnsupportedBackend (Backend c))
      else if WANInterface c = [] then Some WanRequired
      else if \<not> tableNameRE (TableName c) then Some (InvalidTableName (TableName c))
      else (case validatePorts ''tcp'' (TCPPorts c) of
        Some err \<Rightarrow> Some err
      | None \<Rightarrow> (case (if EnableQUIC c then validatePorts ''udp'' (UDPPorts c) else None) of
          Some err \<Rightarrow> Some err
        | None \<Rightarrow>
            if length (TCPPorts c) = 0 \<and> (\<not> EnableQUIC c \<or> length (UDPPorts c) = 0)
            then Some NoTargetPort
            else if FakeTTL c < 1 \<or> FakeTTL c > 255 then Some (FakeTTLRange (FakeTTL c))
            else if MaxFlows c < 1 then Some (MaxFlowsRange (MaxFlows c))
            else None)))"

subsection \<open>Lemmas\<close>

lemma trimStrings_eq: "trimStrings vs = filter (\<lambda>v. v \<noteq> []) (map trim_space vs)"
  by (induction vs) (auto simp: Let_def)

lemma trimStrings_id: "\<forall>v \<in> set vs. trimmed v \<and> v \<noteq> [] \<Longrightarrow> trimStrings vs = vs"
  by (induction vs) auto

lemma trimStrings_idem [simp]: "trimStrings (trimStrings vs) = trimStrings vs"
  by (rule trimStrings_id) (auto simp: trimStrings_eq)

lemma validatePorts_None [simp]: "validatePorts p ports = None \<longleftrightarrow> 0 \<notin> set ports"
  by (induction ports) auto

lemma validatePorts_Some: "validatePorts p ports = Some e \<Longrightarrow> e = PortZero p"
  by (induction ports) (auto split: if_splits)

lemma word_char_visible: "is_word_char c \<Longrightarrow> visible c"
  by (auto simp: is_word_char_def is_alpha_def visible_def)

lemma alpha_word_char: "is_alpha c \<Longrightarrow> is_word_char c"
  by (simp add: is_word_char_def)

lemma tableNameRE_iff:
  "tableNameRE s \<longleftrightarrow> s \<noteq> [] \<and> is_alpha (hd s) \<and> list_all is_word_char s \<and> length s \<le> 32"
  by (cases s) (auto simp: alpha_word_char)

lemma default_targets_trimmed: "trimStrings (ProbeTargets DefaultConfig) = ProbeTargets DefaultConfig"
  by (rule trimStrings_id)
    (auto simp: DefaultConfig_def visible_def intro!: trimmed_visible)

text \<open>The fields of a normalised configuration.\<close>

lemma Normalized_fields [simp]:
  "WANInterface (Normalized c) = trim_space (WANInterface c)"
  "LANInterfaces (Normalized c) = trimStrings (LANInterfaces c)"
  "TableName (Normalized c) = (if TableName c = [] then ''gecit_router'' else TableName c)"
  "Backend (Normalized c) = (if Backend c = [] then ''nfqueue'' else Backend c)"
  "QueueNum (Normalized c) = (if QueueNum c = 0 then 200 else QueueNum c)"
  "PacketMark (Normalized c) = (if PacketMark c = 0 then 0x40000000 else PacketMark c)"
  "TCPPorts (Normalized c) = (if TCPPorts c = [] then [443] else TCPPorts c)"
  "UDPPorts (Normalized c) = (if UDPPorts c = [] then [443] else UDPPorts c)"
  "FakeTTL (Normalized c) = (if FakeTTL c = 0 then 8 else FakeTTL c)"
  "MaxFlows (Normalized c) = (if MaxFlows c = 0 then 4096 else MaxFlows c)"
  "ProbeTargets (Normalized c) =
     (if trimStrings (ProbeTargets c) = [] then ProbeTargets DefaultConfig else trimStrings (ProbeTargets c))"
  "AutoHostlistPath (Normalized c) = AutoHostlistPath c"
  "EnableQUIC (Normalized c) = EnableQUIC c"
  "EnablePostNAT (Normalized c) = EnablePostNAT c"
  by (simp_all add: Normalized_def Let_def) (simp_all add: DefaultConfig_def)

lemma Normalized_idem [simp]: "Normalized (Normalized c) = Normalized c"
  by (rule Config.equality) (simp_all add: default_targets_trimmed)

lemma Normalized_nonzero:
  "PacketMark (Normalized c) \<noteq> 0" "TCPPorts (Normalized c) \<noteq> []" "FakeTTL (Normalized c) \<noteq> 0"
  "MaxFlows (Normalized c) \<noteq> 0" "TableName (Normalized c) \<noteq> []"
  by simp_all

lemma Validate_Normalized [simp]: "Validate (Normalized c) = Validate c"
  by (simp only: Validate_def Normalized_idem)

definition sound_config :: "Config \<Rightarrow> bool" where
  "sound_config c \<longleftrightarrow>
     Backend c \<in> {QueueBackendNFQueue, QueueBackendDryRun} \<and> WANInterface c \<noteq> [] \<and>
     tableNameRE (TableName c) \<and> TCPPorts c \<noteq> [] \<and> 0 \<notin> set (TCPPorts c) \<and>
     (EnableQUIC c \<longrightarrow> UDPPorts c \<noteq> [] \<and> 0 \<notin> set (UDPPorts c)) \<and>
     1 \<le> FakeTTL c \<and> FakeTTL c \<le> 255 \<and> 1 \<le> MaxFlows c \<and> PacketMark c \<noteq> 0"

lemma Validate_None: "Validate c = None \<longleftrightarrow> sound_config (Normalized c)"
proof -
  define n where "n = Normalized c"
  have n: "TCPPorts n \<noteq> []" "UDPPorts n \<noteq> []" "PacketMark n \<noteq> 0"
    by (simp_all add: n_def)
  define ok where "ok \<longleftrightarrow> Backend n = QueueBackendNFQueue \<or> Backend n = QueueBackendDryRun"
  have "Validate c = None \<longleftrightarrow> ok \<and> WANInterface n \<noteq> [] \<and> tableNameRE (TableName n) \<and>
      0 \<notin> set (TCPPorts n) \<and> (EnableQUIC n \<longrightarrow> 0 \<notin> set (UDPPorts n)) \<and>
      1 \<le> FakeTTL n \<and> FakeTTL n \<le> 255 \<and> 1 \<le> MaxFlows n"
    unfolding Validate_def n_def [symmetric] Let_def ok_def [symmetric]
    using n validatePorts_None [of "''tcp''" "TCPPorts n"] validatePorts_None [of "''udp''" "UDPPorts n"]
    by (cases "validatePorts ''tcp'' (TCPPorts n)"; cases "validatePorts ''udp'' (UDPPorts n)";
        cases "EnableQUIC n") (simp_all add: not_less del: validatePorts_None)
  with n show ?thesis
    unfolding sound_config_def n_def [symmetric] ok_def by blast
qed


subsection \<open>Properties\<close>

text \<open>
  Normalising is idempotent, so the several places that normalise (\<open>NewWithLogger\<close>,
  \<open>BuildRuleSet\<close>, \<open>NewProcessor\<close>, \<open>Validate\<close>) all see the same configuration, and validating a
  normalised configuration gives the same verdict as validating the original.
\<close>

theorem Normalized_stable:
  "Normalized (Normalized c) = Normalized c \<and> Validate (Normalized c) = Validate c"
  by simp

text \<open>
  Exactly which raw configurations \<open>Validate\<close> accepts, in terms of the fields the user sets: an
  unset (zero) backend, table name, port list, TTL or flow limit is accepted, since it is defaulted
  first; a blank interface name, an unknown backend, a bad table name, port zero, a TTL outside
  0..255 and a negative flow limit are refused.
\<close>

theorem Validate_accepts_iff:
  "Validate c = None \<longleftrightarrow>
     trim_space (WANInterface c) \<noteq> [] \<and>
     Backend c \<in> {[], ''nfqueue'', ''dryrun''} \<and>
     (TableName c = [] \<or> tableNameRE (TableName c)) \<and>
     0 \<notin> set (TCPPorts c) \<and> (EnableQUIC c \<longrightarrow> 0 \<notin> set (UDPPorts c)) \<and>
     0 \<le> FakeTTL c \<and> FakeTTL c \<le> 255 \<and> 0 \<le> MaxFlows c"
proof -
  have t: "tableNameRE (TableName (Normalized c)) \<longleftrightarrow> TableName c = [] \<or> tableNameRE (TableName c)"
    by (simp add: is_alpha_def is_word_char_def)
  have b: "Backend (Normalized c) \<in> {''nfqueue'', ''dryrun''} \<longleftrightarrow> Backend c \<in> {[], ''nfqueue'', ''dryrun''}"
    by simp
  have p: "TCPPorts (Normalized c) \<noteq> []" "0 \<notin> set (TCPPorts (Normalized c)) \<longleftrightarrow> 0 \<notin> set (TCPPorts c)"
    "UDPPorts (Normalized c) \<noteq> []" "0 \<notin> set (UDPPorts (Normalized c)) \<longleftrightarrow> 0 \<notin> set (UDPPorts c)"
    by simp_all
  have n: "1 \<le> FakeTTL (Normalized c) \<longleftrightarrow> 0 \<le> FakeTTL c" "FakeTTL (Normalized c) \<le> 255 \<longleftrightarrow> FakeTTL c \<le> 255"
    "1 \<le> MaxFlows (Normalized c) \<longleftrightarrow> 0 \<le> MaxFlows c" "PacketMark (Normalized c) \<noteq> 0"
    by auto
  have w: "WANInterface (Normalized c) = trim_space (WANInterface c)" "EnableQUIC (Normalized c) = EnableQUIC c"
    by simp_all
  show ?thesis
    unfolding Validate_None sound_config_def by (simp only: t b p n w simp_thms) blast
qed

theorem Validate_accepts_iff_witness:
  "Validate (DefaultConfig\<lparr>WANInterface := ''eth0'', FakeTTL := 0\<rparr>) = None"
proof -
  have "trim_space ''eth0'' = ''eth0''"
    by (intro trim_space_id trimmed_visible) (simp_all add: visible_def)
  moreover have "tableNameRE ''gecit_router''"
    by (simp add: is_alpha_def is_word_char_def)
  ultimately show ?thesis
    by (subst Validate_accepts_iff) (simp add: DefaultConfig_def)
qed

text \<open>
  Two error branches of \<open>Validate\<close> are dead, since it normalises first: it never reports a
  missing target port (an empty port list is defaulted) and never rejects a TTL or a flow limit of
  zero, although its messages say they must be at least one.
\<close>

theorem Validate_dead_branches:
  "Validate c \<noteq> Some NoTargetPort \<and> Validate c \<noteq> Some (FakeTTLRange 0) \<and> Validate c \<noteq> Some (MaxFlowsRange 0)"
proof -
  define n where "n = Normalized c"
  have n: "TCPPorts n \<noteq> []" "FakeTTL n \<noteq> 0" "MaxFlows n \<noteq> 0"
    by (simp_all add: n_def)
  have v: "validatePorts p ports \<noteq> Some NoTargetPort \<and> validatePorts p ports \<noteq> Some (FakeTTLRange 0) \<and>
      validatePorts p ports \<noteq> Some (MaxFlowsRange 0)" for p ports
    using validatePorts_Some by blast
  show ?thesis
    unfolding Validate_def n_def [symmetric] Let_def
    using n v [of "''tcp''" "TCPPorts n"] v [of "''udp''" "UDPPorts n"]
    by (cases "validatePorts ''tcp'' (TCPPorts n)"; cases "validatePorts ''udp'' (UDPPorts n)";
        cases "EnableQUIC n") (simp_all del: validatePorts_None)
qed

end
