(* ===== verification/GoFormat.thy ===== *)
theory GoFormat
  imports GoStrings
begin

text \<open>
  The formatting verbs of \<open>fmt\<close> that the sources use on values: \<open>%d\<close> of an unsigned number, \<open>%x\<close>
  and \<open>%08x\<close>, and \<open>%q\<close> of a string (\<open>strconv.Quote\<close>). The table of printable runes beyond ASCII
  (\<open>unicode.IsPrint\<close>) is the only parameter: no theorem depends on its contents.
\<close>

subsection \<open>Decimal\<close>

definition digit :: "nat \<Rightarrow> char" where
  "digit d = char_of (48 + d)"

fun dec :: "nat \<Rightarrow> string" where
  "dec n = (if n < 10 then [digit n] else dec (n div 10) @ [digit (n mod 10)])"

declare dec.simps [simp del]

definition undec :: "string \<Rightarrow> nat" where
  "undec s = foldl (\<lambda>a c. a * 10 + (of_char c - 48)) 0 s"

definition is_digit :: "char \<Rightarrow> bool" where
  "is_digit c \<longleftrightarrow> 48 \<le> (of_char c :: nat) \<and> (of_char c :: nat) \<le> 57"

lemma of_char_digit: "d < 10 \<Longrightarrow> (of_char (digit d) :: nat) = 48 + d"
  by (simp add: digit_def)

lemma is_digit_digit [simp]: "d < 10 \<Longrightarrow> is_digit (digit d)"
  by (simp add: is_digit_def of_char_digit)

lemma undec_snoc: "undec (s @ [c]) = undec s * 10 + (of_char c - 48)"
  by (simp add: undec_def)

lemma undec_dec [simp]: "undec (dec n) = n"
proof (induction n rule: dec.induct)
  case (1 n)
  show ?case
  proof (cases "n < 10")
    case True
    then show ?thesis by (subst dec.simps) (simp add: undec_def of_char_digit)
  next
    case False
    with 1 have "undec (dec (n div 10)) = n div 10" by simp
    with False show ?thesis
      by (subst dec.simps) (simp add: undec_snoc of_char_digit)
  qed
qed

lemma dec_inject [simp]: "dec m = dec n \<longleftrightarrow> m = n"
  by (metis undec_dec)

lemma dec_nonempty [simp]: "dec n \<noteq> []"
  by (subst dec.simps) simp

lemma dec_digits: "c \<in> set (dec n) \<Longrightarrow> is_digit c"
proof (induction n rule: dec.induct)
  case (1 n)
  then show ?case
    by (cases "n < 10") (auto simp: dec.simps [of n])
qed

lemma not_in_dec [text_simps]: "\<not> is_digit c \<Longrightarrow> c \<notin> set (dec n)"
  using dec_digits by blast

lemma is_digit_visible: "is_digit c \<Longrightarrow> visible c"
  by (simp add: is_digit_def visible_def)

subsection \<open>Hexadecimal\<close>

definition hexdigit :: "nat \<Rightarrow> char" where
  "hexdigit d = (if d < 10 then char_of (48 + d) else char_of (87 + d))"

fun hex :: "nat \<Rightarrow> string" where
  "hex n = (if n < 16 then [hexdigit n] else hex (n div 16) @ [hexdigit (n mod 16)])"

declare hex.simps [simp del]

text \<open>\<open>%0kx\<close> for a value below \<open>16 ^ k\<close>: its \<open>k\<close> nibbles, the most significant first.\<close>

fun hex_pad :: "nat \<Rightarrow> nat \<Rightarrow> string" where
  "hex_pad 0 n = []"
| "hex_pad (Suc k) n = hex_pad k (n div 16) @ [hexdigit (n mod 16)]"

definition unhexdigit :: "char \<Rightarrow> nat" where
  "unhexdigit c = (if (of_char c :: nat) < 58 then of_char c - 48 else of_char c - 87)"

definition unhex :: "string \<Rightarrow> nat" where
  "unhex s = foldl (\<lambda>a c. a * 16 + unhexdigit c) 0 s"

definition is_hex :: "char \<Rightarrow> bool" where
  "is_hex c \<longleftrightarrow> is_digit c \<or> 97 \<le> (of_char c :: nat) \<and> (of_char c :: nat) \<le> 102"

lemma unhexdigit_hexdigit [simp]: "d < 16 \<Longrightarrow> unhexdigit (hexdigit d) = d"
  by (simp add: unhexdigit_def hexdigit_def)

lemma is_hex_hexdigit [simp]: "d < 16 \<Longrightarrow> is_hex (hexdigit d)"
  by (auto simp: is_hex_def hexdigit_def is_digit_def)

lemma unhex_snoc: "unhex (s @ [c]) = unhex s * 16 + unhexdigit c"
  by (simp add: unhex_def)

lemma unhex_hex [simp]: "unhex (hex n) = n"
proof (induction n rule: hex.induct)
  case (1 n)
  show ?case
  proof (cases "n < 16")
    case True
    then show ?thesis by (subst hex.simps) (simp add: unhex_def)
  next
    case False
    with 1 have "unhex (hex (n div 16)) = n div 16" by simp
    with False show ?thesis
      by (subst hex.simps) (simp add: unhex_snoc)
  qed
qed

lemma hex_inject [simp]: "hex m = hex n \<longleftrightarrow> m = n"
  by (metis unhex_hex)

lemma hex_digits: "c \<in> set (hex n) \<Longrightarrow> is_hex c"
proof (induction n rule: hex.induct)
  case (1 n)
  then show ?case
    by (cases "n < 16") (auto simp: hex.simps [of n])
qed

lemma length_hex_pad [simp]: "length (hex_pad k n) = k"
  by (induction k arbitrary: n) auto

lemma unhex_hex_pad [simp]: "n < 16 ^ k \<Longrightarrow> unhex (hex_pad k n) = n"
proof (induction k arbitrary: n)
  case 0
  then show ?case by (simp add: unhex_def)
next
  case (Suc k)
  then have "n div 16 < 16 ^ k" by (simp add: less_mult_imp_div_less)
  with Suc.IH show ?case by (simp add: unhex_snoc)
qed

lemma hex_pad_digits: "c \<in> set (hex_pad k n) \<Longrightarrow> is_hex c"
  by (induction k arbitrary: n) auto

subsection \<open>UTF-8 and %q\<close>

text \<open>\<open>utf8.DecodeRuneInString\<close> over the byte values: the rune and its width, (U+FFFD, 1) if invalid.\<close>

definition rune_error :: nat where
  "rune_error = 65533"

definition cont :: "nat \<Rightarrow> bool" where
  "cont b \<longleftrightarrow> 128 \<le> b \<and> b \<le> 191"

definition conts :: "nat \<Rightarrow> nat list \<Rightarrow> bool" where
  "conts k bs \<longleftrightarrow> k \<le> length bs \<and> (\<forall>b \<in> set (take k bs). cont b)"

definition seq_len :: "nat \<Rightarrow> nat list \<Rightarrow> nat" where
  "seq_len b0 bs =
     (if 194 \<le> b0 \<and> b0 \<le> 223 \<and> conts 1 bs then 2
      else if 224 \<le> b0 \<and> b0 \<le> 239 \<and> conts 2 bs \<and>
        (b0 = 224 \<longrightarrow> 160 \<le> bs ! 0) \<and> (b0 = 237 \<longrightarrow> bs ! 0 \<le> 159) then 3
      else if 240 \<le> b0 \<and> b0 \<le> 244 \<and> conts 3 bs \<and>
        (b0 = 240 \<longrightarrow> 144 \<le> bs ! 0) \<and> (b0 = 244 \<longrightarrow> bs ! 0 \<le> 143) then 4
      else 1)"

definition seq_rune :: "nat \<Rightarrow> nat list \<Rightarrow> nat" where
  "seq_rune b0 bs =
     (let n = seq_len b0 bs
      in if n = 2 then (b0 - 192) * 64 + (bs ! 0 - 128)
         else if n = 3 then (b0 - 224) * 4096 + (bs ! 0 - 128) * 64 + (bs ! 1 - 128)
         else if n = 4
         then (b0 - 240) * 262144 + (bs ! 0 - 128) * 4096 + (bs ! 1 - 128) * 64 + (bs ! 2 - 128)
         else rune_error)"

fun decode_rune :: "nat list \<Rightarrow> nat \<times> nat" where
  "decode_rune [] = (rune_error, 0)"
| "decode_rune (b0 # bs) = (if b0 < 128 then (b0, 1) else (seq_rune b0 bs, seq_len b0 bs))"

lemma seq_len_pos: "1 \<le> seq_len b0 bs"
  by (simp add: seq_len_def)

lemma seq_len_conts: "seq_len b0 bs = Suc k \<Longrightarrow> conts k bs"
  by (auto simp: seq_len_def conts_def [of 0] numeral_eq_Suc split: if_splits)

lemma seq_rune_big: "128 \<le> seq_rune b0 bs"
proof -
  consider "seq_len b0 bs = 2" "194 \<le> b0" | "seq_len b0 bs = 3" "225 \<le> b0 \<or> 160 \<le> bs ! 0"
    | "seq_len b0 bs = 4" "241 \<le> b0 \<or> 144 \<le> bs ! 0" | "seq_len b0 bs = 1"
    by (fastforce simp: seq_len_def split: if_splits)
  then show ?thesis
    by cases (auto simp: seq_rune_def rune_error_def)
qed

lemma decode_rune_width: "1 \<le> snd (decode_rune (b # bs))"
  using seq_len_pos [of b bs] by simp

text \<open>
  \<open>strconv.appendEscapedRune\<close> with the quote \<open>"\<close>; \<open>raw\<close> holds the bytes of the rune. For ASCII,
  \<open>IsPrint\<close> is the range 0x20 to 0x7E; \<open>isp\<close> answers beyond it.
\<close>

definition is_print :: "(nat \<Rightarrow> bool) \<Rightarrow> nat \<Rightarrow> bool" where
  "is_print isp r = (if r < 128 then 32 \<le> r \<and> r < 127 else isp r)"

definition escape_rune :: "(nat \<Rightarrow> bool) \<Rightarrow> nat \<Rightarrow> string \<Rightarrow> string" where
  "escape_rune isp r raw =
     (if r = 34 \<or> r = 92 then CHR 0x5C # raw
      else if is_print isp r then raw
      else if r = 7 then [CHR 0x5C, CHR ''a'']
      else if r = 8 then [CHR 0x5C, CHR ''b'']
      else if r = 12 then [CHR 0x5C, CHR ''f'']
      else if r = 10 then [CHR 0x5C, CHR ''n'']
      else if r = 13 then [CHR 0x5C, CHR ''r'']
      else if r = 9 then [CHR 0x5C, CHR ''t'']
      else if r = 11 then [CHR 0x5C, CHR ''v'']
      else if r < 32 \<or> r = 127 then [CHR 0x5C, CHR ''x''] @ hex_pad 2 r
      else if r < 65536 then [CHR 0x5C, CHR ''u''] @ hex_pad 4 r
      else [CHR 0x5C, CHR ''U''] @ hex_pad 8 r)"

function quote_body :: "(nat \<Rightarrow> bool) \<Rightarrow> string \<Rightarrow> string" where
  "quote_body isp [] = []"
| "quote_body isp (c # cs) =
     (let (r, w) = decode_rune (map of_char (c # cs))
      in (if w = 1 \<and> r = rune_error
          then [CHR 0x5C, CHR ''x''] @ hex_pad 2 (of_char c)
          else escape_rune isp r (take w (c # cs)))
         @ quote_body isp (drop w (c # cs)))"
  by pat_completeness auto
termination
proof (relation "measure (length \<circ> snd)", goal_cases)
  case (2 isp c cs x r w)
  then have "1 \<le> w"
    using decode_rune_width [of "of_char c" "map of_char cs"] by (metis list.simps(9) snd_conv)
  then show ?case by simp
qed simp

declare quote_body.simps [simp del]

definition go_quote :: "(nat \<Rightarrow> bool) \<Rightarrow> string \<Rightarrow> string" where
  "go_quote isp s = [CHR 0x22] @ quote_body isp s @ [CHR 0x22]"

lemma quote_body_Nil [simp]: "quote_body isp [] = []"
  by (simp add: quote_body.simps)

text \<open>Printable ASCII without quote and backslash passes through.\<close>

definition plain :: "char \<Rightarrow> bool" where
  "plain c \<longleftrightarrow> 32 \<le> (of_char c :: nat) \<and> (of_char c :: nat) < 127 \<and>
     (of_char c :: nat) \<noteq> 34 \<and> (of_char c :: nat) \<noteq> 92"

lemma quote_body_ascii:
  "(of_char c :: nat) < 128 \<Longrightarrow>
   quote_body isp (c # cs) = escape_rune isp (of_char c) [c] @ quote_body isp cs"
  by (subst quote_body.simps) (simp add: rune_error_def)

lemma quote_body_plain: "\<forall>c \<in> set s. plain c \<Longrightarrow> quote_body isp s = s"
proof (induction s)
  case (Cons c cs)
  then have "plain c" by simp
  with Cons show ?case
    by (auto simp: quote_body_ascii escape_rune_def is_print_def plain_def)
qed simp

lemma go_quote_plain: "\<forall>c \<in> set s. plain c \<Longrightarrow> go_quote isp s = [CHR 0x22] @ s @ [CHR 0x22]"
  by (simp add: go_quote_def quote_body_plain)

text \<open>Whatever the input, the quoted form holds no control byte: no line break in particular.\<close>

definition no_control :: "char \<Rightarrow> bool" where
  "no_control c \<longleftrightarrow> 32 \<le> (of_char c :: nat)"

lemma hexdigit_no_control: "d < 16 \<Longrightarrow> no_control (hexdigit d)"
  by (simp add: no_control_def hexdigit_def)

lemma hex_pad_no_control: "list_all no_control (hex_pad k n)"
  by (induction k arbitrary: n) (auto simp: hexdigit_no_control)

lemma conts_raw: "conts k bs \<Longrightarrow> b \<in> set (take (Suc k) (b0 # bs)) \<Longrightarrow> b = b0 \<or> cont b"
  by (auto simp: conts_def)

lemma decode_rune_raw:
  assumes "128 \<le> b0" and "b \<in> set (take (seq_len b0 bs) (b0 # bs))"
  shows "128 \<le> b"
proof -
  obtain k where "seq_len b0 bs = Suc k"
    using seq_len_pos [of b0 bs] by (cases "seq_len b0 bs") auto
  with assms(2) have "b = b0 \<or> cont b"
    using conts_raw seq_len_conts by metis
  with assms(1) show ?thesis
    by (auto simp: cont_def)
qed

lemma escape_rune_no_control:
  assumes "list_all no_control raw \<or> \<not> is_print isp r \<and> r \<noteq> 34 \<and> r \<noteq> 92"
  shows "list_all no_control (escape_rune isp r raw)"
proof -
  have "no_control CHR 0x5C" "no_control CHR ''a''" "no_control CHR ''b''" "no_control CHR ''f''"
    "no_control CHR ''n''" "no_control CHR ''r''" "no_control CHR ''t''" "no_control CHR ''v''"
    "no_control CHR ''x''" "no_control CHR ''u''" "no_control CHR ''U''"
    by (simp_all add: no_control_def)
  with assms show ?thesis
    by (elim disjE) (simp_all add: escape_rune_def hex_pad_no_control)
qed

lemma decoded_no_control:
  assumes "decode_rune (map of_char (x # cs)) = (r, w)"
  shows "list_all no_control (take w (x # cs)) \<or> \<not> is_print isp r \<and> r \<noteq> 34 \<and> r \<noteq> 92"
proof (cases "(of_char x :: nat) < 128")
  case True
  with assms show ?thesis
    by (auto simp: is_print_def no_control_def)
next
  case False
  with assms have w: "w = seq_len (of_char x) (map of_char cs)" by simp
  have "128 \<le> (of_char c :: nat)" if "c \<in> set (take w (x # cs))" for c
  proof (rule decode_rune_raw)
    show "(of_char c :: nat) \<in> set (take (seq_len (of_char x) (map of_char cs)) (of_char x # map of_char cs))"
      using that w by (metis image_eqI list.simps(9) list.set_map take_map)
  qed (use False in simp)
  then show ?thesis
    by (fastforce simp: list_all_iff no_control_def)
qed

lemma quote_body_no_control: "list_all no_control (quote_body isp s)"
proof (induction isp s rule: quote_body.induct)
  case (2 isp x cs)
  obtain r w where rw: "decode_rune (map of_char (x # cs)) = (r, w)"
    by (cases "decode_rune (map of_char (x # cs))")
  have "list_all no_control (escape_rune isp r (take w (x # cs)))"
    using decoded_no_control [OF rw] by (rule escape_rune_no_control)
  moreover have "list_all no_control (quote_body isp (drop w (x # cs)))"
    using "2.IH" [OF rw [symmetric]] by simp
  moreover have "no_control CHR 0x5C" "no_control CHR ''x''"
    by (simp_all add: no_control_def)
  ultimately show ?case
    by (subst quote_body.simps) (simp add: rw [simplified] hex_pad_no_control split: prod.split)
qed simp

lemma go_quote_no_newline [text_simps]: "nl \<notin> set (go_quote isp s)"
  using quote_body_no_control [of isp s] by (auto simp: go_quote_def no_control_def list_all_iff)

end
