(* ===== verification/Bytes.thy ===== *)
theory Bytes
  imports Prelude
begin

text \<open>
  \<open>encoding/binary\<close> as the sources use it: 16 and 32 bit words in network (big endian) and host
  (little endian) order, the conversions \<open>byte(n >> 8)\<close> and \<open>int(a)<<8 | int(b)\<close> between lengths and
  bytes, and the copy of a slice into a buffer. The two byte orders share one interface, the locale
  \<open>byte_order\<close>, which both interpret.
\<close>

subsection \<open>Lengths as bytes\<close>

definition byte_of_nat :: "nat \<Rightarrow> byte" where
  "byte_of_nat n = of_nat n"

text \<open>\<open>int(a)<<8 | int(b)\<close> and \<open>int(a)<<16 | int(b)<<8 | int(c)\<close>.\<close>

definition hi_lo :: "byte \<Rightarrow> byte \<Rightarrow> nat" where
  "hi_lo a b = (push_bit 8 (unat a) OR unat b)"

definition hi_mid_lo :: "byte \<Rightarrow> byte \<Rightarrow> byte \<Rightarrow> nat" where
  "hi_mid_lo a b c = (push_bit 16 (unat a) OR push_bit 8 (unat b) OR unat c)"

lemma unat_byte_less [simp]: "unat (b :: byte) < 256"
  using unsigned_less [of b, where ?'a = nat] by simp

lemma unat_u16_less [simp]: "unat (b :: u16) < 65536"
  using unsigned_less [of b, where ?'a = nat] by simp

lemma or_disjoint_nat:
  fixes a b :: nat
  assumes "b < 2 ^ n"
  shows "push_bit n a OR b = a * 2 ^ n + b"
proof -
  have "push_bit n a AND b = 0"
  proof (rule bit_eqI)
    fix k
    have "k \<ge> n \<Longrightarrow> \<not> bit b k"
      using assms by (metis bit_take_bit_iff linorder_not_le take_bit_nat_eq_self)
    then show "bit (push_bit n a AND b) k \<longleftrightarrow> bit (0 :: nat) k"
      by (auto simp: bit_simps)
  qed
  then have "push_bit n a OR b = push_bit n a + b"
    by (simp add: disjunctive_add_eq_or)
  then show ?thesis
    by (simp add: push_bit_eq_mult mult.commute)
qed

lemma hi_lo_eq [bytes_simps]: "hi_lo a b = unat a * 256 + unat b"
  unfolding hi_lo_def by (subst or_disjoint_nat) auto

lemma hi_lo_less: "hi_lo a b < 65536"
  using unat_byte_less [of a] unat_byte_less [of b] unfolding hi_lo_eq by linarith

lemma hi_mid_lo_eq [bytes_simps]: "hi_mid_lo a b c = unat a * 65536 + unat b * 256 + unat c"
proof -
  have "push_bit 8 (unat b) OR unat c = unat b * 256 + unat c"
    using hi_lo_eq by (simp add: hi_lo_def)
  moreover have "unat b * 256 + unat c < 2 ^ 16"
    using hi_lo_less [of b c] by (simp add: hi_lo_eq)
  ultimately show ?thesis
    unfolding hi_mid_lo_def by (simp add: or_disjoint_nat or.assoc)
qed

lemma unat_byte_of_nat [bytes_simps]: "unat (byte_of_nat n) = n mod 256"
  by (simp add: byte_of_nat_def unat_of_nat)

lemma hi_lo_bytes [simp, bytes_simps]:
  "n < 65536 \<Longrightarrow> hi_lo (byte_of_nat (n div 256)) (byte_of_nat n) = n"
  by (simp add: hi_lo_eq unat_byte_of_nat)

lemma hi_mid_lo_bytes [simp, bytes_simps]:
  "n < 16777216 \<Longrightarrow>
   hi_mid_lo (byte_of_nat (n div 65536)) (byte_of_nat (n div 256)) (byte_of_nat n) = n"
proof -
  assume "n < 16777216"
  then have "n div 65536 < 256" by simp
  moreover have "n = n div 256 * 256 + n mod 256" and "n div 256 = n div 65536 * 256 + n div 256 mod 256"
    using div_mult_mod_eq [of n 256] div_mult_mod_eq [of "n div 256" 256]
    by (simp_all add: div_mult2_eq [of n 256 256, simplified])
  ultimately have "n div 65536 * 65536 + n div 256 mod 256 * 256 + n mod 256 = n"
    by linarith
  with \<open>n div 65536 < 256\<close> show ?thesis
    by (simp add: hi_mid_lo_eq unat_byte_of_nat)
qed

subsection \<open>Byte orders\<close>

definition be16 :: "u16 \<Rightarrow> bytes" where
  "be16 v = [ucast (drop_bit 8 v), ucast v]"

definition le16 :: "u16 \<Rightarrow> bytes" where
  "le16 v = [ucast v, ucast (drop_bit 8 v)]"

definition be32 :: "u32 \<Rightarrow> bytes" where
  "be32 v = [ucast (drop_bit 24 v), ucast (drop_bit 16 v), ucast (drop_bit 8 v), ucast v]"

definition le32 :: "u32 \<Rightarrow> bytes" where
  "le32 v = [ucast v, ucast (drop_bit 8 v), ucast (drop_bit 16 v), ucast (drop_bit 24 v)]"

definition get_be16 :: "byte \<Rightarrow> byte \<Rightarrow> u16" where
  "get_be16 a b = (push_bit 8 (ucast a) OR ucast b)"

definition get_be32 :: "byte \<Rightarrow> byte \<Rightarrow> byte \<Rightarrow> byte \<Rightarrow> u32" where
  "get_be32 a b c d =
     (push_bit 24 (ucast a) OR push_bit 16 (ucast b) OR push_bit 8 (ucast c) OR ucast d)"

lemma length_be16 [simp]: "length (be16 v) = 2"
  by (simp add: be16_def)

lemma length_le16 [simp]: "length (le16 v) = 2"
  by (simp add: le16_def)

lemma length_be32 [simp]: "length (be32 v) = 4"
  by (simp add: be32_def)

lemma length_le32 [simp]: "length (le32 v) = 4"
  by (simp add: le32_def)

lemma get_be16_be16 [simp]: "get_be16 (ucast (drop_bit 8 v)) (ucast v) = (v :: u16)"
  unfolding get_be16_def by (rule bit_eqI) (auto simp: bit_simps)

lemma get_be32_be32 [simp]:
  "get_be32 (ucast (drop_bit 24 v)) (ucast (drop_bit 16 v)) (ucast (drop_bit 8 v)) (ucast v) = (v :: u32)"
proof (rule bit_word_eqI)
  fix n
  assume "n < LENGTH(32)"
  consider "n < 8" | "8 \<le> n \<and> n < 16" | "16 \<le> n \<and> n < 24" | "24 \<le> n"
    by linarith
  then show "bit (get_be32 (ucast (drop_bit 24 v)) (ucast (drop_bit 16 v)) (ucast (drop_bit 8 v)) (ucast v)) n \<longleftrightarrow> bit v n"
    using \<open>n < LENGTH(32)\<close> by cases (auto simp: get_be32_def bit_simps)
qed

lemma unat_get_be16 [bytes_simps]: "unat (get_be16 a b) = hi_lo a b"
proof -
  have "get_be16 a b = of_nat (hi_lo a b)"
    unfolding get_be16_def hi_lo_def
    by (rule bit_eqI) (auto simp: bit_simps)
  then show ?thesis
    using hi_lo_less by (simp add: unat_of_nat)
qed

lemma hi_lo_u16 [simp]: "hi_lo (ucast (drop_bit 8 v)) (ucast (v :: u16)) = unat v"
  by (metis get_be16_be16 unat_get_be16)

lemma be16_of_nat [bytes_simps]: "be16 (of_nat n) = [byte_of_nat (n div 256), byte_of_nat n]"
proof -
  have "ucast (drop_bit 8 (of_nat n :: u16)) = byte_of_nat (n div 256)"
    unfolding byte_of_nat_def using mod_mult2_eq [of n 256 256]
    by (intro unsigned_word_eqI [where ?'a = nat])
      (simp add: unsigned_ucast_eq unsigned_drop_bit_eq unsigned_of_nat take_bit_eq_mod drop_bit_eq_div unat_div)
  moreover have "ucast (of_nat n :: u16) = byte_of_nat n"
    unfolding byte_of_nat_def by (rule bit_eqI) (auto simp: bit_simps)
  ultimately show ?thesis
    by (simp add: be16_def)
qed

text \<open>
  The interface of a byte order: what \<open>PutUint16\<close> writes into a two byte field, \<open>Uint16\<close> reads back.
\<close>

locale byte_order =
  fixes put :: "u16 \<Rightarrow> bytes" and get :: "bytes \<Rightarrow> u16"
  assumes length_put: "length (put v) = 2"
    and get_put: "get (put v) = v"
begin

lemma put_inject: "put v = put w \<longleftrightarrow> v = w"
  by (metis get_put)

lemma read_field:
  "length xs = i \<Longrightarrow> get (take 2 (drop i (xs @ put v @ ys))) = v"
  by (simp add: length_put get_put)

end

definition dec_be16 :: "bytes \<Rightarrow> u16" where
  "dec_be16 bs = get_be16 (bs ! 0) (bs ! 1)"

definition dec_le16 :: "bytes \<Rightarrow> u16" where
  "dec_le16 bs = get_be16 (bs ! 1) (bs ! 0)"

interpretation be: byte_order be16 dec_be16
  by unfold_locales (auto simp: be16_def dec_be16_def)

interpretation le: byte_order le16 dec_le16
  by unfold_locales (auto simp: le16_def dec_le16_def)

subsection \<open>Copying into a buffer\<close>

text \<open>\<open>copy(dst[i:j], src)\<close>: the shorter of the two lengths is copied.\<close>

definition blit :: "'a list \<Rightarrow> nat \<Rightarrow> nat \<Rightarrow> 'a list \<Rightarrow> 'a list" where
  "blit dst i j src =
     (let n = min (j - i) (length src) in take i dst @ take n src @ drop (i + n) dst)"

lemma length_blit [simp]: "i \<le> j \<Longrightarrow> j \<le> length dst \<Longrightarrow> length (blit dst i j src) = length dst"
  by (auto simp: blit_def Let_def min_def)

lemma blit_middle [bytes_simps]:
  "length xs = i \<Longrightarrow> length ys = j - i \<Longrightarrow> length src = j - i \<Longrightarrow> blit (xs @ ys @ zs) i j src = xs @ src @ zs"
  by (simp add: blit_def)

end
