(* ===== verification/NetIP.thy ===== *)
theory NetIP
  imports GoFormat Bytes
begin

text \<open>
  The part of package \<open>net\<close> the sources rely on: an IP address is a byte slice of length 4 or 16
  (\<open>nil\<close> is the empty one), \<open>To4\<close> returns its four byte form or nil, \<open>String\<close> prints it (dotted
  decimal, or RFC 5952 text with the longest run of zero groups compressed).
\<close>

type_synonym ip = bytes

definition to4 :: "ip \<Rightarrow> ip" where
  "to4 a =
     (if length a = 4 then a
      else if length a = 16 \<and> (\<forall>b \<in> set (take 10 a). b = 0) \<and> a ! 10 = 0xFF \<and> a ! 11 = 0xFF
      then drop 12 a
      else [])"

definition ipv4_string :: "ip \<Rightarrow> string" where
  "ipv4_string a = join_with ''.'' (map (dec \<circ> unat) a)"

definition v6_groups :: "ip \<Rightarrow> nat list" where
  "v6_groups a = map (\<lambda>i. hi_lo (a ! (2 * i)) (a ! (2 * i + 1))) [0..<8]"

definition zero_run :: "nat list \<Rightarrow> nat \<Rightarrow> nat" where
  "zero_run gs i = length (takeWhile (\<lambda>g. g = 0) (drop i gs))"

definition best_zero_run :: "nat list \<Rightarrow> nat \<times> nat" where
  "best_zero_run gs =
     fold (\<lambda>i (s, e). let l = zero_run gs i in if 2 \<le> l \<and> e - s < l then (i, i + l) else (s, e))
       [0..<8] (255, 255)"

definition ipv6_string :: "ip \<Rightarrow> string" where
  "ipv6_string a =
     (let gs = v6_groups a; (s, e) = best_zero_run gs
      in if s = 255 then join_with '':'' (map hex gs)
         else join_with '':'' (map hex (take s gs)) @ ''::'' @ join_with '':'' (map hex (drop e gs)))"

definition ip_string :: "ip \<Rightarrow> string" where
  "ip_string a =
     (if a = [] then ''<nil>''
      else if length a \<noteq> 4 \<and> length a \<noteq> 16 then ''?'' @ concat (map (hex_pad 2 \<circ> unat) a)
      else if to4 a \<noteq> [] then ipv4_string (to4 a)
      else ipv6_string a)"

lemma to4_v4 [simp]: "length a = 4 \<Longrightarrow> to4 a = a"
  by (simp add: to4_def)

lemma length_to4: "to4 a \<noteq> [] \<Longrightarrow> length (to4 a) = 4"
  by (simp add: to4_def split: if_splits)

lemma to4_idem [simp]: "to4 (to4 a) = to4 a"
  using length_to4 [of a] by (cases "to4 a = []") (simp_all, simp add: to4_def)

lemma ip_string_v4 [simp]: "length a = 4 \<Longrightarrow> ip_string a = ipv4_string a"
  by (auto simp: ip_string_def)

lemma ipv4_string_split:
  assumes "a \<noteq> []"
  shows "split_on CHR ''.'' (ipv4_string a) = map (dec \<circ> unat) a"
  unfolding ipv4_string_def using assms
  by (intro split_join) (auto simp: is_digit_def intro!: not_in_dec)

lemma ipv4_string_inject: "length a = 4 \<Longrightarrow> length b = 4 \<Longrightarrow> ipv4_string a = ipv4_string b \<longleftrightarrow> a = b"
proof
  assume "length a = 4" "length b = 4" "ipv4_string a = ipv4_string b"
  moreover from this(1,2) have "a \<noteq> []" "b \<noteq> []" by auto
  ultimately have "map (dec \<circ> unat) a = map (dec \<circ> unat) b"
    using ipv4_string_split [of a] ipv4_string_split [of b] by metis
  moreover have "inj (dec \<circ> (unat :: byte \<Rightarrow> nat))"
    by (rule injI) (simp add: unsigned_word_eqI)
  ultimately show "a = b"
    by (simp add: inj_map_eq_map)
qed simp

lemma ipv4_string_chars: "c \<in> set (ipv4_string a) \<Longrightarrow> is_digit c \<or> c = CHR ''.''"
proof -
  have "c \<in> set (join_with sep xs) \<Longrightarrow> c \<in> set sep \<or> (\<exists>x \<in> set xs. c \<in> set x)" for sep xs
    by (induction sep xs rule: join_with.induct) auto
  then show "c \<in> set (ipv4_string a) \<Longrightarrow> is_digit c \<or> c = CHR ''.''"
    unfolding ipv4_string_def using dec_digits by fastforce
qed

lemma bar_not_in_ipv4_string: "CHR ''|'' \<notin> set (ipv4_string a)"
  using ipv4_string_chars [of "CHR ''|''" a] by (auto simp: is_digit_def)

end
