(* ===== verification/Rawsock.thy ===== *)
theory Rawsock
  imports NetIP
begin

text \<open>
  Package rawsock (pkg/rawsock): \<open>BuildPacket\<close> and the functions it calls build the IPv4 and TCP
  headers of a fake packet and \<open>Checksum\<close> is the Internet checksum over them. The model writes the
  header buffers field by field, as the code does. The byte order of the IP length fields is chosen
  per platform by \<open>ipHeaderPutUint16\<close>. What is proved: the checksum loop ends and computes the ones'
  complement sum (no wrap-around up to 128 KiB of data), every built packet verifies under it, and a
  reference parser of the wire format reads back exactly the fields the packet was built from.
\<close>

record ConnInfo =
  SrcIP :: ip
  DstIP :: ip
  SrcPort :: u16
  DstPort :: u16
  Seq :: u32
  Ack :: u32

datatype platform = Linux | Darwin | Windows

fun ipHeaderPutUint16 :: "platform \<Rightarrow> u16 \<Rightarrow> bytes" where
  "ipHeaderPutUint16 Darwin v = le16 v"
| "ipHeaderPutUint16 Linux v = be16 v"
| "ipHeaderPutUint16 Windows v = be16 v"

subsection \<open>Checksum\<close>

text \<open>The summing loop over pairs of bytes, with the odd last byte in the high half.\<close>

fun sum16 :: "u32 \<Rightarrow> bytes \<Rightarrow> u32" where
  "sum16 s (a # b # r) = sum16 (s + (push_bit 8 (ucast a) OR ucast b)) r"
| "sum16 s [a] = s + push_bit 8 (ucast a)"
| "sum16 s [] = s"

text \<open>The folding loop: \<open>for sum>>16 != 0\<close>.\<close>

lemma fold_step_nat:
  fixes s :: u32
  shows "unat ((s AND 0xFFFF) + drop_bit 16 s) = unat s mod 65536 + unat s div 65536"
proof -
  have "unat (s AND 0xFFFF) = unat s mod 65536"
    using take_bit_eq_mask [of 16 "unat s"]
    by (simp add: unsigned_and_eq take_bit_eq_mod mask_eq_exp_minus_1)
  moreover have "unat (drop_bit 16 s) = unat s div 65536"
    by (simp add: unat_drop_bit_eq drop_bit_eq_div unat_div)
  moreover have "unat s mod 65536 + unat s div 65536 < 2 ^ 32"
    using unsigned_less [of s, where ?'a = nat] by simp
  ultimately show ?thesis
    by (simp add: unat_word_ariths)
qed

lemma carry_iff: "drop_bit 16 (s :: u32) \<noteq> 0 \<longleftrightarrow> 65536 \<le> unat s"
proof -
  have "drop_bit 16 s = 0 \<longleftrightarrow> unat (drop_bit 16 s) = 0"
    by (simp only: unat_eq_zero)
  also have "\<dots> \<longleftrightarrow> unat s < 65536"
    by (simp only: unat_drop_bit_eq drop_bit_eq_div) (simp add: unat_div div_eq_0_iff)
  finally show ?thesis by auto
qed

lemma fold_less: "65536 \<le> n \<Longrightarrow> n mod 65536 + n div 65536 < (n :: nat)"
  using div_mult_mod_eq [of n 65536] by (cases "n div 65536") linarith+

function fold_carry :: "u32 \<Rightarrow> u32" where
  "fold_carry s = (if drop_bit 16 s \<noteq> 0 then fold_carry ((s AND 0xFFFF) + drop_bit 16 s) else s)"
  by pat_completeness auto

termination
  by (relation "measure unat") (simp_all add: carry_iff fold_step_nat fold_less)

declare fold_carry.simps [simp del]

definition Checksum :: "bytes \<Rightarrow> u16" where
  "Checksum data = NOT (ucast (fold_carry (sum16 0 data)))"

subsection \<open>The headers\<close>

text \<open>\<open>IPPROTO_TCP\<close>, and Go's \<open>hdr[i] = v\<close> as a list update: every index below is inside the buffer.\<close>

definition ipproto_tcp :: byte where
  "ipproto_tcp = 6"

definition buildTCPHeader :: "ConnInfo \<Rightarrow> bytes" where
  "buildTCPHeader conn =
     (let hdr = replicate 20 0;
          hdr = blit hdr 0 2 (be16 (SrcPort conn));
          hdr = blit hdr 2 4 (be16 (DstPort conn));
          hdr = blit hdr 4 8 (be32 (Seq conn));
          hdr = blit hdr 8 12 (be32 (Ack conn));
          hdr = hdr[12 := 0x50];
          hdr = hdr[13 := 0x18];
          hdr = blit hdr 14 16 (be16 502)
      in hdr)"

definition buildIPHeader :: "platform \<Rightarrow> ConnInfo \<Rightarrow> int \<Rightarrow> nat \<Rightarrow> bytes" where
  "buildIPHeader os conn ttl payloadLen =
     (let totalLen = 20 + payloadLen;
          hdr = replicate 20 0;
          hdr = hdr[0 := 0x45];
          hdr = blit hdr 2 4 (ipHeaderPutUint16 os (of_nat totalLen));
          hdr = blit hdr 4 6 (ipHeaderPutUint16 os 0x1234);
          hdr = hdr[8 := of_int ttl];
          hdr = hdr[9 := ipproto_tcp];
          hdr = blit hdr 12 16 (to4 (SrcIP conn));
          hdr = blit hdr 16 20 (to4 (DstIP conn));
          cs = Checksum hdr;
          hdr = hdr[10 := ucast (drop_bit 8 cs)];
          hdr = hdr[11 := ucast cs]
      in hdr)"

definition BuildPacket :: "platform \<Rightarrow> ConnInfo \<Rightarrow> bytes \<Rightarrow> int \<Rightarrow> bytes" where
  "BuildPacket os conn payload ttl =
     (let tcpHdr = buildTCPHeader conn;
          ipHdr = buildIPHeader os conn ttl (length tcpHdr + length payload);
          pkt = ipHdr @ tcpHdr @ payload;
          tcpChecksumOffset = length ipHdr + 16;
          checksumData =
            to4 (SrcIP conn) @ to4 (DstIP conn) @ [0, ipproto_tcp] @
            be16 (of_nat (length tcpHdr + length payload)) @ drop (length ipHdr) pkt;
          cs = Checksum checksumData
      in pkt[tcpChecksumOffset := ucast (drop_bit 8 cs), tcpChecksumOffset + 1 := ucast cs])"

subsection \<open>Sending\<close>

text \<open>
  The raw socket of each platform: a file descriptor on Linux and macOS, an Npcap handle with the
  two MAC addresses on Windows. \<open>SendFake\<close> hands one packet to the system: \<open>Sendto\<close> with the
  address of a zeroed \<open>SockaddrInet4\<close> into which the destination is copied, or one Ethernet frame.
\<close>

datatype RawSocket = platformRawSocket platform | pcapRawSocket (srcMAC: bytes) (dstMAC: bytes)

datatype transmission = Sendto (sent_addr: bytes) (sent_pkt: bytes) | WritePacketData (sent_frame: bytes)

definition ethernet_frame :: "bytes \<Rightarrow> bytes \<Rightarrow> bytes \<Rightarrow> bytes" where
  "ethernet_frame smac dmac ipTcp =
     (let frame = replicate (14 + length ipTcp) 0;
          frame = blit frame 0 6 dmac;
          frame = blit frame 6 12 smac;
          frame = frame[12 := 0x08];
          frame = frame[13 := 0x00]
      in blit frame 14 (length frame) ipTcp)"

fun SendFake :: "RawSocket \<Rightarrow> ConnInfo \<Rightarrow> bytes \<Rightarrow> int \<Rightarrow> transmission" where
  "SendFake (platformRawSocket os) conn payload ttl =
     Sendto (blit (replicate 4 0) 0 4 (to4 (DstIP conn))) (BuildPacket os conn payload ttl)"
| "SendFake (pcapRawSocket smac dmac) conn payload ttl =
     WritePacketData (ethernet_frame smac dmac (BuildPacket Windows conn payload ttl))"

subsection \<open>The ones' complement sum\<close>

text \<open>The mathematical sum of the 16 bit groups, without any wrap-around.\<close>

fun nsum :: "bytes \<Rightarrow> nat" where
  "nsum (a # b # r) = hi_lo a b + nsum r"
| "nsum [a] = unat a * 256"
| "nsum [] = 0"

lemma unat_group: "unat (push_bit 8 (ucast (a :: byte)) OR ucast (b :: byte) :: u32) = hi_lo a b"
proof -
  have "(push_bit 8 (ucast a) OR ucast b :: u32) = of_nat (hi_lo a b)"
    unfolding hi_lo_def by (rule bit_word_eqI) (auto simp: bit_simps)
  moreover have "hi_lo a b < 2 ^ 32"
    using hi_lo_less [of a b] by simp
  ultimately show ?thesis
    by (simp add: unat_of_nat)
qed

lemma unat_sum16: "unat (sum16 s d) = (unat s + nsum d) mod 2 ^ 32"
proof (induction s d rule: sum16.induct)
  case (1 s a b r)
  then show ?case
    by (simp add: unat_word_ariths unat_group mod_simps add.assoc)
next
  case (2 s a)
  have "unat (push_bit 8 (ucast a) :: u32) = unat a * 256"
    using unat_group [of a 0] by (simp add: hi_lo_eq)
  then show ?case by (simp add: unat_word_ariths)
next
  case (3 s)
  then show ?case using unsigned_less [of s, where ?'a = nat] by simp
qed

lemma nsum_append: "even (length xs) \<Longrightarrow> nsum (xs @ ys) = nsum xs + nsum ys"
  by (induction xs rule: nsum.induct) auto

lemma nsum_bound: "nsum d \<le> 65535 * ((length d + 1) div 2)"
proof (induction d rule: nsum.induct)
  case (1 a b r)
  then show ?case
    using hi_lo_less [of a b] by simp
next
  case (2 a)
  have "unat a \<le> 255" using unat_byte_less [of a] by linarith
  then show ?case by simp
qed simp

lemma nsum_no_wrap: "length d \<le> 131072 \<Longrightarrow> nsum d < 2 ^ 32"
  using nsum_bound [of d] by simp

lemma fold_carry_props:
  "unat (fold_carry s) < 65536 \<and> unat (fold_carry s) mod 65535 = unat s mod 65535 \<and>
   (unat (fold_carry s) = 0 \<longleftrightarrow> unat s = 0)"
proof (induction s rule: fold_carry.induct)
  case (1 s)
  let ?t = "(s AND 0xFFFF) + drop_bit 16 s"
  show ?case
  proof (cases "drop_bit 16 s \<noteq> 0")
    case True
    have t: "unat ?t = unat s mod 65536 + unat s div 65536" by (rule fold_step_nat)
    have "unat s = unat ?t + 65535 * (unat s div 65536)"
      unfolding t using div_mult_mod_eq [of "unat s" 65536] by linarith
    then have "unat ?t mod 65535 = unat s mod 65535"
      by (metis mod_mult_self2)
    moreover have "unat ?t = 0 \<longleftrightarrow> unat s = 0"
      unfolding t by (auto simp: mod_eq_0_iff_dvd)
    ultimately show ?thesis
      using "1.IH" [OF True] True by (simp add: fold_carry.simps [of s])
  next
    case False
    then show ?thesis
      using carry_iff [of s] by (subst (1 2 3) fold_carry.simps) simp
  qed
qed

text \<open>The reference: the ones' complement of the sum of the groups, reduced modulo 65535.\<close>

definition ones_sum :: "nat \<Rightarrow> nat" where
  "ones_sum n = (if n = 0 then 0 else if n mod 65535 = 0 then 65535 else n mod 65535)"

lemma ones_sum_le: "ones_sum n \<le> 65535"
  using mod_less_divisor [of 65535 n] by (simp add: ones_sum_def less_imp_le del: mod_less_divisor)

lemma ones_sum_mod: "ones_sum n mod 65535 = n mod 65535"
  by (simp add: ones_sum_def)

lemma ones_sum_zero: "ones_sum n = 0 \<longleftrightarrow> n = 0"
  by (simp add: ones_sum_def)

lemma ones_sum_unique:
  assumes "f < 65536" and "f mod 65535 = n mod 65535" and "f = 0 \<longleftrightarrow> n = 0"
  shows "f = ones_sum n"
proof (cases "f = 65535")
  case True
  with assms show ?thesis by (auto simp: ones_sum_def)
next
  case False
  with assms(1) have "f mod 65535 = f" by simp
  with assms show ?thesis by (auto simp: ones_sum_def)
qed

lemma unat_not_u16: "unat (NOT w :: u16) = 65535 - unat w"
proof -
  have "NOT w = - 1 - w"
    by (simp add: not_eq_complement)
  moreover have "unat (- 1 - w) = unat (- 1 :: u16) - unat w"
    by (rule unat_sub) simp
  ultimately show ?thesis
    by (simp add: unsigned_minus_1_eq_mask mask_eq_exp_minus_1)
qed

lemma unat_Checksum:
  assumes "nsum d < 2 ^ 32"
  shows "unat (Checksum d) = 65535 - ones_sum (nsum d)"
proof -
  let ?f = "fold_carry (sum16 0 d)"
  have s: "unat (sum16 0 d) = nsum d"
    using assms by (simp add: unat_sum16)
  have f: "unat ?f = ones_sum (nsum d)"
    using fold_carry_props [of "sum16 0 d"] by (intro ones_sum_unique) (auto simp: s)
  have "unat (ucast ?f :: u16) = unat ?f"
    using fold_carry_props [of "sum16 0 d"] by (simp add: unsigned_ucast_eq take_bit_nat_eq_self)
  then show ?thesis
    by (simp add: Checksum_def unat_not_u16 f)
qed

lemma Checksum_zero_iff:
  assumes "nsum d < 2 ^ 32"
  shows "Checksum d = 0 \<longleftrightarrow> nsum d \<noteq> 0 \<and> nsum d mod 65535 = 0"
proof -
  have "Checksum d = 0 \<longleftrightarrow> unat (Checksum d) = 0"
    by (simp only: unat_eq_zero)
  also have "\<dots> \<longleftrightarrow> nsum d \<noteq> 0 \<and> nsum d mod 65535 = 0"
    using mod_less_divisor [of 65535 "nsum d"]
    by (simp add: unat_Checksum [OF assms] ones_sum_def del: mod_less_divisor)
  finally show ?thesis .
qed

text \<open>
  The insertion law behind both header checksums: with the two checksum bytes zero, at an even
  offset, storing the checksum there makes the whole verify.
\<close>

lemma Checksum_insert:
  assumes len: "even (length xs)" "length (xs @ [0, 0] @ ys) \<le> 131070"
    and cs: "cs = Checksum (xs @ [0, 0] @ ys)"
  shows "Checksum (xs @ [ucast (drop_bit 8 cs), ucast cs] @ ys) = 0"
proof -
  let ?n = "nsum (xs @ [0, 0] @ ys)"
  let ?d = "xs @ [ucast (drop_bit 8 cs), ucast cs] @ ys"
  have n: "?n < 2 ^ 32" and n': "nsum ?d < 2 ^ 32"
    using len(2) nsum_no_wrap by simp_all
  have d: "nsum ?d = ?n + (65535 - ones_sum ?n)"
    using len(1) unat_Checksum [OF n] by (simp add: nsum_append hi_lo_eq [of 0 0] cs)
  note le = ones_sum_le [of ?n] and z = ones_sum_zero [of ?n]
  have "nsum ?d mod 65535 = (ones_sum ?n mod 65535 + (65535 - ones_sum ?n)) mod 65535"
    by (simp only: d ones_sum_mod mod_add_left_eq)
  also have "\<dots> = (ones_sum ?n + (65535 - ones_sum ?n)) mod 65535"
    by (simp only: mod_add_left_eq)
  also have "\<dots> = 0"
    using le by simp
  finally have "nsum ?d mod 65535 = 0" .
  moreover have "nsum ?d \<noteq> 0"
    using z unfolding d by linarith
  ultimately show ?thesis
    by (intro iffD2 [OF Checksum_zero_iff [OF n']] conjI)
qed

subsection \<open>The packets in closed form\<close>

lemma buildTCPHeader_eq:
  "buildTCPHeader conn =
     be16 (SrcPort conn) @ be16 (DstPort conn) @ be32 (Seq conn) @ be32 (Ack conn) @
     [0x50, 0x18] @ be16 502 @ [0, 0, 0, 0]"
  by (simp add: buildTCPHeader_def be16_def be32_def blit_def numeral_eq_Suc Let_def)

lemma length_ipHeaderPutUint16 [simp]: "length (ipHeaderPutUint16 os v) = 2"
  by (cases os) auto

text \<open>The layout with a given checksum field, and what the builders put there.\<close>

definition tcp_layout :: "ConnInfo \<Rightarrow> u16 \<Rightarrow> bytes" where
  "tcp_layout conn cs =
     be16 (SrcPort conn) @ be16 (DstPort conn) @ be32 (Seq conn) @ be32 (Ack conn) @
     [0x50, 0x18] @ be16 502 @ be16 cs @ [0, 0]"

definition ip_layout :: "platform \<Rightarrow> ConnInfo \<Rightarrow> int \<Rightarrow> nat \<Rightarrow> u16 \<Rightarrow> bytes" where
  "ip_layout os conn ttl n cs =
     [0x45, 0] @ ipHeaderPutUint16 os (of_nat (20 + n)) @ ipHeaderPutUint16 os 0x1234 @ [0, 0] @
     [of_int ttl, ipproto_tcp] @ be16 cs @ to4 (SrcIP conn) @ to4 (DstIP conn)"

definition pseudo_header :: "ConnInfo \<Rightarrow> nat \<Rightarrow> bytes" where
  "pseudo_header conn n =
     to4 (SrcIP conn) @ to4 (DstIP conn) @ [0, ipproto_tcp] @ be16 (of_nat n)"

definition v4_conn :: "ConnInfo \<Rightarrow> bool" where
  "v4_conn conn \<longleftrightarrow> to4 (SrcIP conn) \<noteq> [] \<and> to4 (DstIP conn) \<noteq> []"

lemma length_tcp_layout [simp]: "length (tcp_layout conn cs) = 20"
  by (simp add: tcp_layout_def)

lemma buildTCPHeader_layout: "buildTCPHeader conn = tcp_layout conn 0"
  by (simp add: buildTCPHeader_eq tcp_layout_def be16_def)

lemma length_four: "length xs = 4 \<Longrightarrow> \<exists>a b c d. xs = [a, b, c, d]"
  by (auto simp: numeral_eq_Suc length_Suc_conv)

lemma length_two: "length xs = 2 \<Longrightarrow> \<exists>a b. xs = [a, b]"
  by (auto simp: numeral_eq_Suc length_Suc_conv)

lemma buildIPHeader_layout:
  assumes "v4_conn conn"
  shows "buildIPHeader os conn ttl n =
    ip_layout os conn ttl n (Checksum (ip_layout os conn ttl n 0))"
proof -
  obtain s where s: "to4 (SrcIP conn) = s" "\<exists>a b c d. s = [a, b, c, d]"
    using assms length_to4 length_four by (metis v4_conn_def)
  obtain t where t: "to4 (DstIP conn) = t" "\<exists>a b c d. t = [a, b, c, d]"
    using assms length_to4 length_four by (metis v4_conn_def)
  obtain l1 l2 where l: "ipHeaderPutUint16 os (of_nat (20 + n)) = [l1, l2]"
    using length_two length_ipHeaderPutUint16 by blast
  obtain i1 i2 where i: "ipHeaderPutUint16 os 0x1234 = [i1, i2]"
    using length_two length_ipHeaderPutUint16 by blast
  show ?thesis
    using s(2) t(2) unfolding buildIPHeader_def Let_def ip_layout_def s(1) t(1) l i
    by (elim exE) (simp add: blit_def numeral_eq_Suc be16_def)
qed

lemma length_ip_layout [simp]: "v4_conn conn \<Longrightarrow> length (ip_layout os conn ttl n cs) = 20"
  by (simp add: ip_layout_def v4_conn_def length_to4)

lemma update_pair:
  "length xs = i \<Longrightarrow> (xs @ a # b # ys)[i := c, Suc i := d] = xs @ c # d # ys"
  by (simp add: list_update_append)

lemma BuildPacket_layout:
  fixes conn payload
  defines "n \<equiv> 20 + length payload"
  assumes "v4_conn conn"
  shows "BuildPacket os conn payload ttl =
    ip_layout os conn ttl n (Checksum (ip_layout os conn ttl n 0)) @
    tcp_layout conn (Checksum (pseudo_header conn n @ tcp_layout conn 0 @ payload)) @ payload"
proof -
  let ?ip = "ip_layout os conn ttl n (Checksum (ip_layout os conn ttl n 0))"
  define cs where "cs = Checksum (pseudo_header conn n @ tcp_layout conn 0 @ payload)"
  define pre where "pre = be16 (SrcPort conn) @ be16 (DstPort conn) @ be32 (Seq conn) @
    be32 (Ack conn) @ [0x50, 0x18] @ be16 502"
  have t: "tcp_layout conn c = pre @ be16 c @ [0, 0]" for c
    by (simp add: tcp_layout_def pre_def)
  have pre: "length pre = 16"
    by (simp add: pre_def)
  have "BuildPacket os conn payload ttl =
      (?ip @ tcp_layout conn 0 @ payload)[20 + 16 := ucast (drop_bit 8 cs), 20 + 16 + 1 := ucast cs]"
    unfolding BuildPacket_def Let_def buildTCPHeader_layout
    using assms by (simp add: buildIPHeader_layout cs_def pseudo_header_def n_def)
  also have "\<dots> = ((?ip @ pre) @ 0 # 0 # [0, 0] @ payload)
      [36 := ucast (drop_bit 8 cs), Suc 36 := ucast cs]"
    by (simp add: t be16_def)
  also have "\<dots> = (?ip @ pre) @ ucast (drop_bit 8 cs) # ucast cs # [0, 0] @ payload"
    by (rule update_pair) (simp add: assms pre)
  also have "\<dots> = ?ip @ tcp_layout conn cs @ payload"
    by (simp add: t be16_def)
  finally show ?thesis by (simp only: cs_def)
qed

lemma ip_layout_verifies:
  assumes "v4_conn conn" and "cs = Checksum (ip_layout os conn ttl n 0)"
  shows "Checksum (ip_layout os conn ttl n cs) = 0"
proof -
  define pre where "pre = [0x45, 0] @ ipHeaderPutUint16 os (of_nat (20 + n)) @
    ipHeaderPutUint16 os 0x1234 @ [0, 0] @ [of_int ttl, ipproto_tcp]"
  define post where "post = to4 (SrcIP conn) @ to4 (DstIP conn)"
  have eq: "ip_layout os conn ttl n c = pre @ [ucast (drop_bit 8 c), ucast c] @ post" for c
    by (simp add: ip_layout_def pre_def post_def be16_def)
  have "length pre = 10" and "length post = 8"
    using assms(1) by (simp_all add: pre_def post_def v4_conn_def length_to4)
  then show ?thesis
    unfolding eq by (intro Checksum_insert) (simp_all add: assms(2) eq)
qed

lemma tcp_layout_verifies:
  assumes "v4_conn conn" and "length payload \<le> 65495"
    and "cs = Checksum (pseudo_header conn n @ tcp_layout conn 0 @ payload)"
  shows "Checksum (pseudo_header conn n @ tcp_layout conn cs @ payload) = 0"
proof -
  define pre where "pre = pseudo_header conn n @ be16 (SrcPort conn) @ be16 (DstPort conn) @
    be32 (Seq conn) @ be32 (Ack conn) @ [0x50, 0x18] @ be16 502"
  have eq: "pseudo_header conn n @ tcp_layout conn c @ payload =
      pre @ [ucast (drop_bit 8 c), ucast c] @ [0, 0] @ payload" for c
    by (simp add: tcp_layout_def pre_def be16_def)
  have "length pre = 28"
    using assms(1) by (simp add: pre_def pseudo_header_def v4_conn_def length_to4)
  with assms(2) show ?thesis
    unfolding eq by (intro Checksum_insert) (simp_all add: assms(3) eq)
qed

subsection \<open>A reference parser of the wire format\<close>

text \<open>
  What a receiver checks and extracts: version 4 without options, protocol TCP, the declared total
  length, both checksums, a TCP header without options. \<open>ipHeaderUint16\<close> reads the length in the
  byte order the platform's raw sockets expect.
\<close>

fun ipHeaderUint16 :: "platform \<Rightarrow> bytes \<Rightarrow> u16" where
  "ipHeaderUint16 Darwin bs = dec_le16 bs"
| "ipHeaderUint16 Linux bs = dec_be16 bs"
| "ipHeaderUint16 Windows bs = dec_be16 bs"

interpretation ipfield: byte_order "ipHeaderPutUint16 os" "ipHeaderUint16 os" for os
  by unfold_locales (cases os; simp add: be.get_put le.get_put)+

record wire_packet =
  wire_conn :: ConnInfo
  wire_ttl :: byte
  wire_flags :: byte
  wire_payload :: bytes

definition parse_packet :: "platform \<Rightarrow> bytes \<Rightarrow> wire_packet option" where
  "parse_packet os p =
     (if 40 \<le> length p \<and> p ! 0 = 0x45 \<and> p ! 9 = ipproto_tcp \<and>
        unat (ipHeaderUint16 os (take 2 (drop 2 p))) = length p \<and> Checksum (take 20 p) = 0 \<and>
        p ! 32 = 0x50 \<and>
        Checksum (take 8 (drop 12 p) @ [0, ipproto_tcp] @ be16 (of_nat (length p - 20)) @ drop 20 p) = 0
      then Some
        \<lparr>wire_conn =
           \<lparr>SrcIP = take 4 (drop 12 p), DstIP = take 4 (drop 16 p),
            SrcPort = get_be16 (p ! 20) (p ! 21), DstPort = get_be16 (p ! 22) (p ! 23),
            Seq = get_be32 (p ! 24) (p ! 25) (p ! 26) (p ! 27),
            Ack = get_be32 (p ! 28) (p ! 29) (p ! 30) (p ! 31)\<rparr>,
         wire_ttl = p ! 8, wire_flags = p ! 33, wire_payload = drop 40 p\<rparr>
      else None)"

lemma packet_reads:
  assumes "v4_conn conn"
  defines "q os ttl n c1 d c2 payload \<equiv> ip_layout os conn ttl n c1 @ tcp_layout d c2 @ payload"
  shows "q os ttl n c1 d c2 payload ! 0 = 0x45"
    and "q os ttl n c1 d c2 payload ! 8 = of_int ttl"
    and "q os ttl n c1 d c2 payload ! 9 = ipproto_tcp"
    and "ipHeaderUint16 os (take 2 (drop 2 (q os ttl n c1 d c2 payload))) = of_nat (20 + n)"
    and "take 4 (drop 12 (q os ttl n c1 d c2 payload)) = to4 (SrcIP conn)"
    and "take 4 (drop 16 (q os ttl n c1 d c2 payload)) = to4 (DstIP conn)"
    and "take 8 (drop 12 (q os ttl n c1 d c2 payload)) = to4 (SrcIP conn) @ to4 (DstIP conn)"
    and "get_be16 (q os ttl n c1 d c2 payload ! 20) (q os ttl n c1 d c2 payload ! 21) = SrcPort d"
    and "get_be16 (q os ttl n c1 d c2 payload ! 22) (q os ttl n c1 d c2 payload ! 23) = DstPort d"
    and "get_be32 (q os ttl n c1 d c2 payload ! 24) (q os ttl n c1 d c2 payload ! 25)
           (q os ttl n c1 d c2 payload ! 26) (q os ttl n c1 d c2 payload ! 27) = Seq d"
    and "get_be32 (q os ttl n c1 d c2 payload ! 28) (q os ttl n c1 d c2 payload ! 29)
           (q os ttl n c1 d c2 payload ! 30) (q os ttl n c1 d c2 payload ! 31) = Ack d"
    and "q os ttl n c1 d c2 payload ! 32 = 0x50"
    and "q os ttl n c1 d c2 payload ! 33 = 0x18"
    and "drop 40 (q os ttl n c1 d c2 payload) = payload"
proof -
  obtain s where s: "to4 (SrcIP conn) = s" "\<exists>a b c d. s = [a, b, c, d]"
    using assms(1) length_to4 length_four by (metis v4_conn_def)
  obtain t where t: "to4 (DstIP conn) = t" "\<exists>a b c d. t = [a, b, c, d]"
    using assms(1) length_to4 length_four by (metis v4_conn_def)
  obtain l1 l2 where l: "ipHeaderPutUint16 os (of_nat (20 + n)) = [l1, l2]"
    using length_two length_ipHeaderPutUint16 by blast
  obtain i1 i2 where i: "ipHeaderPutUint16 os 0x1234 = [i1, i2]"
    using length_two length_ipHeaderPutUint16 by blast
  have len: "ipHeaderUint16 os [l1, l2] = of_nat (20 + n)"
    by (metis ipfield.get_put l)
  note explicit = q_def ip_layout_def tcp_layout_def s(1) t(1) l i be16_def be32_def
  show "q os ttl n c1 d c2 payload ! 0 = 0x45" "q os ttl n c1 d c2 payload ! 8 = of_int ttl"
    "q os ttl n c1 d c2 payload ! 9 = ipproto_tcp"
    "ipHeaderUint16 os (take 2 (drop 2 (q os ttl n c1 d c2 payload))) = of_nat (20 + n)"
    unfolding explicit using len by simp_all
  show "take 4 (drop 12 (q os ttl n c1 d c2 payload)) = to4 (SrcIP conn)"
    "take 4 (drop 16 (q os ttl n c1 d c2 payload)) = to4 (DstIP conn)"
    "take 8 (drop 12 (q os ttl n c1 d c2 payload)) = to4 (SrcIP conn) @ to4 (DstIP conn)"
    "get_be16 (q os ttl n c1 d c2 payload ! 20) (q os ttl n c1 d c2 payload ! 21) = SrcPort d"
    "get_be16 (q os ttl n c1 d c2 payload ! 22) (q os ttl n c1 d c2 payload ! 23) = DstPort d"
    "get_be32 (q os ttl n c1 d c2 payload ! 24) (q os ttl n c1 d c2 payload ! 25)
       (q os ttl n c1 d c2 payload ! 26) (q os ttl n c1 d c2 payload ! 27) = Seq d"
    "get_be32 (q os ttl n c1 d c2 payload ! 28) (q os ttl n c1 d c2 payload ! 29)
       (q os ttl n c1 d c2 payload ! 30) (q os ttl n c1 d c2 payload ! 31) = Ack d"
    "q os ttl n c1 d c2 payload ! 32 = 0x50" "q os ttl n c1 d c2 payload ! 33 = 0x18"
    "drop 40 (q os ttl n c1 d c2 payload) = payload"
    using s(2) t(2) unfolding explicit by (elim exE; simp)+
qed

lemma parse_packet_built:
  assumes "v4_conn conn" and "length payload \<le> 65495"
  shows "parse_packet os (BuildPacket os conn payload ttl) = Some
    \<lparr>wire_conn = conn\<lparr>SrcIP := to4 (SrcIP conn), DstIP := to4 (DstIP conn)\<rparr>,
     wire_ttl = of_int ttl, wire_flags = 0x18, wire_payload = payload\<rparr>"
proof -
  let ?n = "20 + length payload"
  let ?p = "BuildPacket os conn payload ttl"
  define c1 where "c1 = Checksum (ip_layout os conn ttl ?n 0)"
  define c2 where "c2 = Checksum (pseudo_header conn ?n @ tcp_layout conn 0 @ payload)"
  have p: "?p = ip_layout os conn ttl ?n c1 @ tcp_layout conn c2 @ payload"
    using assms(1) by (simp add: BuildPacket_layout c1_def c2_def)
  have len: "length ?p = 40 + length payload"
    using assms(1) by (simp add: p)
  note reads = packet_reads [OF assms(1), of os ttl ?n c1 conn c2 payload, folded p]
  have ip: "Checksum (take 20 ?p) = 0"
    using assms by (simp add: p ip_layout_verifies c1_def)
  have "take 8 (drop 12 ?p) @ [0, ipproto_tcp] @ be16 (of_nat (length ?p - 20)) @ drop 20 ?p
      = pseudo_header conn ?n @ tcp_layout conn c2 @ payload"
    using assms(1) by (simp add: reads pseudo_header_def len) (simp add: p)
  then have tcp: "Checksum (take 8 (drop 12 ?p) @ [0, ipproto_tcp] @
      be16 (of_nat (length ?p - 20)) @ drop 20 ?p) = 0"
    using assms by (simp only: tcp_layout_verifies c2_def)
  have total: "unat (ipHeaderUint16 os (take 2 (drop 2 ?p))) = length ?p"
    using assms(2) unfolding reads(4) len by (subst unat_of_nat) simp
  have "40 \<le> length ?p" using len by simp
  then show ?thesis
    unfolding parse_packet_def using ip tcp total reads by (simp only: simp_thms if_True) simp
qed

subsection \<open>Properties\<close>

text \<open>
  C14. \<open>Checksum\<close> is the Internet checksum of RFC 1071: for data up to 128 KiB (any IP packet) the
  32 bit accumulator does not overflow, the folding loop ends, and the result is the complement of
  the ones' complement sum of the 16 bit groups, an odd last byte padded with zero.
\<close>

theorem Checksum_is_internet_checksum:
  assumes "length data \<le> 131072"
  shows "unat (Checksum data) = 65535 - ones_sum (nsum data)"
  using assms by (intro unat_Checksum nsum_no_wrap)

theorem Checksum_is_internet_checksum_witness:
  "unat (Checksum [0x00, 0x01, 0xF2, 0x03, 0xF4, 0xF5, 0xF6, 0xF7]) = 0x220D"
  using Checksum_is_internet_checksum [of "[0x00, 0x01, 0xF2, 0x03, 0xF4, 0xF5, 0xF6, 0xF7]"]
  by (simp add: hi_lo_eq ones_sum_def)

text \<open>
  A packet built for two IPv4 endpoints is valid on the wire: the IP header and the TCP segment
  under its pseudo header both verify (their checksum is zero), whatever the payload up to the
  maximum of an IP packet and on every platform.
\<close>

theorem BuildPacket_checksums_verify:
  assumes "v4_conn conn" and "length payload \<le> 65495"
  shows "Checksum (take 20 (BuildPacket os conn payload ttl)) = 0 \<and>
    Checksum (pseudo_header conn (20 + length payload) @ drop 20 (BuildPacket os conn payload ttl)) = 0"
  using assms by (simp add: BuildPacket_layout ip_layout_verifies tcp_layout_verifies)

abbreviation sample_conn :: ConnInfo where
  "sample_conn \<equiv> \<lparr>SrcIP = [10, 0, 0, 1], DstIP = [93, 184, 216, 34], SrcPort = 12345,
     DstPort = 443, Seq = 1000, Ack = 2000\<rparr>"

lemma sample_conn_v4: "v4_conn sample_conn"
  by (simp add: v4_conn_def)

theorem BuildPacket_checksums_verify_witness:
  "Checksum (take 20 (BuildPacket Darwin sample_conn [0x74, 0x65, 0x73, 0x74] 8)) = 0"
  using BuildPacket_checksums_verify [OF sample_conn_v4, of "[0x74, 0x65, 0x73, 0x74]" Darwin 8]
  by simp

text \<open>
  C11. Nothing is lost or swapped between the connection data and the wire: the reference parser
  accepts every packet built for IPv4 endpoints and reads back the four byte addresses, both ports,
  the sequence and acknowledgement numbers, the TTL byte, the flags PSH and ACK, and the payload.
\<close>

theorem parse_BuildPacket:
  assumes "v4_conn conn" and "length payload \<le> 65495"
  shows "parse_packet os (BuildPacket os conn payload ttl) = Some
    \<lparr>wire_conn = conn\<lparr>SrcIP := to4 (SrcIP conn), DstIP := to4 (DstIP conn)\<rparr>,
     wire_ttl = of_int ttl, wire_flags = 0x18, wire_payload = payload\<rparr>"
  using assms by (rule parse_packet_built)

theorem parse_BuildPacket_witness:
  "parse_packet Linux (BuildPacket Linux sample_conn [1, 2, 3] 8) =
     Some \<lparr>wire_conn = sample_conn, wire_ttl = 8, wire_flags = 0x18, wire_payload = [1, 2, 3]\<rparr>"
  using parse_BuildPacket [OF sample_conn_v4, of "[1, 2, 3]" Linux 8] by simp

lemma ethernet_frame_eq:
  assumes "length smac = 6" and "length dmac = 6"
  shows "ethernet_frame smac dmac p = dmac @ smac @ [0x08, 0x00] @ p"
proof -
  obtain d where d: "dmac = d" "\<exists>a b c e f g. d = [a, b, c, e, f, g]"
    using assms(2) by (auto simp: numeral_eq_Suc length_Suc_conv)
  obtain s where s: "smac = s" "\<exists>a b c e f g. s = [a, b, c, e, f, g]"
    using assms(1) by (auto simp: numeral_eq_Suc length_Suc_conv)
  show ?thesis
    using s(2) d(2) unfolding ethernet_frame_def Let_def s(1) d(1)
    by (elim exE) (simp add: blit_def numeral_eq_Suc)
qed

end
