(* ===== verification/ClientHello.thy ===== *)
theory ClientHello
  imports Bytes GoStrings
begin

text \<open>
  Package fake (pkg/fake/clienthello.go): the builder of the fake TLS ClientHello. A profile is the
  record of the Go struct; the byte slices are appended to in the order of the code, every 16 bit
  length field truncated as \<open>uint16(len)\<close> truncates. \<open>crypto/rand\<close> is a parameter: \<open>rnd k n\<close> is the
  outcome of the k-th read into an n byte buffer, \<open>None\<close> when it fails, in which case the code falls
  back to its xorshift generator. What is proved: the lengths written into the record and handshake
  headers are those of the message, the generator's state never becomes zero, the rotation over the
  profiles, and (in theory Sni) that the message parses back.
\<close>

subsection \<open>Constants and profiles\<close>

definition extServerName :: u16 where [simp]: "extServerName = 0x0000"
definition extSupportedGroups :: u16 where [simp]: "extSupportedGroups = 0x000a"
definition extECPointFormats :: u16 where [simp]: "extECPointFormats = 0x000b"
definition extSignatureAlgs :: u16 where [simp]: "extSignatureAlgs = 0x000d"
definition extALPN :: u16 where [simp]: "extALPN = 0x0010"
definition extSupportedVersions :: u16 where [simp]: "extSupportedVersions = 0x002b"
definition extPSKModes :: u16 where [simp]: "extPSKModes = 0x002d"
definition extKeyShare :: u16 where [simp]: "extKeyShare = 0x0033"

record ClientHelloProfile =
  ServerName :: string
  CipherSuites :: "u16 list"
  SupportedGroups :: "u16 list"
  SignatureAlgorithms :: "u16 list"
  SupportedVersions :: "u16 list"
  ALPN :: "string list"
  KeyShareGroup :: u16
  ExtensionOrder :: "u16 list"

definition clientHelloProfiles :: "ClientHelloProfile list" where
  "clientHelloProfiles =
    [\<lparr>ServerName = ''www.google.com'',
      CipherSuites = [0x1301, 0x1302, 0x1303, 0xc02b, 0xc02f, 0xcca9, 0xcca8,
        0xc02c, 0xc030, 0x009e, 0x009f],
      SupportedGroups = [0x001d, 0x0017, 0x0018],
      SignatureAlgorithms = [0x0403, 0x0804, 0x0401, 0x0503, 0x0805, 0x0501],
      SupportedVersions = [0x0304, 0x0303],
      ALPN = [''h2'', ''http/1.1''],
      KeyShareGroup = 0x001d,
      ExtensionOrder = [extServerName, extSupportedGroups, extECPointFormats, extSignatureAlgs,
        extALPN, extSupportedVersions, extPSKModes, extKeyShare]\<rparr>,
     \<lparr>ServerName = ''www.cloudflare.com'',
      CipherSuites = [0x1301, 0x1303, 0x1302, 0xcca8, 0xcca9, 0xc02f, 0xc02b,
        0xc030, 0xc02c, 0x009f, 0x009e],
      SupportedGroups = [0x001d, 0x0017],
      SignatureAlgorithms = [0x0804, 0x0403, 0x0805, 0x0503, 0x0401, 0x0501],
      SupportedVersions = [0x0304, 0x0303],
      ALPN = [''http/1.1'', ''h2''],
      KeyShareGroup = 0x001d,
      ExtensionOrder = [extServerName, extSupportedVersions, extSignatureAlgs, extSupportedGroups,
        extKeyShare, extALPN, extPSKModes, extECPointFormats]\<rparr>,
     \<lparr>ServerName = ''www.microsoft.com'',
      CipherSuites = [0x1301, 0x1302, 0x1303, 0xc02f, 0xc02b, 0xc030, 0xc02c, 0x009f, 0x009e],
      SupportedGroups = [0x001d, 0x0017, 0x0018, 0x0019],
      SignatureAlgorithms = [0x0403, 0x0503, 0x0804, 0x0805, 0x0401, 0x0501],
      SupportedVersions = [0x0304, 0x0303],
      ALPN = [''h2'', ''http/1.1''],
      KeyShareGroup = 0x001d,
      ExtensionOrder = [extServerName, extSupportedGroups, extSignatureAlgs, extSupportedVersions,
        extKeyShare, extPSKModes, extALPN, extECPointFormats]\<rparr>]"

subsection \<open>Random bytes\<close>

text \<open>One round of the xorshift generator, and the bytes it yields.\<close>

definition xorshift :: "u64 \<Rightarrow> u64" where
  "xorshift s =
     (let s = s XOR push_bit 13 s;
          s = s XOR drop_bit 7 s
      in s XOR push_bit 17 s)"

fun xorshift_bytes :: "nat \<Rightarrow> u64 \<Rightarrow> bytes" where
  "xorshift_bytes 0 s = []"
| "xorshift_bytes (Suc n) s = ucast (xorshift s) # xorshift_bytes n (xorshift s)"

definition fillBytes :: "nat \<Rightarrow> bool \<Rightarrow> (nat \<Rightarrow> bytes option) \<Rightarrow> u64 \<Rightarrow> bytes" where
  "fillBytes n useCryptoRandom rnd seed =
     (let det = xorshift_bytes n (if seed = 0 then 1 else seed)
      in if useCryptoRandom then (case rnd n of Some b \<Rightarrow> b | None \<Rightarrow> det) else det)"

text \<open>What \<open>rand.Read\<close> documents: on success it has filled the whole buffer.\<close>

definition rand_ok :: "(nat \<Rightarrow> nat \<Rightarrow> bytes option) \<Rightarrow> bool" where
  "rand_ok rnd \<longleftrightarrow> (\<forall>k n b. rnd k n = Some b \<longrightarrow> length b = n)"

subsection \<open>The encoders\<close>

definition appendUint16 :: "bytes \<Rightarrow> u16 \<Rightarrow> bytes" where
  "appendUint16 dst v = dst @ be16 v"

definition appendUint16List :: "bytes \<Rightarrow> u16 list \<Rightarrow> bytes" where
  "appendUint16List dst values =
     foldl appendUint16 (appendUint16 dst (of_nat (length values * 2))) values"

definition appendExtension :: "bytes \<Rightarrow> u16 \<Rightarrow> bytes \<Rightarrow> bytes" where
  "appendExtension dst extType data =
     appendUint16 (appendUint16 dst extType) (of_nat (length data)) @ data"

definition uint16Vector :: "u16 list \<Rightarrow> bytes" where
  "uint16Vector values = foldl appendUint16 (appendUint16 [] (of_nat (length values * 2))) values"

definition serverNameExtension :: "string \<Rightarrow> bytes" where
  "serverNameExtension serverName =
     (let name = bytes_of serverName;
          listLen = 1 + 2 + length name;
          out = appendUint16 [] (of_nat listLen);
          out = out @ [0x00];
          out = appendUint16 out (of_nat (length name))
      in out @ name)"

definition alpnExtension :: "string list \<Rightarrow> bytes" where
  "alpnExtension protocols =
     (let list = foldl (\<lambda>list proto. (list @ [byte_of_nat (length proto)]) @ bytes_of proto) [] protocols;
          out = appendUint16 [] (of_nat (length list))
      in out @ list)"

definition versionExtension :: "u16 list \<Rightarrow> bytes" where
  "versionExtension versions = foldl appendUint16 [byte_of_nat (length versions * 2)] versions"

definition keyShareExtension :: "u16 \<Rightarrow> bytes \<Rightarrow> bytes" where
  "keyShareExtension grp key =
     (let entryLen = 2 + 2 + length key;
          out = appendUint16 [] (of_nat entryLen);
          out = appendUint16 out grp;
          out = appendUint16 out (of_nat (length key))
      in out @ key)"

subsection \<open>buildClientHello\<close>

text \<open>
  One round of the loop over \<open>ExtensionOrder\<close>; an unknown type is skipped by the switch. The number
  of reads of \<open>crypto/rand\<close> so far goes along, since a key share reads again.
\<close>

definition add_extension ::
  "ClientHelloProfile \<Rightarrow> bool \<Rightarrow> (nat \<Rightarrow> nat \<Rightarrow> bytes option) \<Rightarrow> u64 \<Rightarrow> bytes \<times> nat \<Rightarrow> u16 \<Rightarrow> bytes \<times> nat"
where
  "add_extension profile useCryptoRandom rnd seed st extType =
     (let (exts, k) = st in
      if extType = extServerName
      then (appendExtension exts extType (serverNameExtension (ServerName profile)), k)
      else if extType = extSupportedGroups
      then (appendExtension exts extType (uint16Vector (SupportedGroups profile)), k)
      else if extType = extECPointFormats
      then (appendExtension exts extType [0x01, 0x00], k)
      else if extType = extSignatureAlgs
      then (appendExtension exts extType (uint16Vector (SignatureAlgorithms profile)), k)
      else if extType = extALPN
      then (if 0 < length (ALPN profile)
            then (appendExtension exts extType (alpnExtension (ALPN profile)), k) else (exts, k))
      else if extType = extSupportedVersions
      then (appendExtension exts extType (versionExtension (SupportedVersions profile)), k)
      else if extType = extPSKModes
      then (appendExtension exts extType [0x01, 0x01], k)
      else if extType = extKeyShare
      then (let keyShare = fillBytes 32 useCryptoRandom (rnd k) (seed XOR 0x165667b19e3779f9)
            in (appendExtension exts extType (keyShareExtension (KeyShareGroup profile) keyShare), k + 1))
      else (exts, k))"

definition clientHelloBody ::
  "ClientHelloProfile \<Rightarrow> bool \<Rightarrow> (nat \<Rightarrow> nat \<Rightarrow> bytes option) \<Rightarrow> u64 \<Rightarrow> bytes" where
  "clientHelloBody profile useCryptoRandom rnd seed =
     (let clientRandom = fillBytes 32 useCryptoRandom (rnd 0) (seed XOR 0x9e3779b97f4a7c15);
          sessionID = fillBytes 32 useCryptoRandom (rnd 1) (seed XOR 0xc2b2ae3d27d4eb4f);
          body = [0x03, 0x03];
          body = body @ clientRandom;
          body = body @ [byte_of_nat (length sessionID)];
          body = body @ sessionID;
          body = appendUint16List body (CipherSuites profile);
          body = body @ [0x01, 0x00];
          extensions = fst (foldl (add_extension profile useCryptoRandom rnd seed) ([], 2)
            (ExtensionOrder profile));
          body = appendUint16 body (of_nat (length extensions))
      in body @ extensions)"

definition buildClientHello ::
  "ClientHelloProfile \<Rightarrow> bool \<Rightarrow> (nat \<Rightarrow> nat \<Rightarrow> bytes option) \<Rightarrow> u64 \<Rightarrow> bytes" where
  "buildClientHello profile useCryptoRandom rnd seed =
     (let body = clientHelloBody profile useCryptoRandom rnd seed;
          handshake =
            [0x01, byte_of_nat (length body div 65536), byte_of_nat (length body div 256),
             byte_of_nat (length body)] @ body
      in [0x16, 0x03, 0x01, byte_of_nat (length handshake div 256), byte_of_nat (length handshake)]
         @ handshake)"

text \<open>
  \<open>TLSClientHello\<close> and \<open>RandomTLSClientHello\<close>. The atomic counter is the state; \<open>Add(1) - 1\<close> is its
  old value, \<open>int\<close> reads it as a signed number and \<open>%\<close> truncates towards zero, so a counter past
  2^63 would index the profiles out of range (\<open>None\<close>).
\<close>

definition TLSClientHello :: bytes where
  "TLSClientHello = buildClientHello (clientHelloProfiles ! 0) False (\<lambda>_ _. None) 1"

definition go_rem :: "int \<Rightarrow> int \<Rightarrow> int" where
  "go_rem a b = sgn a * (\<bar>a\<bar> mod \<bar>b\<bar>)"

definition RandomTLSClientHello :: "(nat \<Rightarrow> nat \<Rightarrow> bytes option) \<Rightarrow> u64 \<Rightarrow> bytes option \<times> u64" where
  "RandomTLSClientHello rnd counter =
     (let counter' = counter + 1;
          idx = go_rem (sint (counter' - 1)) (int (length clientHelloProfiles))
      in (if idx < 0 then None
          else do {
            profile \<leftarrow> go_index clientHelloProfiles (nat idx);
            Some (buildClientHello profile True rnd (of_int (idx + 1)))
          }, counter'))"

subsection \<open>Closed forms and lengths\<close>

lemma foldl_appendUint16: "foldl appendUint16 acc vs = acc @ concat (map be16 vs)"
  by (induction vs arbitrary: acc) (auto simp: appendUint16_def)

lemma appendUint16_eq [bytes_simps]: "appendUint16 dst v = dst @ be16 v"
  by (simp add: appendUint16_def)

lemma appendUint16List_eq [bytes_simps]:
  "appendUint16List dst vs = dst @ be16 (of_nat (length vs * 2)) @ concat (map be16 vs)"
  by (simp add: appendUint16List_def foldl_appendUint16 appendUint16_def)

definition enc_ext :: "u16 \<times> bytes \<Rightarrow> bytes" where
  "enc_ext e = be16 (fst e) @ be16 (of_nat (length (snd e))) @ snd e"

lemma appendExtension_eq [bytes_simps]: "appendExtension dst t d = dst @ enc_ext (t, d)"
  by (simp add: appendExtension_def appendUint16_def enc_ext_def)

lemma uint16Vector_eq [bytes_simps]:
  "uint16Vector vs = be16 (of_nat (length vs * 2)) @ concat (map be16 vs)"
  by (simp add: uint16Vector_def foldl_appendUint16 appendUint16_def)

lemma serverNameExtension_eq [bytes_simps]:
  "serverNameExtension s = be16 (of_nat (3 + length s)) @ [0] @ be16 (of_nat (length s)) @ bytes_of s"
  by (simp add: serverNameExtension_def appendUint16_def)

lemma length_be16_concat [simp]: "length (concat (map be16 vs)) = 2 * length vs"
  by (simp add: length_concat_const)

lemma length_xorshift_bytes [simp]: "length (xorshift_bytes n s) = n"
  by (induction n arbitrary: s) auto

lemma length_fillBytes [simp]: "rand_ok rnd \<Longrightarrow> length (fillBytes n c (rnd k) seed) = n"
  by (auto simp: fillBytes_def rand_ok_def Let_def split: option.split)

text \<open>
  The extension block as the concatenation of its encoded entries: what each type contributes, or
  \<open>None\<close> for a type the switch skips.
\<close>

definition ext_data ::
  "ClientHelloProfile \<Rightarrow> bool \<Rightarrow> (nat \<Rightarrow> nat \<Rightarrow> bytes option) \<Rightarrow> u64 \<Rightarrow> nat \<Rightarrow> u16 \<Rightarrow> bytes option"
where
  "ext_data profile c rnd seed k t =
     (if t = extServerName then Some (serverNameExtension (ServerName profile))
      else if t = extSupportedGroups then Some (uint16Vector (SupportedGroups profile))
      else if t = extECPointFormats then Some [1, 0]
      else if t = extSignatureAlgs then Some (uint16Vector (SignatureAlgorithms profile))
      else if t = extALPN then (if ALPN profile = [] then None else Some (alpnExtension (ALPN profile)))
      else if t = extSupportedVersions then Some (versionExtension (SupportedVersions profile))
      else if t = extPSKModes then Some [1, 1]
      else if t = extKeyShare
      then Some (keyShareExtension (KeyShareGroup profile) (fillBytes 32 c (rnd k) (seed XOR 0x165667b19e3779f9)))
      else None)"

fun ext_entries ::
  "ClientHelloProfile \<Rightarrow> bool \<Rightarrow> (nat \<Rightarrow> nat \<Rightarrow> bytes option) \<Rightarrow> u64 \<Rightarrow> nat \<Rightarrow> u16 list \<Rightarrow> (u16 \<times> bytes) list"
where
  "ext_entries profile c rnd seed k [] = []"
| "ext_entries profile c rnd seed k (t # ts) =
     (case ext_data profile c rnd seed k t of None \<Rightarrow> [] | Some d \<Rightarrow> [(t, d)]) @
     ext_entries profile c rnd seed (if t = extKeyShare then k + 1 else k) ts"

lemma add_extension_eq:
  "add_extension profile c rnd seed (exts, k) t =
     (exts @ (case ext_data profile c rnd seed k t of None \<Rightarrow> [] | Some d \<Rightarrow> enc_ext (t, d)),
      if t = extKeyShare then k + 1 else k)"
  by (simp add: add_extension_def ext_data_def appendExtension_eq)

lemma foldl_add_extension:
  "fst (foldl (add_extension profile c rnd seed) (acc, k) ts) =
     acc @ concat (map enc_ext (ext_entries profile c rnd seed k ts))"
  by (induction ts arbitrary: acc k) (simp_all add: add_extension_eq split: option.split)

lemma ext_entries_server_name:
  "extServerName \<in> set ts \<Longrightarrow>
   \<exists>pre post. ext_entries profile c rnd seed k ts =
     pre @ (extServerName, serverNameExtension (ServerName profile)) # post \<and>
     (\<forall>e \<in> set pre. fst e \<noteq> extServerName)"
proof (induction ts arbitrary: k)
  case (Cons t ts)
  show ?case
  proof (cases "t = extServerName")
    case True
    then show ?thesis
      by (intro exI [of _ "[]"] exI [of _ "ext_entries profile c rnd seed k ts"]) (simp add: ext_data_def)
  next
    case False
    with Cons.prems have "extServerName \<in> set ts" by simp
    from Cons.IH [OF this] obtain pre post where
      IH: "ext_entries profile c rnd seed (if t = extKeyShare then k + 1 else k) ts =
          pre @ (extServerName, serverNameExtension (ServerName profile)) # post"
        "\<forall>e \<in> set pre. fst e \<noteq> extServerName"
      by blast
    with False show ?thesis
      by (intro exI [of _ "(case ext_data profile c rnd seed k t of None \<Rightarrow> [] | Some d \<Rightarrow> [(t, d)]) @ pre"]
          exI [of _ post]) (auto split: option.split)
  qed
qed simp

abbreviation hello_extensions ::
  "ClientHelloProfile \<Rightarrow> bool \<Rightarrow> (nat \<Rightarrow> nat \<Rightarrow> bytes option) \<Rightarrow> u64 \<Rightarrow> bytes" where
  "hello_extensions profile c rnd seed \<equiv>
     concat (map enc_ext (ext_entries profile c rnd seed 2 (ExtensionOrder profile)))"

lemma clientHelloBody_eq:
  "rand_ok rnd \<Longrightarrow>
   \<exists>random session. length random = 32 \<and> length session = 32 \<and>
     clientHelloBody profile c rnd seed =
       [0x03, 0x03] @ random @ [32] @ session @
       be16 (of_nat (length (CipherSuites profile) * 2)) @ concat (map be16 (CipherSuites profile)) @
       [0x01, 0x00] @ be16 (of_nat (length (hello_extensions profile c rnd seed))) @
       hello_extensions profile c rnd seed"
  by (intro exI [of _ "fillBytes 32 c (rnd 0) (seed XOR 0x9e3779b97f4a7c15)"]
      exI [of _ "fillBytes 32 c (rnd 1) (seed XOR 0xc2b2ae3d27d4eb4f)"])
    (simp add: clientHelloBody_def Let_def foldl_add_extension bytes_simps byte_of_nat_def)

lemma length_buildClientHello [simp]:
  "length (buildClientHello profile c rnd seed) = 9 + length (clientHelloBody profile c rnd seed)"
  by (simp add: buildClientHello_def Let_def)

lemma clientHelloBody_bounds:
  assumes "rand_ok rnd" and "length (clientHelloBody profile c rnd seed) < n"
  shows "length (CipherSuites profile) * 2 < n"
    and "length (hello_extensions profile c rnd seed) < n"
  using clientHelloBody_eq [OF assms(1), of profile c seed] assms(2) by auto

lemma ext_entries_bound:
  "(t, d) \<in> set es \<Longrightarrow> length d < length (concat (map enc_ext es))"
  by (induction es) (auto simp: enc_ext_def)

subsection \<open>The generator and the rotation\<close>

lemma push_bit_fixed: "0 < k \<Longrightarrow> x = push_bit k (x :: u64) \<Longrightarrow> x = 0"
proof -
  assume k: "0 < k" and x: "x = push_bit k x"
  have "\<not> bit x n" for n
  proof (induction n rule: less_induct)
    case (less n)
    then show ?case
      using k by (subst x) (auto simp: bit_push_bit_iff)
  qed
  then show "x = 0" by (simp add: bit_eq_iff)
qed

lemma drop_bit_fixed: "0 < k \<Longrightarrow> x = drop_bit k (x :: u64) \<Longrightarrow> x = 0"
proof -
  assume k: "0 < k" and x: "x = drop_bit k x"
  have "bit x n \<longleftrightarrow> bit x (n + k * m)" for n m
  proof (induction m arbitrary: n)
    case (Suc m)
    have "bit x n \<longleftrightarrow> bit x (k + n)"
      by (subst x) (simp add: bit_drop_bit_eq)
    also have "\<dots> \<longleftrightarrow> bit x (k + n + k * m)"
      by (rule Suc.IH)
    finally show ?case by (simp add: algebra_simps)
  qed simp
  from this [of _ 64] have "bit x n \<longleftrightarrow> bit x (n + k * 64)" for n
    by simp
  moreover have "\<not> bit x (n + k * 64)" for n
    using k bit_imp_le_length [of x "n + k * 64"] by auto
  ultimately have "\<not> bit x n" for n by blast
  then show "x = 0" by (simp add: bit_eq_iff)
qed

lemma xor_zero_iff: "x XOR y = 0 \<longleftrightarrow> x = (y :: u64)"
  by (auto simp: bit_eq_iff bit_xor_iff)

lemma xor_push_nonzero: "0 < k \<Longrightarrow> s \<noteq> 0 \<Longrightarrow> s XOR push_bit k s \<noteq> (0 :: u64)"
  using push_bit_fixed by (auto simp only: xor_zero_iff)

lemma xor_drop_nonzero: "0 < k \<Longrightarrow> s \<noteq> 0 \<Longrightarrow> s XOR drop_bit k s \<noteq> (0 :: u64)"
  using drop_bit_fixed by (auto simp only: xor_zero_iff)

lemma xorshift_nonzero: "s \<noteq> 0 \<Longrightarrow> xorshift s \<noteq> 0"
  unfolding xorshift_def Let_def
  by (intro xor_push_nonzero xor_drop_nonzero) simp_all

lemma signed_take_bit_nat: "n < 2 ^ 63 \<Longrightarrow> signed_take_bit 63 (int n) = int n"
  by (rule signed_take_bit_int_eq_self) simp_all

lemma sint_small: "unat (counter :: u64) < 2 ^ 63 \<Longrightarrow> sint counter = int (unat counter)"
  using signed_take_bit_nat [of "unat counter"] by (simp add: sint_uint)

lemma go_rem_nat: "go_rem (int n) (int m) = int (n mod m)"
  by (auto simp: go_rem_def sgn_if of_nat_mod)

lemma profile_index:
  assumes "unat (counter :: u64) < 2 ^ 63"
  shows "go_rem (sint counter) (int (length clientHelloProfiles)) = int (unat counter mod 3)"
proof -
  have "length clientHelloProfiles = 3"
    by (simp add: clientHelloProfiles_def)
  then show ?thesis
    using assms by (simp only: sint_small go_rem_nat)
qed

lemma RandomTLSClientHello_eq:
  assumes "unat counter < 2 ^ 63"
  shows "RandomTLSClientHello rnd counter =
    (Some (buildClientHello (clientHelloProfiles ! (unat counter mod 3)) True rnd
       (of_nat (unat counter mod 3 + 1))), counter + 1)"
proof -
  have "unat counter mod 3 < length clientHelloProfiles"
    by (simp add: clientHelloProfiles_def)
  then show ?thesis
    unfolding RandomTLSClientHello_def Let_def
    by (simp add: profile_index [OF assms] go_index_def add.commute)
qed

end
