(* ===== verification/Sni.thy ===== *)
theory Sni
  imports ClientHello
begin

text \<open>
  Package fake (pkg/fake/sni.go): \<open>ParseSNI\<close>, which reads the server name out of untrusted bytes.
  Every index and slice expression of the code is a \<open>go_index\<close>, \<open>go_slice\<close> or \<open>go_from\<close>, so a
  result \<open>None\<close> is a panic and \<open>Some s\<close> the returned string. What is proved: the parser never panics
  on any input, a name it returns is a contiguous part of the input, and it inverts the builder of
  theory ClientHello.
\<close>

subsection \<open>The parser\<close>

text \<open>The loop over the entries of the server name list.\<close>

function sni_entries :: "bytes \<Rightarrow> string option" where
  "sni_entries entries =
     (if length entries < 3 then Some []
      else do {
        nameType \<leftarrow> go_index entries 0;
        e1 \<leftarrow> go_index entries 1;
        e2 \<leftarrow> go_index entries 2;
        let nameLen = hi_lo e1 e2;
        if 3 + nameLen > length entries then Some []
        else if nameType = 0 then do {
          name \<leftarrow> go_slice entries 3 (3 + nameLen);
          Some (text_of name)
        }
        else do {
          rest \<leftarrow> go_from entries (3 + nameLen);
          sni_entries rest
        }
      })"
  by pat_completeness auto
termination
  by (relation "measure length") (auto simp: go_from_def go_slice_def split: if_splits)

definition parseSNIExtension :: "bytes \<Rightarrow> string option" where
  "parseSNIExtension data =
     (if length data < 2 then Some []
      else do {
        d0 \<leftarrow> go_index data 0;
        d1 \<leftarrow> go_index data 1;
        let listLen = hi_lo d0 d1;
        if 2 + listLen > length data then Some []
        else do {
          entries \<leftarrow> go_slice data 2 (2 + listLen);
          sni_entries entries
        }
      })"

text \<open>The loop over the extensions.\<close>

function sni_exts :: "bytes \<Rightarrow> string option" where
  "sni_exts exts =
     (if length exts < 4 then Some []
      else do {
        x0 \<leftarrow> go_index exts 0;
        x1 \<leftarrow> go_index exts 1;
        x2 \<leftarrow> go_index exts 2;
        x3 \<leftarrow> go_index exts 3;
        let extType = hi_lo x0 x1;
        let extDataLen = hi_lo x2 x3;
        if 4 + extDataLen > length exts then Some []
        else if extType = 0 then do {
          data \<leftarrow> go_slice exts 4 (4 + extDataLen);
          parseSNIExtension data
        }
        else do {
          rest \<leftarrow> go_from exts (4 + extDataLen);
          sni_exts rest
        }
      })"
  by pat_completeness auto
termination
  by (relation "measure length") (auto simp: go_from_def go_slice_def split: if_splits)

declare sni_entries.simps [simp del] sni_exts.simps [simp del]

text \<open>The ClientHello body: skip version, random, session id, cipher suites and compression.\<close>

definition sni_body :: "bytes \<Rightarrow> string option" where
  "sni_body body =
     (if length body < 34 then Some []
      else let pos = 34 in
      if pos \<ge> length body then Some []
      else do {
        n \<leftarrow> go_index body pos;
        let pos = pos + (1 + unat n);
        if pos + 2 > length body then Some []
        else do {
          c0 \<leftarrow> go_index body pos;
          c1 \<leftarrow> go_index body (pos + 1);
          let csLen = hi_lo c0 c1;
          let pos = pos + (2 + csLen);
          if pos \<ge> length body then Some []
          else do {
            m \<leftarrow> go_index body pos;
            let pos = pos + (1 + unat m);
            if pos + 2 > length body then Some []
            else do {
              x0 \<leftarrow> go_index body pos;
              x1 \<leftarrow> go_index body (pos + 1);
              let extLen = hi_lo x0 x1;
              let pos = pos + 2;
              if pos + extLen > length body then Some []
              else do {
                exts \<leftarrow> go_slice body pos (pos + extLen);
                sni_exts exts
              }
            }
          }
        }
      })"

definition sni_handshake :: "bytes \<Rightarrow> string option" where
  "sni_handshake hs =
     (if length hs < 4 then Some []
      else do {
        h0 \<leftarrow> go_index hs 0;
        if h0 \<noteq> 0x01 then Some []
        else do {
          h1 \<leftarrow> go_index hs 1;
          h2 \<leftarrow> go_index hs 2;
          h3 \<leftarrow> go_index hs 3;
          let hsLen = hi_mid_lo h1 h2 h3;
          if length hs < 4 + hsLen then Some []
          else do {
            body \<leftarrow> go_slice hs 4 (4 + hsLen);
            sni_body body
          }
        }
      })"

definition ParseSNI :: "bytes \<Rightarrow> string option" where
  "ParseSNI data =
     (if length data < 5 then Some []
      else do {
        d0 \<leftarrow> go_index data 0;
        if d0 \<noteq> 0x16 then Some []
        else do {
          d3 \<leftarrow> go_index data 3;
          d4 \<leftarrow> go_index data 4;
          let recordLen = hi_lo d3 d4;
          if length data < 5 + recordLen then Some []
          else do {
            hs \<leftarrow> go_slice data 5 (5 + recordLen);
            sni_handshake hs
          }
        }
      })"

subsection \<open>No panic, and the name comes from the input\<close>

text \<open>The same functions with every access resolved: no index is ever out of range.\<close>

lemma sni_entries_eq:
  "sni_entries e =
     (if length e < 3 then Some []
      else if 3 + hi_lo (e ! 1) (e ! 2) > length e then Some []
      else if e ! 0 = 0 then Some (text_of (take (hi_lo (e ! 1) (e ! 2)) (drop 3 e)))
      else sni_entries (drop (3 + hi_lo (e ! 1) (e ! 2)) e))"
  proof (cases "length e < 3")
  case False
  then have "go_index e 0 = Some (e ! 0)" "go_index e 1 = Some (e ! 1)" "go_index e 2 = Some (e ! 2)"
    by (auto intro: go_index_upto [of 3])
  with False show ?thesis
    by (subst sni_entries.simps) (simp add: Let_def)
qed (subst sni_entries.simps, simp)

lemma parseSNIExtension_eq:
  "parseSNIExtension d =
     (if length d < 2 then Some []
      else if 2 + hi_lo (d ! 0) (d ! 1) > length d then Some []
      else sni_entries (take (hi_lo (d ! 0) (d ! 1)) (drop 2 d)))"
  proof (cases "length d < 2")
  case False
  then have "go_index d 0 = Some (d ! 0)" "go_index d 1 = Some (d ! 1)"
    by (auto intro: go_index_upto [of 2])
  with False show ?thesis
    by (simp add: parseSNIExtension_def Let_def)
qed (simp add: parseSNIExtension_def)

lemma sni_exts_eq:
  "sni_exts e =
     (if length e < 4 then Some []
      else if 4 + hi_lo (e ! 2) (e ! 3) > length e then Some []
      else if hi_lo (e ! 0) (e ! 1) = 0
      then parseSNIExtension (take (hi_lo (e ! 2) (e ! 3)) (drop 4 e))
      else sni_exts (drop (4 + hi_lo (e ! 2) (e ! 3)) e))"
  proof (cases "length e < 4")
  case False
  then have "go_index e 0 = Some (e ! 0)" "go_index e 1 = Some (e ! 1)" "go_index e 2 = Some (e ! 2)" "go_index e 3 = Some (e ! 3)"
    by (auto intro: go_index_upto [of 4])
  with False show ?thesis
    by (subst sni_exts.simps) (simp add: Let_def)
qed (subst sni_exts.simps, simp)

definition body_exts :: "bytes \<Rightarrow> bytes" where
  "body_exts b =
     (let p1 = 35 + unat (b ! 34);
          p2 = p1 + 2 + hi_lo (b ! p1) (b ! (p1 + 1));
          p3 = p2 + 1 + unat (b ! p2)
      in take (hi_lo (b ! p3) (b ! (p3 + 1))) (drop (p3 + 2) b))"

lemma sni_body_cases: "sni_body b = Some [] \<or> sni_body b = sni_exts (body_exts b)"
  by (simp add: sni_body_def body_exts_def Let_def)

lemma sni_handshake_cases:
  "sni_handshake hs = Some [] \<or>
   sni_handshake hs = sni_body (take (hi_mid_lo (hs ! 1) (hs ! 2) (hs ! 3)) (drop 4 hs))"
  proof (cases "length hs < 4")
  case False
  then have "go_index hs 0 = Some (hs ! 0)" "go_index hs 1 = Some (hs ! 1)" "go_index hs 2 = Some (hs ! 2)" "go_index hs 3 = Some (hs ! 3)"
    by (auto intro: go_index_upto [of 4])
  with False show ?thesis
    by (simp add: sni_handshake_def Let_def)
qed (simp add: sni_handshake_def)

lemma ParseSNI_cases:
  "ParseSNI d = Some [] \<or> ParseSNI d = sni_handshake (take (hi_lo (d ! 3) (d ! 4)) (drop 5 d))"
  proof (cases "length d < 5")
  case False
  then have "go_index d 0 = Some (d ! 0)" "go_index d 3 = Some (d ! 3)" "go_index d 4 = Some (d ! 4)"
    by (auto intro: go_index_upto [of 5])
  with False show ?thesis
    by (simp add: ParseSNI_def Let_def)
qed (simp add: ParseSNI_def)

text \<open>
  A result of the parser on \<open>bs\<close>: a string, which is empty or spells bytes of \<open>bs\<close>. Every layer
  satisfies it, since every slice it passes on is a part of its own input.
\<close>

definition name_within :: "bytes \<Rightarrow> string option \<Rightarrow> bool" where
  "name_within bs r \<longleftrightarrow> (\<exists>s. r = Some s \<and> (s = [] \<or> (\<exists>n. sublist n bs \<and> s = text_of n)))"

lemma name_within_Nil [simp]: "name_within bs (Some [])"
  by (simp add: name_within_def)

lemma name_within_text: "sublist n bs \<Longrightarrow> name_within bs (Some (text_of n))"
  unfolding name_within_def by blast

lemma name_within_sub: "name_within cs r \<Longrightarrow> sublist cs bs \<Longrightarrow> name_within bs r"
proof -
  assume r: "name_within cs r" and sub: "sublist cs bs"
  have "sublist n bs" if "sublist n cs" for n
    using sublist_order.order_trans [OF that sub] .
  with r show "name_within bs r"
    unfolding name_within_def by blast
qed

lemma sublist_take_drop: "sublist (take n (drop i xs)) xs"
  by (meson sublist_drop sublist_order.order_trans sublist_take)

lemma sni_entries_within: "name_within bs (sni_entries bs)"
proof (induction bs rule: length_induct)
  case (1 e)
  let ?n = "hi_lo (e ! 1) (e ! 2)"
  have "name_within e (sni_entries (drop (3 + ?n) e))" if "3 \<le> length e"
    by (rule name_within_sub [of "drop (3 + ?n) e", OF _ sublist_drop]) (use 1 that in simp)
  then show ?case
    by (subst sni_entries_eq) (simp add: name_within_text sublist_take_drop)
qed

lemma parseSNIExtension_within: "name_within d (parseSNIExtension d)"
  using name_within_sub [OF sni_entries_within sublist_take_drop]
  by (simp add: parseSNIExtension_eq)

lemma sni_exts_within: "name_within bs (sni_exts bs)"
proof (induction bs rule: length_induct)
  case (1 e)
  let ?n = "hi_lo (e ! 2) (e ! 3)"
  have "name_within e (sni_exts (drop (4 + ?n) e))" if "4 \<le> length e"
    by (rule name_within_sub [of "drop (4 + ?n) e", OF _ sublist_drop]) (use 1 that in simp)
  moreover have "name_within e (parseSNIExtension (take ?n (drop 4 e)))"
    by (rule name_within_sub [OF parseSNIExtension_within sublist_take_drop])
  ultimately show ?case
    by (subst sni_exts_eq) simp
qed

lemma sni_body_within: "name_within b (sni_body b)"
proof -
  have "sublist (body_exts b) b"
    by (simp add: body_exts_def Let_def sublist_take_drop)
  then show ?thesis
    using sni_body_cases [of b] name_within_sub [OF sni_exts_within] by auto
qed

lemma sni_handshake_within: "name_within hs (sni_handshake hs)"
  using sni_handshake_cases [of hs] name_within_sub [OF sni_body_within sublist_take_drop] by auto

subsection \<open>Inverting the builder\<close>

lemma sni_entries_host:
  assumes "length n < 65536"
  shows "sni_entries ([0] @ be16 (of_nat (length n)) @ bytes_of n) = Some n"
  using assms by (subst sni_entries_eq) (simp add: be16_of_nat)

lemma parseSNIExtension_built:
  assumes "3 + length n < 65536"
  shows "parseSNIExtension (serverNameExtension n) = Some n"
  using assms sni_entries_host [of n]
  by (simp add: parseSNIExtension_eq serverNameExtension_eq be16_of_nat del: of_nat_add)

lemma enc_ext_header:
  assumes "length (snd x) < 65536"
  shows "length (enc_ext x @ rest) = 4 + length (snd x) + length rest"
    and "hi_lo ((enc_ext x @ rest) ! 0) ((enc_ext x @ rest) ! 1) = unat (fst x)"
    and "hi_lo ((enc_ext x @ rest) ! 2) ((enc_ext x @ rest) ! 3) = length (snd x)"
    and "drop 4 (enc_ext x @ rest) = snd x @ rest"
  using assms by (simp_all add: enc_ext_def be16_of_nat) (simp_all add: be16_def)

lemma sni_exts_skip:
  assumes "length (snd x) < 65536" and "fst x \<noteq> 0"
  shows "sni_exts (enc_ext x @ rest) = sni_exts rest"
  using enc_ext_header [OF assms(1), of rest] assms(2)
  by (subst sni_exts_eq) (simp add: drop_drop [symmetric] unat_eq_zero add.commute del: drop_drop)

lemma sni_exts_found:
  assumes "length d < 65536"
  shows "sni_exts (enc_ext (0, d) @ rest) = parseSNIExtension d"
  using enc_ext_header [of "(0, d)" rest] assms
  by (subst sni_exts_eq) simp

lemma sni_exts_entries:
  assumes "\<forall>e \<in> set pre. length (snd e) < 65536 \<and> fst e \<noteq> 0" and "length d < 65536"
  shows "sni_exts (concat (map enc_ext (pre @ (0, d) # post))) = parseSNIExtension d"
  using assms by (induction pre) (auto simp: sni_exts_found sni_exts_skip)


text \<open>The body: 2 version bytes, 32 random bytes, then the four length-prefixed parts.\<close>

lemma nth_append_len: "(xs @ y # ys) ! length xs = y"
  by simp

lemma sni_body_at:
  assumes "length b = 73 + n + e" and "n < 65536" and "e < 65536" and "unat (b ! 34) = 32"
    and "b ! 67 = byte_of_nat (n div 256)" and "b ! 68 = byte_of_nat n" and "unat (b ! (69 + n)) = 1"
    and "b ! (71 + n) = byte_of_nat (e div 256)" and "b ! (72 + n) = byte_of_nat e"
  shows "sni_body b = sni_exts (drop (73 + n) b)"
  using assms by (simp add: sni_body_def Let_def go_index_def add.commute)

lemma sni_body_built:
  assumes "length random = 32" and "length session = 32"
    and "length suites < 65536" and "length exts < 65536"
  shows "sni_body ([v0, v1] @ random @ [32] @ session @ be16 (of_nat (length suites)) @ suites @
    [1, 0] @ be16 (of_nat (length exts)) @ exts) = sni_exts exts"
proof -
  let ?b = "[v0, v1] @ random @ [32] @ session @ be16 (of_nat (length suites)) @ suites @
    [1, 0] @ be16 (of_nat (length exts)) @ exts"
  let ?n = "length suites" and ?e = "length exts"
  have len: "length ?b = 73 + ?n + ?e"
    using assms by simp
  have a: "?b ! 34 = 32"
    using nth_append_len [of "[v0, v1] @ random" 32] assms(1) by simp
  have c: "?b ! 67 = byte_of_nat (?n div 256)" "?b ! 68 = byte_of_nat ?n"
    using nth_append_len [of "[v0, v1] @ random @ [32] @ session" "byte_of_nat (?n div 256)"]
      nth_append_len [of "[v0, v1] @ random @ [32] @ session @ [byte_of_nat (?n div 256)]" "byte_of_nat ?n"]
      assms(1,2) by (simp_all add: be16_of_nat)
  have m: "?b ! (69 + ?n) = 1"
    using nth_append_len [of "[v0, v1] @ random @ [32] @ session @ be16 (of_nat ?n) @ suites" 1]
      assms(1,2) by simp
  have x: "?b ! (71 + ?n) = byte_of_nat (?e div 256)" "?b ! (72 + ?n) = byte_of_nat ?e"
    using nth_append_len [of "[v0, v1] @ random @ [32] @ session @ be16 (of_nat ?n) @ suites @ [1, 0]"
        "byte_of_nat (?e div 256)"]
      nth_append_len [of "[v0, v1] @ random @ [32] @ session @ be16 (of_nat ?n) @ suites @ [1, 0] @
        [byte_of_nat (?e div 256)]" "byte_of_nat ?e"]
      assms(1,2) by (simp_all add: be16_of_nat)
  have d: "drop (73 + ?n) ?b = exts"
  proof -
    have "drop (length p) (p @ exts) = exts" for p by simp
    from this [of "[v0, v1] @ random @ [32] @ session @ be16 (of_nat ?n) @ suites @ [1, 0] @ be16 (of_nat ?e)"]
    show ?thesis using assms(1,2) by (simp add: add.commute)
  qed
  have "sni_body ?b = sni_exts (drop (73 + ?n) ?b)"
    by (rule sni_body_at [OF len assms(3,4) _ c _ x]) (simp_all only: a m, simp_all)
  then show ?thesis
    by (simp only: d)
qed

lemma sni_handshake_at:
  assumes "length b < 65532"
  shows "sni_handshake (0x01 # byte_of_nat (length b div 65536) # byte_of_nat (length b div 256) #
    byte_of_nat (length b) # b) = sni_body b"
proof -
  have "hi_mid_lo (byte_of_nat (length b div 65536)) (byte_of_nat (length b div 256))
      (byte_of_nat (length b)) = length b"
    using assms by (intro hi_mid_lo_bytes) linarith
  then show ?thesis
    by (simp add: sni_handshake_def Let_def del: div_less)
qed

lemma ParseSNI_at:
  assumes "length hs < 65536"
  shows "ParseSNI (0x16 # v0 # v1 # byte_of_nat (length hs div 256) # byte_of_nat (length hs) # hs @ rest) =
    sni_handshake hs"
  using assms by (simp add: ParseSNI_def Let_def)

text \<open>A message of less than 64 KiB carries the right lengths in all its headers.\<close>

definition hello_fits ::
  "ClientHelloProfile \<Rightarrow> bool \<Rightarrow> (nat \<Rightarrow> nat \<Rightarrow> bytes option) \<Rightarrow> u64 \<Rightarrow> bool" where
  "hello_fits profile c rnd seed \<longleftrightarrow> length (clientHelloBody profile c rnd seed) < 65532"

lemma sni_body_hello:
  assumes "rand_ok rnd" and "extServerName \<in> set (ExtensionOrder profile)" and "hello_fits profile c rnd seed"
  shows "sni_body (clientHelloBody profile c rnd seed) = Some (ServerName profile)"
proof -
  let ?es = "ext_entries profile c rnd seed 2 (ExtensionOrder profile)"
  let ?suites = "concat (map be16 (CipherSuites profile))"
  obtain random session where lens: "length random = 32" "length session = 32" and
    body: "clientHelloBody profile c rnd seed = [0x03, 0x03] @ random @ [32] @ session @
      be16 (of_nat (length ?suites)) @ ?suites @ [0x01, 0x00] @
      be16 (of_nat (length (concat (map enc_ext ?es)))) @ concat (map enc_ext ?es)"
    using clientHelloBody_eq [OF assms(1), of profile c seed] by (auto simp: mult.commute)
  have small: "length ?suites < 65536" "length (concat (map enc_ext ?es)) < 65536"
    using clientHelloBody_bounds [OF assms(1), of profile c seed 65536] assms(3)
    by (simp_all add: hello_fits_def)
  obtain pre post where es: "?es = pre @ (extServerName, serverNameExtension (ServerName profile)) # post"
    and pre: "\<forall>e \<in> set pre. fst e \<noteq> extServerName"
    using ext_entries_server_name [OF assms(2)] by metis
  have ext_small: "length d < 65536" if "(t, d) \<in> set ?es" for t d
    using ext_entries_bound [OF that] small(2) by linarith
  have name: "length (serverNameExtension (ServerName profile)) < 65536"
    by (rule ext_small) (use es in auto)
  have "\<forall>e \<in> set pre. length (snd e) < 65536 \<and> fst e \<noteq> 0"
    using pre ext_small es by (metis Un_iff extServerName_def prod.collapse set_append)
  then have "sni_exts (concat (map enc_ext ?es)) = parseSNIExtension (serverNameExtension (ServerName profile))"
    unfolding es extServerName_def by (rule sni_exts_entries [OF _ name])
  moreover have built: "parseSNIExtension (serverNameExtension (ServerName profile)) = Some (ServerName profile)"
    using name by (intro parseSNIExtension_built) (simp add: serverNameExtension_eq)
  ultimately show ?thesis
    unfolding body sni_body_built [OF lens small] by (simp only: built)
qed

lemma ParseSNI_hello:
  assumes "rand_ok rnd" and "extServerName \<in> set (ExtensionOrder profile)" and "hello_fits profile c rnd seed"
  shows "ParseSNI (buildClientHello profile c rnd seed @ rest) = Some (ServerName profile)"
proof -
  let ?b = "clientHelloBody profile c rnd seed"
  let ?hs = "0x01 # byte_of_nat (length ?b div 65536) # byte_of_nat (length ?b div 256) #
    byte_of_nat (length ?b) # ?b"
  have b: "length ?b < 65532" and hs: "length ?hs < 65536"
    using assms(3) by (simp_all add: hello_fits_def)
  have "buildClientHello profile c rnd seed @ rest =
      0x16 # 0x03 # 0x01 # byte_of_nat (length ?hs div 256) # byte_of_nat (length ?hs) # ?hs @ rest"
    by (simp add: buildClientHello_def Let_def)
  then have "ParseSNI (buildClientHello profile c rnd seed @ rest) = sni_handshake ?hs"
    by (simp only: ParseSNI_at [OF hs])
  with assms show ?thesis
    by (simp only: sni_handshake_at [OF b] sni_body_hello)
qed

subsection \<open>The built-in profiles\<close>

lemma length_keyShareExtension [simp]: "length (keyShareExtension g key) = 6 + length key"
  by (simp add: keyShareExtension_def appendUint16_def)

lemma length_uint16Vector [simp]: "length (uint16Vector vs) = 2 + 2 * length vs"
  by (simp add: uint16Vector_eq)

lemma length_serverNameExtension [simp]: "length (serverNameExtension n) = 5 + length n"
  by (simp add: serverNameExtension_eq)

lemma length_enc_ext [simp]: "length (enc_ext e) = 4 + length (snd e)"
  by (simp add: enc_ext_def)

lemma length_foldl_appendUint16 [simp]: "length (foldl appendUint16 acc vs) = length acc + 2 * length vs"
  by (simp add: foldl_appendUint16)

lemma length_clientHelloBody:
  "rand_ok rnd \<Longrightarrow> length (clientHelloBody profile c rnd seed) =
     73 + 2 * length (CipherSuites profile) + length (hello_extensions profile c rnd seed)"
  using clientHelloBody_eq [of rnd profile c seed] by auto

lemma builtin_extensions_length:
  assumes "rand_ok rnd" and "profile \<in> set clientHelloProfiles"
  shows "length (hello_extensions profile c rnd seed) < 512 \<and> length (CipherSuites profile) < 32"
  using assms(2)
  by (auto simp: clientHelloProfiles_def ext_data_def assms(1) versionExtension_def alpnExtension_def
      appendUint16_def)

lemma builtin_fits:
  assumes "rand_ok rnd" and "profile \<in> set clientHelloProfiles"
  shows "hello_fits profile c rnd seed"
  using builtin_extensions_length [OF assms, of c seed]
  by (simp add: hello_fits_def length_clientHelloBody assms(1))

lemma builtin_server_name:
  "profile \<in> set clientHelloProfiles \<Longrightarrow> extServerName \<in> set (ExtensionOrder profile)"
  by (auto simp: clientHelloProfiles_def)

lemma ParseSNI_total: "\<exists>s. ParseSNI data = Some s"
  using ParseSNI_cases [of data] name_within_sub [OF sni_handshake_within sublist_take_drop, of data]
  unfolding name_within_def by metis

subsection \<open>Properties\<close>

text \<open>
  C15. \<open>ParseSNI\<close> is safe on untrusted input: for every byte string it returns (no index or slice
  expression is out of range, no loop runs forever), and the name it returns is empty or a
  contiguous part of the input.
\<close>

theorem ParseSNI_safe:
  "\<exists>s. ParseSNI data = Some s \<and> (s = [] \<or> (\<exists>n. sublist n data \<and> s = text_of n))"
  using ParseSNI_cases [of data] name_within_sub [OF sni_handshake_within sublist_take_drop, of data]
  unfolding name_within_def by metis

text \<open>
  C16. Round trip of builder and parser: whatever \<open>crypto/rand\<close> returns (or when it fails), the
  ClientHello built for a profile that lists the server name extension parses back to the profile's
  server name, also when more data follows it in the segment, as long as the message fits the
  16 bit record length.
\<close>

theorem ParseSNI_buildClientHello:
  assumes "rand_ok rnd" and "extServerName \<in> set (ExtensionOrder profile)"
    and "hello_fits profile useCryptoRandom rnd seed"
  shows "ParseSNI (buildClientHello profile useCryptoRandom rnd seed @ rest) = Some (ServerName profile)"
  using assms by (rule ParseSNI_hello)

lemma rand_ok_None: "rand_ok (\<lambda>k n. None)"
  by (simp add: rand_ok_def)

lemma first_profile: "clientHelloProfiles ! 0 \<in> set clientHelloProfiles"
  by (rule nth_mem) (simp add: clientHelloProfiles_def)

theorem ParseSNI_buildClientHello_witness:
  "ParseSNI (buildClientHello (clientHelloProfiles ! 0) True (\<lambda>k n. None) 7 @ [1, 2]) = Some ''www.google.com''"
  using ParseSNI_buildClientHello [OF rand_ok_None builtin_server_name [OF first_profile]
      builtin_fits [OF rand_ok_None first_profile], of True 7 "[1, 2]"]
  by (simp add: clientHelloProfiles_def)

text \<open>
  The record and handshake headers of a built ClientHello declare exactly the bytes that follow
  them: the record length is the message less 5 bytes, the handshake length the message less 9.
\<close>

theorem buildClientHello_lengths:
  assumes "hello_fits profile useCryptoRandom rnd seed"
  shows "let pkt = buildClientHello profile useCryptoRandom rnd seed in
    length pkt = 5 + hi_lo (pkt ! 3) (pkt ! 4) \<and>
    length pkt = 9 + hi_mid_lo (pkt ! 6) (pkt ! 7) (pkt ! 8)"
proof -
  define b where "b = clientHelloBody profile useCryptoRandom rnd seed"
  have b: "length b < 65532"
    using assms by (simp add: hello_fits_def b_def)
  have "hi_lo (byte_of_nat ((4 + length b) div 256)) (byte_of_nat (4 + length b)) = 4 + length b"
    using b by (intro hi_lo_bytes) linarith
  moreover have "hi_mid_lo (byte_of_nat (length b div 65536)) (byte_of_nat (length b div 256))
      (byte_of_nat (length b)) = length b"
    using b by (intro hi_mid_lo_bytes) linarith
  moreover have suc: "Suc (Suc (Suc (Suc n))) = 4 + n" for n
    by simp
  ultimately show ?thesis
    by (simp add: buildClientHello_def Let_def b_def [symmetric] suc del: div_less)
qed

theorem buildClientHello_lengths_witness:
  "length TLSClientHello = 5 + hi_lo (TLSClientHello ! 3) (TLSClientHello ! 4)"
  using buildClientHello_lengths [OF builtin_fits [OF rand_ok_None first_profile], of False 1]
  by (simp only: TLSClientHello_def Let_def)

text \<open>
  The rotation: for the first 2^63 calls \<open>RandomTLSClientHello\<close> returns, advances the counter by
  one, and the message it returns carries the server name of profile \<open>counter mod 3\<close>, so three
  consecutive messages pose as three different hosts.
\<close>

theorem RandomTLSClientHello_rotates:
  assumes "rand_ok rnd" and "unat counter < 2 ^ 63"
  shows "\<exists>pkt. RandomTLSClientHello rnd counter = (Some pkt, counter + 1) \<and>
    ParseSNI pkt = Some ([''www.google.com'', ''www.cloudflare.com'', ''www.microsoft.com''] ! (unat counter mod 3))"
proof -
  let ?p = "clientHelloProfiles ! (unat counter mod 3)"
  let ?seed = "of_nat (unat counter mod 3 + 1)"
  have idx: "unat counter mod 3 < length clientHelloProfiles"
    by (simp add: clientHelloProfiles_def)
  have p: "?p \<in> set clientHelloProfiles"
    by (rule nth_mem [OF idx])
  have "ParseSNI (buildClientHello ?p True rnd ?seed @ []) = Some (ServerName ?p)"
    by (rule ParseSNI_hello [OF assms(1) builtin_server_name [OF p] builtin_fits [OF assms(1) p]])
  moreover have "ServerName ?p = map ServerName clientHelloProfiles ! (unat counter mod 3)"
    by (simp only: nth_map [OF idx])
  moreover have "map ServerName clientHelloProfiles = [''www.google.com'', ''www.cloudflare.com'', ''www.microsoft.com'']"
    by (simp add: clientHelloProfiles_def)
  ultimately show ?thesis
    using RandomTLSClientHello_eq [OF assms(2), of rnd] by simp
qed

theorem RandomTLSClientHello_rotates_witness:
  "\<exists>pkt. RandomTLSClientHello (\<lambda>k n. None) 4 = (Some pkt, 5) \<and> ParseSNI pkt = Some ''www.cloudflare.com''"
  using RandomTLSClientHello_rotates [OF rand_ok_None, of 4] by simp

end
