(* ===== verification/Processor.thy ===== *)
theory Processor
  imports RouterConfig Rawsock Sni
begin

text \<open>
  Package router, the decision (pkg/router/packet.go and processor.go): \<open>ParsePacket\<close> and
  \<open>ProcessPacket\<close>, which decides whether a queued packet triggers a fake ClientHello, and the flow
  table that gates it. The decoder of package gopacket is a parameter: given the bytes it returns the
  addresses of the IP layer and the transport layer it found, or nothing. Time is an integer number
  of nanoseconds and is passed in, as the field \<open>now\<close> of the Go struct is; the counter behind
  \<open>RandomTLSClientHello\<close> is part of the state. What is proved: exactly when a packet triggers an
  injection and what is injected, at most one injection per flow in two minutes, the bound on the
  flow table, and that flow keys identify connections.
\<close>

subsection \<open>Packets\<close>

abbreviation ProtocolUnknown :: string where "ProtocolUnknown \<equiv> ''unknown''"
abbreviation ProtocolTCP :: string where "ProtocolTCP \<equiv> ''tcp''"
abbreviation ProtocolUDP :: string where "ProtocolUDP \<equiv> ''udp''"

record TCPMeta =
  TSeq :: u32
  TAck :: u32
  SYN :: bool
  ACK :: bool
  PSH :: bool
  RST :: bool
  FIN :: bool

record UDPMeta =
  Length :: u16

record PacketMeta =
  IPVersion :: nat
  Proto :: string
  MSrcIP :: ip
  MDstIP :: ip
  MSrcPort :: u16
  MDstPort :: u16
  TCP :: TCPMeta
  UDP :: UDPMeta
  Payload :: bytes

text \<open>
  What the decoder reports (\<open>layers.IPv4\<close> or \<open>layers.IPv6\<close>, \<open>layers.TCP\<close>, \<open>layers.UDP\<close>): one
  function per first layer, \<open>None\<close> when that layer is missing.
\<close>

record tcp_layer =
  tcp_SrcPort :: u16
  tcp_DstPort :: u16
  tcp_meta :: TCPMeta
  tcp_Payload :: bytes

record udp_layer =
  udp_SrcPort :: u16
  udp_DstPort :: u16
  udp_Length :: u16
  udp_Payload :: bytes

record packet_layers =
  ip_src :: ip
  ip_dst :: ip
  tcpLayer :: "tcp_layer option"
  udpLayer :: "udp_layer option"

record gopacket =
  layerIPv4 :: "bytes \<Rightarrow> packet_layers option"
  layerIPv6 :: "bytes \<Rightarrow> packet_layers option"

text \<open>What gopacket documents of its IPv4 layer: both addresses are four bytes.\<close>

definition gopacket_ok :: "gopacket \<Rightarrow> bool" where
  "gopacket_ok gp \<longleftrightarrow> (\<forall>p l. layerIPv4 gp p = Some l \<longrightarrow> length (ip_src l) = 4 \<and> length (ip_dst l) = 4)"

datatype packet_error = EmptyPacket | UnsupportedIPVersion nat | MissingIPv4 | MissingIPv6

definition zero_TCPMeta :: TCPMeta where
  "zero_TCPMeta = \<lparr>TSeq = 0, TAck = 0, SYN = False, ACK = False, PSH = False, RST = False, FIN = False\<rparr>"

definition zero_PacketMeta :: PacketMeta where
  "zero_PacketMeta = \<lparr>IPVersion = 0, Proto = [], MSrcIP = [], MDstIP = [], MSrcPort = 0, MDstPort = 0,
     TCP = zero_TCPMeta, UDP = \<lparr>Length = 0\<rparr>, Payload = []\<rparr>"

definition fillTransportMetaFromPacket :: "PacketMeta \<Rightarrow> packet_layers \<Rightarrow> PacketMeta" where
  "fillTransportMetaFromPacket meta pkt =
     (case tcpLayer pkt of
        Some tcp \<Rightarrow> meta\<lparr>Proto := ProtocolTCP, MSrcPort := tcp_SrcPort tcp, MDstPort := tcp_DstPort tcp,
          Payload := tcp_Payload tcp, TCP := tcp_meta tcp\<rparr>
      | None \<Rightarrow>
          (case udpLayer pkt of
             Some udp \<Rightarrow> meta\<lparr>Proto := ProtocolUDP, MSrcPort := udp_SrcPort udp, MDstPort := udp_DstPort udp,
               Payload := udp_Payload udp, UDP := \<lparr>Length = udp_Length udp\<rparr>\<rparr>
           | None \<Rightarrow> meta))"

definition parseIPv4 :: "gopacket \<Rightarrow> bytes \<Rightarrow> packet_error + PacketMeta" where
  "parseIPv4 gp packet =
     (case layerIPv4 gp packet of
        None \<Rightarrow> Inl MissingIPv4
      | Some pkt \<Rightarrow>
          Inr (fillTransportMetaFromPacket
            (zero_PacketMeta\<lparr>IPVersion := 4, MSrcIP := ip_src pkt, MDstIP := ip_dst pkt\<rparr>) pkt))"

definition parseIPv6 :: "gopacket \<Rightarrow> bytes \<Rightarrow> packet_error + PacketMeta" where
  "parseIPv6 gp packet =
     (case layerIPv6 gp packet of
        None \<Rightarrow> Inl MissingIPv6
      | Some pkt \<Rightarrow>
          Inr (fillTransportMetaFromPacket
            (zero_PacketMeta\<lparr>IPVersion := 6, MSrcIP := ip_src pkt, MDstIP := ip_dst pkt\<rparr>) pkt))"

definition ParsePacket :: "gopacket \<Rightarrow> bytes \<Rightarrow> packet_error + PacketMeta" where
  "ParsePacket gp packet =
     (if length packet = 0 then Inl EmptyPacket
      else let v = unat (drop_bit 4 (packet ! 0)) in
        if v = 4 then parseIPv4 gp packet
        else if v = 6 then parseIPv6 gp packet
        else Inl (UnsupportedIPVersion v))"

definition FlowKey :: "PacketMeta \<Rightarrow> string" where
  "FlowKey m = join_with ''|''
     [dec (IPVersion m), Proto m, ip_string (MSrcIP m), ip_string (MDstIP m),
      dec (unat (MSrcPort m)), dec (unat (MDstPort m))]"

definition LooksLikeTLSClientHello :: "bytes \<Rightarrow> bool" where
  "LooksLikeTLSClientHello payload =
     (if length payload < 9 then False
      else if payload ! 0 \<noteq> 0x16 then False
      else if payload ! 1 \<noteq> 0x03 then False
      else if payload ! 5 \<noteq> 0x01 then False
      else
        let recordLen = unat (get_be16 (payload ! 3) (payload ! 4)) in
        if recordLen < 4 then False
        else if 5 + recordLen > length payload then False
        else let handshakeLen = hi_mid_lo (payload ! 6) (payload ! 7) (payload ! 8)
          in handshakeLen > 0)"

subsection \<open>The flow table\<close>

text \<open>The Go map from keys to times, as an association list with distinct keys.\<close>

record flowTable =
  flow_ttl :: int
  flow_limit :: int
  flow_entries :: "(string \<times> int) list"

definition newFlowTable :: "int \<Rightarrow> int \<Rightarrow> flowTable" where
  "newFlowTable t l = \<lparr>flow_ttl = t, flow_limit = l, flow_entries = []\<rparr>"

definition MarkOnce :: "string \<Rightarrow> int \<Rightarrow> flowTable \<Rightarrow> bool \<times> flowTable" where
  "MarkOnce key now t =
     (let t = t\<lparr>flow_entries := filter (\<lambda>(flowKey, seenAt). \<not> now - seenAt > flow_ttl t) (flow_entries t)\<rparr> in
      if map_of (flow_entries t) key \<noteq> None then (False, t)
      else if int (length (flow_entries t)) \<ge> flow_limit t then (False, t)
      else (True, t\<lparr>flow_entries := (key, now) # flow_entries t\<rparr>))"

subsection \<open>The processor\<close>

definition defaultFlowTTL :: int where
  "defaultFlowTTL = 2 * 60 * 1000000000"

record Action =
  Inject :: bool
  Conn :: ConnInfo
  FakePayload :: bytes
  Reason :: string

definition zero_ConnInfo :: ConnInfo where
  "zero_ConnInfo = \<lparr>SrcIP = [], DstIP = [], SrcPort = 0, DstPort = 0, Seq = 0, Ack = 0\<rparr>"

definition no_action :: "string \<Rightarrow> Action" where
  "no_action reason = \<lparr>Inject = False, Conn = zero_ConnInfo, FakePayload = [], Reason = reason\<rparr>"

text \<open>\<open>hello_counter\<close> is the package variable behind \<open>fake.RandomTLSClientHello\<close>.\<close>

record Processor =
  proc_cfg :: Config
  proc_ttl :: int
  proc_flows :: flowTable
  hello_counter :: u64

definition NewProcessor :: "Config \<Rightarrow> u64 \<Rightarrow> config_error + Processor" where
  "NewProcessor c0 counter =
     (let c = Normalized c0 in
      case Validate c of
        Some err \<Rightarrow> Inl err
      | None \<Rightarrow> Inr \<lparr>proc_cfg = c, proc_ttl = defaultFlowTTL,
          proc_flows = newFlowTable defaultFlowTTL (MaxFlows c), hello_counter = counter\<rparr>)"

fun portAllowed :: "u16 \<Rightarrow> u16 list \<Rightarrow> bool" where
  "portAllowed port [] = False"
| "portAllowed port (candidate # ports) = (if candidate = port then True else portAllowed port ports)"

definition packetToConnInfo :: "PacketMeta \<Rightarrow> ConnInfo option" where
  "packetToConnInfo meta =
     (let srcIP4 = to4 (MSrcIP meta); dstIP4 = to4 (MDstIP meta) in
      if srcIP4 = [] \<or> dstIP4 = [] then None
      else Some \<lparr>SrcIP = srcIP4, DstIP = dstIP4, SrcPort = MSrcPort meta, DstPort = MDstPort meta,
        Seq = TSeq (TCP meta), Ack = TAck (TCP meta)\<rparr>)"

text \<open>
  The result: the action and the error, \<open>None\<close> for a panic of \<open>RandomTLSClientHello\<close>, and the
  processor's new state.
\<close>

type_synonym decision = "(Action \<times> packet_error err) option"

definition ProcessPacket ::
  "gopacket \<Rightarrow> (nat \<Rightarrow> nat \<Rightarrow> bytes option) \<Rightarrow> bytes \<Rightarrow> u32 \<Rightarrow> int \<Rightarrow> Processor \<Rightarrow> decision \<times> Processor"
where
  "ProcessPacket gp rnd packet mark now p =
     (if mark AND PacketMark (proc_cfg p) \<noteq> 0 then (Some (no_action ''generated packet mark'', None), p)
      else case ParsePacket gp packet of
        Inl err \<Rightarrow> (Some (no_action ''packet parse failed'', Some err), p)
      | Inr meta \<Rightarrow>
          if Proto meta \<noteq> ProtocolTCP then (Some (no_action ''non-tcp packet'', None), p)
          else if IPVersion meta \<noteq> 4
          then (Some (no_action ''ipv6 fake injection not implemented'', None), p)
          else if \<not> portAllowed (MDstPort meta) (TCPPorts (proc_cfg p))
          then (Some (no_action ''tcp port not targeted'', None), p)
          else if length (Payload meta) = 0
          then (Some (no_action ''tcp packet has no payload'', None), p)
          else if \<not> LooksLikeTLSClientHello (Payload meta)
          then (Some (no_action ''tcp payload is not a TLS ClientHello'', None), p)
          else
            let (marked, table) = MarkOnce (FlowKey meta) now (proc_flows p);
                p = p\<lparr>proc_flows := table\<rparr> in
            if \<not> marked then (Some (no_action ''flow already handled or flow table full'', None), p)
            else case packetToConnInfo meta of
              None \<Rightarrow> (Some (no_action ''failed to convert IPs to IPv4'', None), p)
            | Some conn \<Rightarrow>
                let (hello, counter) = RandomTLSClientHello rnd (hello_counter p);
                    p = p\<lparr>hello_counter := counter\<rparr> in
                (case hello of
                   None \<Rightarrow> None
                 | Some payload \<Rightarrow> Some (\<lparr>Inject = True, Conn = conn, FakePayload = payload,
                     Reason = ''inject fake clienthello before queued handshake''\<rparr>, None), p))"


fun ProcessPackets ::
  "gopacket \<Rightarrow> (nat \<Rightarrow> nat \<Rightarrow> bytes option) \<Rightarrow> (bytes \<times> u32 \<times> int) list \<Rightarrow> Processor \<Rightarrow> decision list \<times> Processor"
where
  "ProcessPackets gp rnd [] p = ([], p)"
| "ProcessPackets gp rnd ((packet, mark, now) # evs) p =
     (let (d, p) = ProcessPacket gp rnd packet mark now p;
          (ds, p) = ProcessPackets gp rnd evs p
      in (d # ds, p))"

subsection \<open>The contract of a flow gate\<close>

text \<open>
  What the processor relies on: a mark that succeeds is remembered, a remembered key cannot be
  marked again until its period has passed, and marking other keys does not forget it earlier. From
  these laws follows that two successful marks of one key are further apart than the period.
\<close>

locale flow_gate =
  fixes mark :: "'k \<Rightarrow> int \<Rightarrow> 's \<Rightarrow> bool \<times> 's"
    and seen :: "'s \<Rightarrow> 'k \<Rightarrow> int option"
    and period :: "'s \<Rightarrow> int"
    and inv :: "'s \<Rightarrow> bool"
  assumes inv_mark: "inv s \<Longrightarrow> inv (snd (mark k now s))"
    and period_mark: "period (snd (mark k now s)) = period s"
    and period_nonneg: "inv s \<Longrightarrow> 0 \<le> period s"
    and recorded: "inv s \<Longrightarrow> mark k now s = (True, s') \<Longrightarrow> seen s' k = Some now"
    and fresh: "inv s \<Longrightarrow> mark k now s = (True, s') \<Longrightarrow> seen s k = Some t \<Longrightarrow> period s < now - t"
    and kept: "inv s \<Longrightarrow> mark k now s = (b, s') \<Longrightarrow> seen s k' = Some t \<Longrightarrow> now - t \<le> period s \<Longrightarrow>
      seen s' k' = Some t"
begin

fun run :: "('k option \<times> int) list \<Rightarrow> 's \<Rightarrow> bool list \<times> 's" where
  "run [] s = ([], s)"
| "run ((None, now) # evs) s = (let (bs, s') = run evs s in (False # bs, s'))"
| "run ((Some k, now) # evs) s =
     (let (b, s) = mark k now s; (bs, s') = run evs s in (b # bs, s'))"

lemma later_mark:
  assumes "inv s" and "seen s k = Some t" and "sorted (map snd evs)" and "\<forall>e \<in> set evs. t \<le> snd e"
    and "j < length evs" and "fst (run evs s) ! j" and "fst (evs ! j) = Some k"
  shows "period s < snd (evs ! j) - t"
  using assms
proof (induction evs s arbitrary: j rule: run.induct)
  case (2 now evs s)
  then obtain i where "j = Suc i"
    by (cases j) (auto split: prod.splits)
  with 2 show ?case by (auto split: prod.splits)
next
  case (3 k0 now evs s)
  obtain b s' where m: "mark k0 now s = (b, s')" by fastforce
  have p: "period s' = period s" and inv: "inv s'"
    using period_mark [of k0 now s] inv_mark [OF 3(2), of k0 now] m by simp_all
  show ?case
  proof (cases j)
    case 0
    with 3 m have "b" "k0 = k" by (auto split: prod.splits)
    with fresh 3 m 0 show ?thesis by simp
  next
    case (Suc i)
    have i: "i < length evs" "fst (run evs s') ! i" "fst (evs ! i) = Some k" "sorted (map snd evs)"
      "\<forall>e \<in> set evs. now \<le> snd e" "now \<le> snd (evs ! i)"
      using 3 m Suc by (auto split: prod.splits)
    show ?thesis
    proof (cases "now - t \<le> period s")
      case True
      with 3 m have "seen s' k = Some t" by (blast intro: kept)
      from 3(1) [OF m [symmetric] refl inv this i(4) _ i(1,2,3)] 3(5) p Suc show ?thesis by simp
    next
      case False
      with i(6) Suc show ?thesis by simp
    qed
  qed
qed simp

lemma run_spaced:
  assumes "inv s" and "sorted (map snd evs)" and "i < j" and "j < length evs"
    and "fst (run evs s) ! i" and "fst (run evs s) ! j"
    and "fst (evs ! i) = Some k" and "fst (evs ! j) = Some k"
  shows "period s < snd (evs ! j) - snd (evs ! i)"
  using assms
proof (induction evs s arbitrary: i j rule: run.induct)
  case (2 now evs s)
  then obtain i' j' where "i = Suc i'" "j = Suc j'"
    by (cases i; cases j) (auto split: prod.splits)
  with 2 show ?case by (auto split: prod.splits)
next
  case (3 k0 now evs s)
  obtain b s' where m: "mark k0 now s = (b, s')" by fastforce
  have p: "period s' = period s" and inv: "inv s'"
    using period_mark [of k0 now s] inv_mark [OF 3(2), of k0 now] m by simp_all
  obtain j' where j: "j = Suc j'"
    using 3 by (cases j) auto
  have j': "j' < length evs" "fst (run evs s') ! j'" "fst (evs ! j') = Some k" "sorted (map snd evs)"
    "\<forall>e \<in> set evs. now \<le> snd e"
    using 3 m j by (auto split: prod.splits)
  show ?case
  proof (cases i)
    case 0
    with 3 m have "b" "k0 = k" by (auto split: prod.splits)
    with recorded 3 m have "seen s' k = Some now" by simp
    from later_mark [OF inv this j'(4,5,1,2,3)] p 0 j show ?thesis by simp
  next
    case (Suc i')
    have "fst (run evs s') ! i'" "fst (evs ! i') = Some k" "i' < j'"
      using 3 m Suc j by (auto split: prod.splits)
    from 3(1) [OF m [symmetric] refl inv j'(4) this(3) j'(1) this(1) j'(2) this(2) j'(3)] p Suc j
    show ?thesis by simp
  qed
qed simp

lemma inv_run: "inv s \<Longrightarrow> inv (snd (run evs s))"
proof (induction evs s rule: run.induct)
  case (3 k now evs s)
  obtain b s' where m: "mark k now s = (b, s')" by fastforce
  with inv_mark [OF 3(2), of k now] 3(1) [OF m [symmetric] refl] show ?case
    by (cases "run evs s'") simp
qed (auto split: prod.splits)

end

text \<open>The Go flow table satisfies the contract: distinct keys and a nonnegative period suffice.\<close>

definition flow_inv :: "flowTable \<Rightarrow> bool" where
  "flow_inv t \<longleftrightarrow> distinct (map fst (flow_entries t)) \<and> 0 \<le> flow_ttl t"

definition live_entries :: "int \<Rightarrow> flowTable \<Rightarrow> (string \<times> int) list" where
  "live_entries now t = filter (\<lambda>e. \<not> now - snd e > flow_ttl t) (flow_entries t)"

lemma MarkOnce_eq:
  "MarkOnce key now t =
     (let live = live_entries now t in
      if map_of live key = None \<and> int (length live) < flow_limit t
      then (True, t\<lparr>flow_entries := (key, now) # live\<rparr>) else (False, t\<lparr>flow_entries := live\<rparr>))"
  by (auto simp: MarkOnce_def live_entries_def Let_def case_prod_unfold)

lemma map_of_live:
  "flow_inv t \<Longrightarrow> map_of (live_entries now t) k =
     (case map_of (flow_entries t) k of Some v \<Rightarrow> if \<not> now - v > flow_ttl t then Some v else None | None \<Rightarrow> None)"
  unfolding live_entries_def flow_inv_def
  by (subst map_of_filter_key) (auto split: option.split)

lemma flow_inv_MarkOnce: "flow_inv t \<Longrightarrow> flow_inv (snd (MarkOnce key now t))"
proof -
  assume "flow_inv t"
  then have "distinct (map fst (live_entries now t))"
    by (simp add: flow_inv_def live_entries_def distinct_map_filter)
  with \<open>flow_inv t\<close> show ?thesis
    by (auto simp: MarkOnce_eq Let_def flow_inv_def map_of_eq_None_iff)
qed

interpretation flowgate: flow_gate MarkOnce "\<lambda>t. map_of (flow_entries t)" flow_ttl flow_inv
proof unfold_locales
  fix s k now show "flow_ttl (snd (MarkOnce k now s)) = flow_ttl s"
    by (simp add: MarkOnce_eq Let_def)
next
  fix s s' k now b k' t
  assume "flow_inv s" "MarkOnce k now s = (b, s')" "map_of (flow_entries s) k' = Some t" "now - t \<le> flow_ttl s"
  moreover from this have "map_of (live_entries now s) k' = Some t"
    by (simp add: map_of_live)
  ultimately show "map_of (flow_entries s') k' = Some t"
    by (auto simp: MarkOnce_eq Let_def split: if_splits)
next
  fix s s' k now t
  assume "flow_inv s" "MarkOnce k now s = (True, s')" "map_of (flow_entries s) k = Some t"
  then show "flow_ttl s < now - t"
    by (simp add: MarkOnce_eq map_of_live Let_def split: if_splits)
qed (auto simp: flow_inv_MarkOnce, auto simp: flow_inv_def MarkOnce_eq Let_def split: if_splits)


subsection \<open>What ProcessPacket does\<close>

text \<open>The packets that reach the flow gate, and their flow.\<close>

definition hello_meta :: "gopacket \<Rightarrow> Config \<Rightarrow> bytes \<Rightarrow> u32 \<Rightarrow> PacketMeta option" where
  "hello_meta gp c packet mark =
     (case ParsePacket gp packet of
        Inl _ \<Rightarrow> None
      | Inr m \<Rightarrow>
          if mark AND PacketMark c = 0 \<and> Proto m = ProtocolTCP \<and> IPVersion m = 4 \<and>
            MDstPort m \<in> set (TCPPorts c) \<and> LooksLikeTLSClientHello (Payload m)
          then Some m else None)"

definition injects :: "decision \<Rightarrow> bool" where
  "injects d = (case d of Some (a, _) \<Rightarrow> Inject a | None \<Rightarrow> False)"

lemma injects_no_action [simp]: "\<not> injects (Some (no_action r, e))"
  by (simp add: injects_def no_action_def)

lemma portAllowed_iff [simp]: "portAllowed port ports \<longleftrightarrow> port \<in> set ports"
  by (induction ports) auto

lemma LooksLike_nonempty: "LooksLikeTLSClientHello pl \<Longrightarrow> pl \<noteq> []"
  by (auto simp: LooksLikeTLSClientHello_def)

lemma ProcessPacket_None:
  assumes "hello_meta gp (proc_cfg p) packet mark = None"
  shows "\<exists>r e. ProcessPacket gp rnd packet mark now p = (Some (no_action r, e), p)"
proof (cases "ParsePacket gp packet")
  case (Inr m)
  with assms show ?thesis
    by (simp add: ProcessPacket_def hello_meta_def split: if_splits) auto
qed (auto simp: ProcessPacket_def)

lemma ProcessPacket_Some:
  assumes "hello_meta gp (proc_cfg p) packet mark = Some m"
  shows "ProcessPacket gp rnd packet mark now p =
    (let (marked, table) = MarkOnce (FlowKey m) now (proc_flows p);
         p = p\<lparr>proc_flows := table\<rparr> in
     if \<not> marked then (Some (no_action ''flow already handled or flow table full'', None), p)
     else case packetToConnInfo m of
       None \<Rightarrow> (Some (no_action ''failed to convert IPs to IPv4'', None), p)
     | Some conn \<Rightarrow>
         let (hello, counter) = RandomTLSClientHello rnd (hello_counter p);
             p = p\<lparr>hello_counter := counter\<rparr> in
         (case hello of
            None \<Rightarrow> None
          | Some payload \<Rightarrow> Some (\<lparr>Inject = True, Conn = conn, FakePayload = payload,
              Reason = ''inject fake clienthello before queued handshake''\<rparr>, None), p))"
proof -
  from assms have "ParsePacket gp packet = Inr m" "mark AND PacketMark (proc_cfg p) = 0"
    "Proto m = ProtocolTCP" "IPVersion m = 4" "MDstPort m \<in> set (TCPPorts (proc_cfg p))"
    "LooksLikeTLSClientHello (Payload m)"
    by (auto simp: hello_meta_def split: sum.splits if_splits)
  moreover from this have "length (Payload m) \<noteq> 0"
    using LooksLike_nonempty by auto
  ultimately show ?thesis
    unfolding ProcessPacket_def by simp
qed

lemma ProcessPacket_state:
  assumes "ProcessPacket gp rnd packet mark now p = (d, p')"
  shows "proc_cfg p' = proc_cfg p"
    and "proc_flows p' = (case hello_meta gp (proc_cfg p) packet mark of
      None \<Rightarrow> proc_flows p | Some m \<Rightarrow> snd (MarkOnce (FlowKey m) now (proc_flows p)))"
    and "injects d \<Longrightarrow> \<exists>m. hello_meta gp (proc_cfg p) packet mark = Some m \<and>
      fst (MarkOnce (FlowKey m) now (proc_flows p))"
proof -
  have *: "proc_cfg p' = proc_cfg p \<and> proc_flows p' = (case hello_meta gp (proc_cfg p) packet mark of
      None \<Rightarrow> proc_flows p | Some m \<Rightarrow> snd (MarkOnce (FlowKey m) now (proc_flows p))) \<and>
      (injects d \<longrightarrow> (\<exists>m. hello_meta gp (proc_cfg p) packet mark = Some m \<and>
        fst (MarkOnce (FlowKey m) now (proc_flows p))))"
  proof (cases "hello_meta gp (proc_cfg p) packet mark")
    case None
    with ProcessPacket_None [OF None, of rnd now] assms show ?thesis by auto
  next
    case (Some m)
    obtain b t where m: "MarkOnce (FlowKey m) now (proc_flows p) = (b, t)" by fastforce
    obtain h c where r: "RandomTLSClientHello rnd (hello_counter p) = (h, c)" by fastforce
    show ?thesis
      using assms Some m r unfolding ProcessPacket_Some [OF Some]
      by (cases b; cases "packetToConnInfo m") auto
  qed
  from * show "proc_cfg p' = proc_cfg p"
    "proc_flows p' = (case hello_meta gp (proc_cfg p) packet mark of
      None \<Rightarrow> proc_flows p | Some m \<Rightarrow> snd (MarkOnce (FlowKey m) now (proc_flows p)))"
    "injects d \<Longrightarrow> \<exists>m. hello_meta gp (proc_cfg p) packet mark = Some m \<and>
      fst (MarkOnce (FlowKey m) now (proc_flows p))"
    by blast+
qed

text \<open>A run of the processor is a run of its flow gate on the flows of the packets.\<close>

definition gate_event :: "gopacket \<Rightarrow> Config \<Rightarrow> bytes \<times> u32 \<times> int \<Rightarrow> string option \<times> int" where
  "gate_event gp c = (\<lambda>(packet, mark, now). (map_option FlowKey (hello_meta gp c packet mark), now))"

lemma ProcessPackets_gate:
  assumes "ProcessPackets gp rnd evs p = (ds, p')"
  shows "proc_cfg p' = proc_cfg p \<and> length ds = length evs \<and>
    proc_flows p' = snd (flowgate.run (map (gate_event gp (proc_cfg p)) evs) (proc_flows p)) \<and>
    (\<forall>i < length evs. injects (ds ! i) \<longrightarrow>
      fst (flowgate.run (map (gate_event gp (proc_cfg p)) evs) (proc_flows p)) ! i \<and>
      fst (gate_event gp (proc_cfg p) (evs ! i)) \<noteq> None)"
  using assms
proof (induction evs arbitrary: p ds)
  case (Cons ev evs)
  obtain packet mark now where ev: "ev = (packet, mark, now)" by (cases ev)
  obtain d q where d: "ProcessPacket gp rnd packet mark now p = (d, q)" by fastforce
  obtain ds' where ds': "ProcessPackets gp rnd evs q = (ds', p')" and ds: "ds = d # ds'"
    using Cons.prems by (auto simp: ev d split: prod.splits)
  note st = ProcessPacket_state [OF d]
  note IH = Cons.IH [OF ds', unfolded st(1)]
  show ?case
  proof (cases "hello_meta gp (proc_cfg p) packet mark")
    case None
    with IH st show ?thesis
      by (auto simp: ds ev gate_event_def split_def Let_def nth_Cons split: nat.split)
  next
    case (Some m)
    with IH st show ?thesis
      by (cases "MarkOnce (FlowKey m) now (proc_flows p)")
        (auto simp: ds ev gate_event_def split_def Let_def nth_Cons split: nat.split)
  qed
qed simp


subsection \<open>Flow keys, the bound and the content of an injection\<close>

text \<open>IPv4 packets as the decoder delivers them.\<close>

definition v4_meta :: "PacketMeta \<Rightarrow> bool" where
  "v4_meta m \<longleftrightarrow> IPVersion m = 4 \<and> length (MSrcIP m) = 4 \<and> length (MDstIP m) = 4 \<and>
     Proto m \<in> {ProtocolTCP, ProtocolUDP}"

lemma bar_not_dec: "CHR ''|'' \<notin> set (dec n)"
  by (rule not_in_dec) (simp add: is_digit_def)

lemma split_FlowKey:
  assumes "v4_meta m"
  shows "split_on CHR ''|'' (FlowKey m) =
    [dec (IPVersion m), Proto m, ipv4_string (MSrcIP m), ipv4_string (MDstIP m),
     dec (unat (MSrcPort m)), dec (unat (MDstPort m))]"
  using assms unfolding FlowKey_def v4_meta_def
  by (subst split_join) (auto simp: bar_not_dec bar_not_in_ipv4_string)

lemma FlowKey_inject:
  assumes "v4_meta m" and "v4_meta n"
  shows "FlowKey m = FlowKey n \<longleftrightarrow>
    Proto m = Proto n \<and> MSrcIP m = MSrcIP n \<and> MDstIP m = MDstIP n \<and>
    MSrcPort m = MSrcPort n \<and> MDstPort m = MDstPort n"
proof
  assume "FlowKey m = FlowKey n"
  then have "split_on CHR ''|'' (FlowKey m) = split_on CHR ''|'' (FlowKey n)" by simp
  then show "Proto m = Proto n \<and> MSrcIP m = MSrcIP n \<and> MDstIP m = MDstIP n \<and>
    MSrcPort m = MSrcPort n \<and> MDstPort m = MDstPort n"
    using assms by (auto simp: split_FlowKey v4_meta_def ipv4_string_inject intro: unsigned_word_eqI)
qed (use assms in \<open>simp add: FlowKey_def v4_meta_def\<close>)

lemma hello_meta_v4:
  assumes "gopacket_ok gp" and "hello_meta gp c packet mark = Some m"
  shows "v4_meta m" and "Proto m = ProtocolTCP"
proof -
  have m: "ParsePacket gp packet = Inr m" "Proto m = ProtocolTCP" "IPVersion m = 4"
    using assms(2) by (auto simp: hello_meta_def split: sum.splits if_splits)
  then show "Proto m = ProtocolTCP" by simp
  have fill: "MSrcIP (fillTransportMetaFromPacket x l) = MSrcIP x"
    "MDstIP (fillTransportMetaFromPacket x l) = MDstIP x"
    "IPVersion (fillTransportMetaFromPacket x l) = IPVersion x" for x l
    by (auto simp: fillTransportMetaFromPacket_def split: option.split)
  have "parseIPv4 gp packet = Inr m"
    using m(1,3) by (auto simp: ParsePacket_def Let_def parseIPv6_def fill split: if_splits option.splits)
  with m(2,3) assms(1) show "v4_meta m"
    by (auto simp: parseIPv4_def gopacket_ok_def v4_meta_def fill split: option.splits)
qed

lemma packetToConnInfo_v4:
  "v4_meta m \<Longrightarrow> packetToConnInfo m = Some \<lparr>SrcIP = MSrcIP m, DstIP = MDstIP m,
     SrcPort = MSrcPort m, DstPort = MDstPort m, Seq = TSeq (TCP m), Ack = TAck (TCP m)\<rparr>"
  by (auto simp: packetToConnInfo_def v4_meta_def Let_def)

lemma MarkOnce_bound:
  "int (length (flow_entries t)) \<le> max 0 (flow_limit t) \<Longrightarrow>
   int (length (flow_entries (snd (MarkOnce key now t)))) \<le> max 0 (flow_limit t) \<and>
   flow_limit (snd (MarkOnce key now t)) = flow_limit t"
proof -
  assume b: "int (length (flow_entries t)) \<le> max 0 (flow_limit t)"
  have "length (live_entries now t) \<le> length (flow_entries t)"
    by (simp add: live_entries_def)
  with b show ?thesis
    by (auto simp: MarkOnce_eq Let_def)
qed

definition proc_inv :: "Processor \<Rightarrow> bool" where
  "proc_inv p \<longleftrightarrow> flow_inv (proc_flows p) \<and> flow_ttl (proc_flows p) = defaultFlowTTL \<and>
     flow_limit (proc_flows p) = MaxFlows (proc_cfg p) \<and> 1 \<le> MaxFlows (proc_cfg p) \<and>
     int (length (flow_entries (proc_flows p))) \<le> MaxFlows (proc_cfg p)"

lemma NewProcessor_inv: "NewProcessor c k = Inr p \<Longrightarrow> proc_inv p \<and> proc_cfg p = Normalized c"
proof -
  assume p: "NewProcessor c k = Inr p"
  then have "Validate c = None"
    by (auto simp: NewProcessor_def Let_def split: option.splits)
  then have "1 \<le> MaxFlows (Normalized c)"
    by (simp only: Validate_None sound_config_def)
  with p show ?thesis
    by (auto simp: NewProcessor_def Let_def proc_inv_def flow_inv_def newFlowTable_def
        defaultFlowTTL_def simp del: Normalized_fields split: option.splits)
qed

lemma proc_inv_step:
  assumes "proc_inv p" and "ProcessPacket gp rnd packet mark now p = (d, p')"
  shows "proc_inv p'"
proof (cases "hello_meta gp (proc_cfg p) packet mark")
  case None
  with assms ProcessPacket_state [OF assms(2)] show ?thesis
    by (simp add: proc_inv_def)
next
  case (Some m)
  with assms ProcessPacket_state [OF assms(2)] show ?thesis
    using MarkOnce_bound [of "proc_flows p" "FlowKey m" now] flow_inv_MarkOnce [of "proc_flows p"]
      flowgate.period_mark [of "FlowKey m" now "proc_flows p"]
    by (simp add: proc_inv_def)
qed

lemma proc_inv_run: "proc_inv p \<Longrightarrow> ProcessPackets gp rnd evs p = (ds, p') \<Longrightarrow> proc_inv p'"
proof (induction evs arbitrary: p ds)
  case (Cons ev evs)
  obtain packet mark now where ev: "ev = (packet, mark, now)" by (cases ev)
  obtain d q where d: "ProcessPacket gp rnd packet mark now p = (d, q)" by fastforce
  from Cons.prems obtain ds' where "ProcessPackets gp rnd evs q = (ds', p')"
    by (auto simp: ev d split: prod.splits)
  with Cons.IH [OF proc_inv_step [OF Cons.prems(1) d]] show ?case .
qed simp

text \<open>An admitted flow: its key has no entry younger than the period, and there is room.\<close>

definition admits :: "flowTable \<Rightarrow> string \<Rightarrow> int \<Rightarrow> bool" where
  "admits t key now \<longleftrightarrow> fst (MarkOnce key now t)"

lemma admits_iff:
  "flow_inv t \<Longrightarrow> admits t key now \<longleftrightarrow>
     (\<forall>at. map_of (flow_entries t) key = Some at \<longrightarrow> now - at > flow_ttl t) \<and>
     int (length (filter (\<lambda>e. now - snd e \<le> flow_ttl t) (flow_entries t))) < flow_limit t"
  by (auto simp: admits_def MarkOnce_eq Let_def map_of_live split: option.splits)
    (auto simp: live_entries_def not_less)

lemma ProcessPacket_injection:
  assumes "gopacket_ok gp" and "unat (hello_counter p) < 2 ^ 63"
    and "hello_meta gp (proc_cfg p) packet mark = Some m" and "admits (proc_flows p) (FlowKey m) now"
  shows "fst (ProcessPacket gp rnd packet mark now p) = Some
    (\<lparr>Inject = True,
      Conn = \<lparr>SrcIP = MSrcIP m, DstIP = MDstIP m, SrcPort = MSrcPort m, DstPort = MDstPort m,
        Seq = TSeq (TCP m), Ack = TAck (TCP m)\<rparr>,
      FakePayload = the (fst (RandomTLSClientHello rnd (hello_counter p))),
      Reason = ''inject fake clienthello before queued handshake''\<rparr>, None)"
  using assms(4) packetToConnInfo_v4 [OF hello_meta_v4(1) [OF assms(1,3)]]
    RandomTLSClientHello_eq [OF assms(2), of rnd]
  by (cases "MarkOnce (FlowKey m) now (proc_flows p)") (simp add: ProcessPacket_Some [OF assms(3)] admits_def)

lemma ProcessPacket_no_injection:
  assumes "hello_meta gp (proc_cfg p) packet mark = None \<or>
    hello_meta gp (proc_cfg p) packet mark = Some m \<and> \<not> admits (proc_flows p) (FlowKey m) now"
  shows "\<exists>r e. fst (ProcessPacket gp rnd packet mark now p) = Some (no_action r, e)"
proof (cases "hello_meta gp (proc_cfg p) packet mark")
  case None
  then show ?thesis using ProcessPacket_None [OF None, of rnd now] by auto
next
  case (Some m')
  with assms show ?thesis
    by (cases "MarkOnce (FlowKey m) now (proc_flows p)") (auto simp: ProcessPacket_Some [OF Some] admits_def)
qed


subsection \<open>Recognising ClientHellos\<close>

lemma LooksLike_built:
  assumes "rand_ok rnd" and "hello_fits profile c rnd seed"
  shows "LooksLikeTLSClientHello (buildClientHello profile c rnd seed @ rest)"
proof -
  define b where "b = clientHelloBody profile c rnd seed"
  have b: "length b < 65532" "73 \<le> length b"
    using assms length_clientHelloBody [OF assms(1), of profile c seed]
    by (simp_all add: hello_fits_def b_def)
  have len: "hi_lo (byte_of_nat ((4 + length b) div 256)) (byte_of_nat (4 + length b)) = 4 + length b"
    using b by (intro hi_lo_bytes) linarith
  have hs: "hi_mid_lo (byte_of_nat (length b div 65536)) (byte_of_nat (length b div 256))
      (byte_of_nat (length b)) = length b"
    using b by (intro hi_mid_lo_bytes) linarith
  have suc: "Suc (Suc (Suc (Suc n))) = 4 + n" for n
    by simp
  have "b \<noteq> []"
    using b(2) by auto
  with b len hs show ?thesis
    by (simp add: LooksLikeTLSClientHello_def buildClientHello_def Let_def b_def [symmetric]
        unat_get_be16 suc del: div_less)
qed

subsection \<open>A reference decoder\<close>

text \<open>
  A decoder that meets the hypothesis on gopacket, built on the reference parser of theory Rawsock:
  the concrete instance the examples below run on.
\<close>

definition wire_gp :: gopacket where
  "wire_gp =
     \<lparr>layerIPv4 = (\<lambda>p. map_option (\<lambda>w.
        \<lparr>ip_src = SrcIP (wire_conn w), ip_dst = DstIP (wire_conn w),
         tcpLayer = Some
           \<lparr>tcp_SrcPort = SrcPort (wire_conn w), tcp_DstPort = DstPort (wire_conn w),
            tcp_meta = \<lparr>TSeq = Seq (wire_conn w), TAck = Ack (wire_conn w), SYN = bit (wire_flags w) 1,
              ACK = bit (wire_flags w) 4, PSH = bit (wire_flags w) 3, RST = bit (wire_flags w) 2,
              FIN = bit (wire_flags w) 0\<rparr>,
            tcp_Payload = wire_payload w\<rparr>,
         udpLayer = None\<rparr>) (parse_packet Linux p)),
      layerIPv6 = (\<lambda>_. None)\<rparr>"

lemma wire_gp_ok: "gopacket_ok wire_gp"
  by (auto simp: gopacket_ok_def wire_gp_def parse_packet_def split: if_splits)

definition sample_packet :: bytes where
  "sample_packet = BuildPacket Linux sample_conn TLSClientHello 64"

definition sample_meta :: PacketMeta where
  "sample_meta = \<lparr>IPVersion = 4, Proto = ProtocolTCP, MSrcIP = [10, 0, 0, 1], MDstIP = [93, 184, 216, 34],
     MSrcPort = 12345, MDstPort = 443,
     TCP = \<lparr>TSeq = 1000, TAck = 2000, SYN = False, ACK = True, PSH = True, RST = False, FIN = False\<rparr>,
     UDP = \<lparr>Length = 0\<rparr>, Payload = TLSClientHello\<rparr>"

lemma TLSClientHello_looks: "LooksLikeTLSClientHello TLSClientHello"
  using LooksLike_built [OF rand_ok_None builtin_fits [OF rand_ok_None first_profile], of False 1 "[]"]
  by (simp add: TLSClientHello_def)

lemma TLSClientHello_small: "length TLSClientHello \<le> 65495"
  using builtin_extensions_length [OF rand_ok_None first_profile, of False 1]
  by (simp add: TLSClientHello_def length_clientHelloBody [OF rand_ok_None])

lemma sample_packet_parses: "ParsePacket wire_gp sample_packet = Inr sample_meta"
proof -
  have p: "parse_packet Linux sample_packet = Some
    \<lparr>wire_conn = sample_conn, wire_ttl = 64, wire_flags = 0x18, wire_payload = TLSClientHello\<rparr>"
    using parse_packet_built [OF sample_conn_v4 TLSClientHello_small, of Linux 64]
    by (simp add: sample_packet_def)
  then have l: "40 \<le> length sample_packet" and v: "sample_packet ! 0 = 0x45"
    by (auto simp: parse_packet_def split: if_splits)
  from l have "sample_packet \<noteq> []" by auto
  moreover have "unat (drop_bit 4 (0x45 :: byte)) = 4"
    by code_simp
  ultimately show ?thesis
    using p v by (simp add: ParsePacket_def parseIPv4_def wire_gp_def fillTransportMetaFromPacket_def
        zero_PacketMeta_def zero_TCPMeta_def sample_meta_def bit_numeral_rec)
qed

lemma sample_hello_meta:
  "hello_meta wire_gp (Normalized (DefaultConfig\<lparr>WANInterface := ''eth0''\<rparr>)) sample_packet 0 = Some sample_meta"
  using TLSClientHello_looks
  by (simp add: hello_meta_def sample_packet_parses sample_meta_def DefaultConfig_def)


lemma RandomTLSClientHello_decoy:
  assumes "rand_ok rnd" and "unat counter < 2 ^ 63"
  shows "\<exists>pkt. fst (RandomTLSClientHello rnd counter) = Some pkt \<and> LooksLikeTLSClientHello pkt \<and>
    (\<exists>host \<in> ServerName ` set clientHelloProfiles. ParseSNI pkt = Some host)"
proof -
  let ?p = "clientHelloProfiles ! (unat counter mod 3)"
  have p: "?p \<in> set clientHelloProfiles"
    by (rule nth_mem) (simp add: clientHelloProfiles_def)
  then show ?thesis
    using RandomTLSClientHello_eq [OF assms(2), of rnd]
      LooksLike_built [OF assms(1) builtin_fits [OF assms(1) p], of True _ "[]"]
      ParseSNI_hello [OF assms(1) builtin_server_name [OF p] builtin_fits [OF assms(1) p], of True _ "[]"]
    by auto
qed

subsection \<open>Properties\<close>

text \<open>
  C9. When a fake is injected: the processor never panics, and it injects exactly for an unmarked
  IPv4 TCP packet to a targeted port whose payload looks like a ClientHello, provided the flow was
  not handled in the last two minutes and fewer than \<open>MaxFlows\<close> flows were.
\<close>

theorem ProcessPacket_decision:
  assumes "gopacket_ok gp" and "proc_inv p" and "unat (hello_counter p) < 2 ^ 63"
  shows "fst (ProcessPacket gp rnd packet mark now p) \<noteq> None \<and>
    (injects (fst (ProcessPacket gp rnd packet mark now p)) \<longleftrightarrow>
      (\<exists>m. ParsePacket gp packet = Inr m \<and> mark AND PacketMark (proc_cfg p) = 0 \<and>
        Proto m = ''tcp'' \<and> IPVersion m = 4 \<and> MDstPort m \<in> set (TCPPorts (proc_cfg p)) \<and>
        LooksLikeTLSClientHello (Payload m) \<and>
        (\<forall>at. map_of (flow_entries (proc_flows p)) (FlowKey m) = Some at \<longrightarrow> now - at > 120000000000) \<and>
        int (length (filter (\<lambda>e. now - snd e \<le> 120000000000) (flow_entries (proc_flows p))))
          < MaxFlows (proc_cfg p)))"
proof -
  have adm: "admits (proc_flows p) key now \<longleftrightarrow>
      (\<forall>at. map_of (flow_entries (proc_flows p)) key = Some at \<longrightarrow> now - at > 120000000000) \<and>
      int (length (filter (\<lambda>e. now - snd e \<le> 120000000000) (flow_entries (proc_flows p))))
        < MaxFlows (proc_cfg p)" for key
    using assms(2) admits_iff [of "proc_flows p" key now] by (simp add: proc_inv_def defaultFlowTTL_def)
  show ?thesis
  proof (cases "\<exists>m. hello_meta gp (proc_cfg p) packet mark = Some m \<and> admits (proc_flows p) (FlowKey m) now")
    case True
    then obtain m where m: "hello_meta gp (proc_cfg p) packet mark = Some m" "admits (proc_flows p) (FlowKey m) now"
      by blast
    note inj = ProcessPacket_injection [OF assms(1,3) m, of rnd]
    show ?thesis
      unfolding inj using m adm [of "FlowKey m"]
      by (auto simp: injects_def hello_meta_def split: sum.splits if_splits)
  next
    case False
    then obtain r e where "fst (ProcessPacket gp rnd packet mark now p) = Some (no_action r, e)"
      using ProcessPacket_no_injection [of gp p packet mark _ now rnd] by (metis option.exhaust)
    then show ?thesis
      using False adm by (auto simp: hello_meta_def)
  qed
qed

lemma sample_processor:
  "\<exists>p. NewProcessor (DefaultConfig\<lparr>WANInterface := ''eth0''\<rparr>) 0 = Inr p \<and> proc_inv p \<and>
     proc_cfg p = Normalized (DefaultConfig\<lparr>WANInterface := ''eth0''\<rparr>) \<and>
     flow_entries (proc_flows p) = [] \<and> hello_counter p = 0"
proof -
  let ?c = "DefaultConfig\<lparr>WANInterface := ''eth0''\<rparr>"
  have t: "trim_space ''eth0'' = ''eth0''"
    by (intro trim_space_id trimmed_visible) (simp_all add: visible_def)
  have "tableNameRE ''gecit_router''"
    by (simp add: is_alpha_def is_word_char_def)
  with t have "Validate ?c = None"
    by (simp add: Validate_None sound_config_def DefaultConfig_def)
  then have "NewProcessor ?c 0 = Inr \<lparr>proc_cfg = Normalized ?c, proc_ttl = defaultFlowTTL,
      proc_flows = newFlowTable defaultFlowTTL (MaxFlows (Normalized ?c)), hello_counter = 0\<rparr>"
    by (simp add: NewProcessor_def Let_def)
  with NewProcessor_inv [OF this] show ?thesis
    by (simp add: newFlowTable_def)
qed

theorem ProcessPacket_decision_witness:
  "\<exists>p. proc_inv p \<and> injects (fst (ProcessPacket wire_gp (\<lambda>k n. None) sample_packet 0 5 p))"
proof -
  obtain p where p: "proc_inv p" "proc_cfg p = Normalized (DefaultConfig\<lparr>WANInterface := ''eth0''\<rparr>)"
    "flow_entries (proc_flows p) = []" "hello_counter p = 0"
    using sample_processor by blast
  then have "unat (hello_counter p) < 2 ^ 63" by simp
  from ProcessPacket_decision [OF wire_gp_ok p(1) this, of "\<lambda>k n. None" sample_packet 0 5]
  have "injects (fst (ProcessPacket wire_gp (\<lambda>k n. None) sample_packet 0 5 p))"
    using p TLSClientHello_looks by (simp add: sample_packet_parses sample_meta_def DefaultConfig_def)
  with p(1) show ?thesis by blast
qed

text \<open>
  What is injected: the fake travels on the connection of the queued packet (same four byte
  addresses, ports, sequence and acknowledgement numbers), and its payload is a ClientHello that
  names one of the three decoy hosts.
\<close>

theorem ProcessPacket_injects_decoy:
  assumes "gopacket_ok gp" and "rand_ok rnd" and "unat (hello_counter p) < 2 ^ 63"
    and "fst (ProcessPacket gp rnd packet mark now p) = Some (a, e)" and "Inject a"
  shows "\<exists>m. ParsePacket gp packet = Inr m \<and>
    Conn a = \<lparr>SrcIP = MSrcIP m, DstIP = MDstIP m, SrcPort = MSrcPort m, DstPort = MDstPort m,
      Seq = TSeq (TCP m), Ack = TAck (TCP m)\<rparr> \<and>
    LooksLikeTLSClientHello (FakePayload a) \<and>
    (\<exists>host \<in> {''www.google.com'', ''www.cloudflare.com'', ''www.microsoft.com''}. ParseSNI (FakePayload a) = Some host)"
proof -
  have inj: "injects (fst (ProcessPacket gp rnd packet mark now p))"
    using assms(4,5) by (simp add: injects_def)
  obtain m where m: "hello_meta gp (proc_cfg p) packet mark = Some m" "admits (proc_flows p) (FlowKey m) now"
    using ProcessPacket_state(3) [OF prod.collapse [symmetric] inj] by (auto simp: admits_def)
  have "ServerName ` set clientHelloProfiles = {''www.google.com'', ''www.cloudflare.com'', ''www.microsoft.com''}"
    by (simp add: clientHelloProfiles_def)
  then obtain pkt host where pkt: "fst (RandomTLSClientHello rnd (hello_counter p)) = Some pkt"
      "LooksLikeTLSClientHello pkt" "ParseSNI pkt = Some host"
      "host \<in> {''www.google.com'', ''www.cloudflare.com'', ''www.microsoft.com''}"
    using RandomTLSClientHello_decoy [OF assms(2,3)] by metis
  have "a = \<lparr>Inject = True,
      Conn = \<lparr>SrcIP = MSrcIP m, DstIP = MDstIP m, SrcPort = MSrcPort m, DstPort = MDstPort m,
        Seq = TSeq (TCP m), Ack = TAck (TCP m)\<rparr>,
      FakePayload = pkt, Reason = ''inject fake clienthello before queued handshake''\<rparr>"
    using ProcessPacket_injection [OF assms(1,3) m, of rnd] assms(4) unfolding pkt(1) by simp
  then have "Conn a = \<lparr>SrcIP = MSrcIP m, DstIP = MDstIP m, SrcPort = MSrcPort m, DstPort = MDstPort m,
      Seq = TSeq (TCP m), Ack = TAck (TCP m)\<rparr>" "FakePayload a = pkt"
    by simp_all
  moreover have "ParsePacket gp packet = Inr m"
    using m(1) by (auto simp: hello_meta_def split: sum.splits if_splits)
  ultimately show ?thesis
    using pkt(2-4) by blast
qed

theorem ProcessPacket_injects_decoy_witness:
  "\<exists>p a e. fst (ProcessPacket wire_gp (\<lambda>k n. None) sample_packet 0 5 p) = Some (a, e) \<and>
     Conn a = sample_conn \<and> LooksLikeTLSClientHello (FakePayload a)"
proof -
  obtain p where p: "proc_inv p" "proc_cfg p = Normalized (DefaultConfig\<lparr>WANInterface := ''eth0''\<rparr>)"
    "flow_entries (proc_flows p) = []" "hello_counter p = 0"
    using sample_processor by blast
  have c: "unat (hello_counter p) < 2 ^ 63"
    using p(4) by simp
  have h: "hello_meta wire_gp (proc_cfg p) sample_packet 0 = Some sample_meta"
    unfolding p(2) by (rule sample_hello_meta)
  have adm: "admits (proc_flows p) (FlowKey sample_meta) 5"
    using p(1,3) by (subst admits_iff) (auto simp: proc_inv_def)
  note inj = ProcessPacket_injection [OF wire_gp_ok c h adm, of "\<lambda>k n. None"]
  obtain a where a: "fst (ProcessPacket wire_gp (\<lambda>k n. None) sample_packet 0 5 p) = Some (a, None)" "Inject a"
    using inj by auto
  from ProcessPacket_injects_decoy [OF wire_gp_ok rand_ok_None c a]
  have "Conn a = sample_conn" "LooksLikeTLSClientHello (FakePayload a)"
    by (auto simp: sample_packet_parses sample_meta_def)
  with a show ?thesis by blast
qed


text \<open>
  C10. One fake per flow: over any run of the processor on packets that arrive in time order, two
  injections for packets of the same flow are more than two minutes apart.
\<close>

theorem injections_spaced:
  assumes "proc_inv p" and "ProcessPackets gp rnd evs p = (ds, p')"
    and "sorted (map (\<lambda>(packet, mark, now). now) evs)" and "i < j" and "j < length evs"
    and "injects (ds ! i)" and "injects (ds ! j)"
    and "evs ! i = (packet1, mark1, now1)" and "ParsePacket gp packet1 = Inr m1"
    and "evs ! j = (packet2, mark2, now2)" and "ParsePacket gp packet2 = Inr m2"
    and "FlowKey m1 = FlowKey m2"
  shows "now2 - now1 > 120000000000"
proof -
  let ?evs = "map (gate_event gp (proc_cfg p)) evs"
  have key: "fst (gate_event gp (proc_cfg p) (pk, mk, now)) = Some (FlowKey m)"
    if "fst (gate_event gp (proc_cfg p) (pk, mk, now)) \<noteq> None" "ParsePacket gp pk = Inr m" for pk mk now m
    using that by (auto simp: gate_event_def hello_meta_def split: if_splits)
  have snd_event: "snd \<circ> gate_event gp (proc_cfg p) = (\<lambda>(packet, mark, now). now)"
    by (auto simp: gate_event_def)
  have time: "snd (gate_event gp (proc_cfg p) (pk, mk, now)) = now" for pk mk now
    by (simp add: gate_event_def)
  note gate = ProcessPackets_gate [OF assms(2)]
  have "flow_ttl (proc_flows p) < snd (?evs ! j) - snd (?evs ! i)"
  proof (rule flowgate.run_spaced)
    show "flow_inv (proc_flows p)"
      using assms(1) by (simp add: proc_inv_def)
    show "sorted (map snd ?evs)"
      using assms(3) by (simp add: snd_event)
    show "i < j" "j < length ?evs"
      using assms(4,5) by simp_all
    show "fst (flowgate.run ?evs (proc_flows p)) ! i" "fst (flowgate.run ?evs (proc_flows p)) ! j"
      using gate assms(4-7) by auto
    have "i < length evs"
      using assms(4,5) by simp
    then have "fst (gate_event gp (proc_cfg p) (evs ! i)) \<noteq> None" "fst (gate_event gp (proc_cfg p) (evs ! j)) \<noteq> None"
      using gate assms(5-7) by blast+
    then show "fst (?evs ! i) = Some (FlowKey m1)" "fst (?evs ! j) = Some (FlowKey m1)"
      using key [OF _ assms(9), of mark1 now1] key [OF _ assms(11), of mark2 now2] \<open>i < length evs\<close>
      by (simp_all add: assms(5,8,10,12))
  qed
  then show ?thesis
    using assms by (simp add: time proc_inv_def defaultFlowTTL_def)
qed

lemma ProcessPacket_admitted:
  assumes "proc_inv p" and "unat (hello_counter p) < 2 ^ 63" and "proc_cfg p = Normalized (DefaultConfig\<lparr>WANInterface := ''eth0''\<rparr>)"
    and "\<forall>e \<in> set (flow_entries (proc_flows p)). now - snd e > 120000000000"
  shows "injects (fst (ProcessPacket wire_gp (\<lambda>k n. None) sample_packet 0 now p))"
    and "flow_entries (proc_flows (snd (ProcessPacket wire_gp (\<lambda>k n. None) sample_packet 0 now p))) = [(FlowKey sample_meta, now)]"
    and "hello_counter (snd (ProcessPacket wire_gp (\<lambda>k n. None) sample_packet 0 now p)) = hello_counter p + 1"
proof -
  have h: "hello_meta wire_gp (proc_cfg p) sample_packet 0 = Some sample_meta"
    unfolding assms(3) by (rule sample_hello_meta)
  have live: "live_entries now (proc_flows p) = []"
    using assms(1,4) by (auto simp: live_entries_def proc_inv_def defaultFlowTTL_def filter_empty_conv)
  have m: "MarkOnce (FlowKey sample_meta) now (proc_flows p)
      = (True, (proc_flows p)\<lparr>flow_entries := [(FlowKey sample_meta, now)]\<rparr>)"
    using assms(1) by (simp add: MarkOnce_eq live proc_inv_def)
  then have adm: "admits (proc_flows p) (FlowKey sample_meta) now"
    by (simp add: admits_def)
  show "injects (fst (ProcessPacket wire_gp (\<lambda>k n. None) sample_packet 0 now p))"
    using ProcessPacket_injection [OF wire_gp_ok assms(2) h adm, of "\<lambda>k n. None"] by (simp add: injects_def)
  note pk = ProcessPacket_Some [OF h, of "\<lambda>k n. None" now] packetToConnInfo_v4 [OF hello_meta_v4(1) [OF wire_gp_ok h]]
  show "flow_entries (proc_flows (snd (ProcessPacket wire_gp (\<lambda>k n. None) sample_packet 0 now p))) = [(FlowKey sample_meta, now)]"
    "hello_counter (snd (ProcessPacket wire_gp (\<lambda>k n. None) sample_packet 0 now p)) = hello_counter p + 1"
    using RandomTLSClientHello_eq [OF assms(2), of "\<lambda>k n. None"] by (simp_all add: pk m)
qed

theorem injections_spaced_witness:
  "\<exists>p ds p'. ProcessPackets wire_gp (\<lambda>k n. None) [(sample_packet, 0, 5), (sample_packet, 0, 200000000000)] p = (ds, p') \<and>
     injects (ds ! 0) \<and> injects (ds ! 1) \<and> 200000000000 - 5 > (120000000000 :: int)"
proof -
  let ?gp = wire_gp and ?r = "\<lambda>k n. None :: bytes option"
  obtain p where p: "proc_inv p" "proc_cfg p = Normalized (DefaultConfig\<lparr>WANInterface := ''eth0''\<rparr>)"
    "flow_entries (proc_flows p) = []" "hello_counter p = 0"
    using sample_processor by blast
  obtain d1 q where d1: "ProcessPacket ?gp ?r sample_packet 0 5 p = (d1, q)" by fastforce
  obtain d2 q' where d2: "ProcessPacket ?gp ?r sample_packet 0 200000000000 q = (d2, q')" by fastforce
  have run: "ProcessPackets ?gp ?r [(sample_packet, 0, 5), (sample_packet, 0, 200000000000)] p = ([d1, d2], q')"
    by (simp add: d1 d2)
  have i1: "injects d1" and q: "flow_entries (proc_flows q) = [(FlowKey sample_meta, 5)]" "hello_counter q = 1"
    using ProcessPacket_admitted [OF p(1) _ p(2), of 5] p(3,4) by (simp_all add: d1)
  have i2: "injects d2"
    using ProcessPacket_admitted(1) [of q 200000000000] proc_inv_step [OF p(1) d1] ProcessPacket_state(1) [OF d1] p(2) q
    by (simp add: d2)
  have "200000000000 - 5 > (120000000000 :: int)"
    by (rule injections_spaced [OF p(1) run, of 0 1 sample_packet 0 5 sample_meta sample_packet 0 200000000000 sample_meta])
      (simp_all add: i1 i2 sample_packet_parses)
  with run i1 i2 show ?thesis
    by (intro exI [of _ p] exI [of _ "[d1, d2]"] exI [of _ q']) simp
qed

text \<open>
  The flow table is bounded: a processor made by \<open>NewProcessor\<close> never remembers more than
  \<open>MaxFlows\<close> flows, whatever packets arrive at whatever times.
\<close>

theorem flow_table_bounded:
  assumes "NewProcessor c counter = Inr p" and "ProcessPackets gp rnd evs p = (ds, p')"
  shows "int (length (flow_entries (proc_flows p'))) \<le> MaxFlows (Normalized c) \<and>
    distinct (map fst (flow_entries (proc_flows p')))"
proof -
  have "proc_inv p'" and "proc_cfg p' = Normalized c"
    using NewProcessor_inv [OF assms(1)] proc_inv_run [OF _ assms(2)] ProcessPackets_gate [OF assms(2)]
    by simp_all
  then show ?thesis
    by (simp add: proc_inv_def flow_inv_def del: Normalized_fields)
qed

theorem flow_table_bounded_witness:
  "\<exists>p ds p'. ProcessPackets wire_gp (\<lambda>k n. None) [(sample_packet, 0, 5)] p = (ds, p') \<and>
     int (length (flow_entries (proc_flows p'))) \<le> 4096"
proof -
  obtain p where p: "NewProcessor (DefaultConfig\<lparr>WANInterface := ''eth0''\<rparr>) 0 = Inr p"
    using sample_processor by blast
  obtain ds p' where r: "ProcessPackets wire_gp (\<lambda>k n. None) [(sample_packet, 0, 5)] p = (ds, p')" by fastforce
  from flow_table_bounded [OF p r] r show ?thesis
    by (auto simp: DefaultConfig_def)
qed

text \<open>
  A flow key identifies a flow: two IPv4 packets have the same key exactly if they agree on
  protocol, addresses and ports, so gating one connection never suppresses another.
\<close>

theorem FlowKey_identifies_flow:
  assumes "v4_meta m" and "v4_meta n"
  shows "FlowKey m = FlowKey n \<longleftrightarrow>
    Proto m = Proto n \<and> MSrcIP m = MSrcIP n \<and> MDstIP m = MDstIP n \<and>
    MSrcPort m = MSrcPort n \<and> MDstPort m = MDstPort n"
  using assms by (rule FlowKey_inject)

theorem FlowKey_identifies_flow_witness:
  "FlowKey sample_meta \<noteq> FlowKey (sample_meta\<lparr>MSrcPort := 1234, MDstPort := 5443\<rparr>)"
  using FlowKey_identifies_flow [of sample_meta "sample_meta\<lparr>MSrcPort := 1234, MDstPort := 5443\<rparr>"]
  by (simp add: v4_meta_def sample_meta_def)

end
