(* ===== verification/FakeWire.thy ===== *)
theory FakeWire
  imports Rawsock Sni
begin

text \<open>
  What the three data paths (NFQUEUE, eBPF events, TUN) share: a fake is the ClientHello of
  \<open>RandomTLSClientHello\<close> handed to \<open>SendFake\<close>. The lemmas say that this message fits one IP packet,
  that it names a decoy host, and what a receiver parses from the transmission of a raw socket.
\<close>

definition decoy_hosts :: "string set" where
  "decoy_hosts = {''www.google.com'', ''www.cloudflare.com'', ''www.microsoft.com''}"

lemma decoy_hosts_profiles: "decoy_hosts = ServerName ` set clientHelloProfiles"
  by (auto simp: decoy_hosts_def clientHelloProfiles_def)

lemma built_hello_small:
  assumes "rand_ok rnd" and "unat counter < 2 ^ 63" and "fst (RandomTLSClientHello rnd counter) = Some pkt"
  shows "length pkt \<le> 65495"
proof -
  let ?p = "clientHelloProfiles ! (unat counter mod 3)"
  have "?p \<in> set clientHelloProfiles"
    by (rule nth_mem) (simp add: clientHelloProfiles_def)
  from builtin_extensions_length [OF assms(1) this, of True "of_nat (unat counter mod 3 + 1)"] show ?thesis
    using assms(3) RandomTLSClientHello_eq [OF assms(2), of rnd]
    by (auto simp: length_clientHelloBody [OF assms(1)])
qed

lemma random_hello:
  assumes "rand_ok rnd" and "unat counter < 2 ^ 63"
  obtains pkt host where "RandomTLSClientHello rnd counter = (Some pkt, counter + 1)"
    "length pkt \<le> 65495" "host \<in> decoy_hosts" "ParseSNI pkt = Some host"
proof -
  let ?p = "clientHelloProfiles ! (unat counter mod 3)"
  have p: "?p \<in> set clientHelloProfiles"
    by (rule nth_mem) (simp add: clientHelloProfiles_def)
  obtain pkt where pkt: "RandomTLSClientHello rnd counter = (Some pkt, counter + 1)"
    "pkt = buildClientHello ?p True rnd (of_nat (unat counter mod 3 + 1))"
    using RandomTLSClientHello_eq [OF assms(2), of rnd] by blast
  have "ParseSNI pkt = Some (ServerName ?p)"
    using ParseSNI_hello [OF assms(1) builtin_server_name [OF p] builtin_fits [OF assms(1) p], of True _ "[]"]
    by (simp add: pkt(2))
  then show ?thesis
    using that [OF pkt(1) built_hello_small [OF assms], of "ServerName ?p"] p pkt(1)
    by (simp add: decoy_hosts_profiles)
qed

subsection \<open>What every raw socket promises\<close>

text \<open>
  The contract of the interface \<open>RawSocket\<close> (pkg/rawsock/rawsock.go) the data paths rely on: what
  \<open>SendFake\<close> puts on the wire is the packet of \<open>BuildPacket\<close> in the platform's byte order. \<open>wire\<close> reads
  the IP packet out of a transmission.
\<close>

locale raw_socket =
  fixes send :: "ConnInfo \<Rightarrow> bytes \<Rightarrow> int \<Rightarrow> transmission"
    and os :: platform
    and wire :: "transmission \<Rightarrow> bytes"
  assumes wire_send: "wire (send conn payload ttl) = BuildPacket os conn payload ttl"
begin

lemma parsed:
  assumes "v4_conn conn" and "length payload \<le> 65495"
  shows "parse_packet os (wire (send conn payload ttl)) = Some
    \<lparr>wire_conn = conn\<lparr>SrcIP := to4 (SrcIP conn), DstIP := to4 (DstIP conn)\<rparr>,
     wire_ttl = of_int ttl, wire_flags = 0x18, wire_payload = payload\<rparr>"
  unfolding wire_send by (rule parse_packet_built [OF assms])

end

text \<open>The IP packet of a transmission, and the byte order its header fields have.\<close>

fun ip_packet :: "transmission \<Rightarrow> bytes" where
  "ip_packet (Sendto a p) = p"
| "ip_packet (WritePacketData f) = drop 14 f"

fun socket_os :: "RawSocket \<Rightarrow> platform" where
  "socket_os (platformRawSocket os) = os"
| "socket_os (pcapRawSocket smac dmac) = Windows"

lemma blit_last: "length dst = i + length src \<Longrightarrow> drop i (blit dst i (length dst) src) = src"
  by (simp add: blit_def Let_def)

lemma drop_ethernet_frame: "drop 14 (ethernet_frame smac dmac p) = p"
  unfolding ethernet_frame_def Let_def by (rule blit_last) simp

interpretation rs: raw_socket "SendFake sock" "socket_os sock" ip_packet for sock
  by unfold_locales (cases sock; simp add: drop_ethernet_frame)

text \<open>
  The address a transmission is sent to: the destination \<open>Sendto\<close> is given, or for a frame its
  EtherType, which says that an IPv4 packet follows.
\<close>

fun addressed :: "transmission \<Rightarrow> ConnInfo \<Rightarrow> bool" where
  "addressed (Sendto a p) conn \<longleftrightarrow> a = to4 (DstIP conn)"
| "addressed (WritePacketData f) conn \<longleftrightarrow> take 2 (drop 12 f) = [0x08, 0x00]"

lemma blit_take: "m \<le> i \<Longrightarrow> i \<le> length dst \<Longrightarrow> take m (blit dst i j src) = take m dst"
  by (simp add: blit_def Let_def)

lemma take_two_set: "14 \<le> length f \<Longrightarrow> take 2 (drop 12 (f[12 := a, 13 := b])) = [a, b]"
  by (simp add: drop_update_swap take_Suc_conv_app_nth numeral_2_eq_2)

lemma ethernet_type: "take 2 (drop 12 (ethernet_frame smac dmac p)) = [0x08, 0x00]"
  by (simp add: ethernet_frame_def Let_def take_drop blit_take) (simp add: drop_take take_two_set)

lemma addressed_SendFake: "v4_conn conn \<Longrightarrow> addressed (SendFake sock conn payload ttl) conn"
  using length_to4 [of "DstIP conn"] by (cases sock) (simp_all add: ethernet_type blit_def v4_conn_def Let_def)

lemma sent_addr_SendFake:
  "v4_conn conn \<Longrightarrow> sent_addr (SendFake (platformRawSocket os) conn payload ttl) = to4 (DstIP conn)"
  using addressed_SendFake [of conn "platformRawSocket os"] by simp

text \<open>A transmission that carries a decoy on a connection with a TTL, as a receiver sees it.\<close>

definition decoy_on :: "platform \<Rightarrow> ConnInfo \<Rightarrow> int \<Rightarrow> transmission \<Rightarrow> bool" where
  "decoy_on os conn ttl tx \<longleftrightarrow>
     addressed tx conn \<and>
     (case parse_packet os (ip_packet tx) of
        None \<Rightarrow> False
      | Some w \<Rightarrow> wire_conn w = conn\<lparr>SrcIP := to4 (SrcIP conn), DstIP := to4 (DstIP conn)\<rparr> \<and>
          wire_ttl w = of_int ttl \<and> wire_flags w = 0x18 \<and>
          (case ParseSNI (wire_payload w) of Some host \<Rightarrow> host \<in> decoy_hosts | None \<Rightarrow> False))"

lemma decoy_on_parsed:
  "decoy_on os conn ttl tx \<Longrightarrow>
     \<exists>w. parse_packet os (ip_packet tx) = Some w \<and> DstIP (wire_conn w) = to4 (DstIP conn)"
  by (auto simp: decoy_on_def split: option.splits)

lemma decoy_on_SendFake:
  assumes "v4_conn conn" and "length pkt \<le> 65495" and "ParseSNI pkt = Some host" and "host \<in> decoy_hosts"
  shows "decoy_on (socket_os sock) conn ttl (SendFake sock conn pkt ttl)"
  using rs.parsed [OF assms(1,2), of sock ttl] addressed_SendFake [OF assms(1), of sock pkt ttl] assms(3,4)
  by (simp add: decoy_on_def)

end
