(* ===== verification/Soundness.thy ===== *)
theory Soundness
  imports Prelude
begin

text \<open>
  Soundness of a component that serves one input after the other and may panic: \<open>serve\<close> runs it over a
  list of inputs and stops at the first panic (\<open>None\<close>). The locale \<open>sound_machine\<close> states progress and
  preservation: in a well-formed state an acceptable input is served without a panic, the state stays
  well-formed, what is emitted satisfies a relation to the input, and the budget (the room left in a
  counter) shrinks by one at most. The NFQUEUE runner (theory RouterRunner) and the TUN handler (theory
  TunHandler) are its instances.
\<close>

fun serve :: "('i \<Rightarrow> 's \<Rightarrow> 'o list option \<times> 's) \<Rightarrow> 'i list \<Rightarrow> 's \<Rightarrow> 'o list list option \<times> 's" where
  "serve step [] s = (Some [], s)"
| "serve step (i # is) s =
     (case step i s of
        (None, s) \<Rightarrow> (None, s)
      | (Some out, s) \<Rightarrow>
          (case serve step is s of
             (None, s) \<Rightarrow> (None, s)
           | (Some outs, s) \<Rightarrow> (Some (out # outs), s)))"

locale sound_machine =
  fixes step :: "'i \<Rightarrow> 's \<Rightarrow> 'o list option \<times> 's"
    and accepts :: "'i \<Rightarrow> bool"
    and ok :: "'s \<Rightarrow> bool"
    and budget :: "'s \<Rightarrow> nat"
    and emits :: "'i \<Rightarrow> 'o list \<Rightarrow> bool"
  assumes progress: "ok s \<Longrightarrow> accepts i \<Longrightarrow> 0 < budget s \<Longrightarrow>
    \<exists>out s'. step i s = (Some out, s') \<and> ok s' \<and> budget s \<le> Suc (budget s') \<and> emits i out"
begin

lemma serve_sound:
  "ok s \<Longrightarrow> \<forall>i \<in> set is. accepts i \<Longrightarrow> length is \<le> budget s \<Longrightarrow>
   \<exists>outs s'. serve step is s = (Some outs, s') \<and> ok s' \<and> budget s \<le> length is + budget s' \<and> list_all2 emits is outs"
proof (induction "is" arbitrary: s)
  case (Cons i "is")
  then obtain out s1 where 1: "step i s = (Some out, s1)" "ok s1" "budget s \<le> Suc (budget s1)" "emits i out"
    using progress [of s i] by auto
  with Cons.prems have "length is \<le> budget s1" by simp
  with Cons.IH [OF 1(2)] Cons.prems(2) obtain outs s2 where
    "serve step is s1 = (Some outs, s2)" "ok s2" "budget s1 \<le> length is + budget s2" "list_all2 emits is outs"
    by auto
  with 1 show ?case by simp
qed simp

end

text \<open>Sums over related lists: a quantity each output has, added up.\<close>

lemma list_all2_concat:
  "list_all2 (\<lambda>i out. f out = g i) is outs \<Longrightarrow> (\<And>xs ys. f (xs @ ys) = f xs @ f ys) \<Longrightarrow> f [] = [] \<Longrightarrow>
   f (concat outs) = concat (map g is)"
  by (induction "is" outs rule: list_all2_induct) simp_all

lemma list_all2_sum:
  "list_all2 (\<lambda>i out. f out = g i) is outs \<Longrightarrow> (\<And>xs ys. f (xs @ ys) = f xs + f ys) \<Longrightarrow> f [] = (0 :: nat) \<Longrightarrow>
   f (concat outs) = sum_list (map g is)"
  by (induction "is" outs rule: list_all2_induct) simp_all

end
