(* ===== verification/RouterRunner.thy ===== *)
theory RouterRunner
  imports Processor FakeWire Soundness
begin

text \<open>
  Package router, the Linux data path (pkg/router/runner_linux.go): the NFQUEUE runner opens a marked
  raw socket and a queue, and its callback \<open>handlePacket\<close> sends the fake of an injection before it
  accepts the queued packet. Calls into the system and into package nfqueue are effects; their results
  are arguments. What is proved: every queued packet gets exactly one verdict, accept, after the fake;
  the fake is the decoy ClientHello on the queued packet's connection; sockets and queues are released.
\<close>

subsection \<open>State and effects\<close>

record Attribute =
  PacketID :: "u32 option"
  AttrMark :: "u32 option"
  AttrPayload :: "bytes option"

datatype effect =
    SetMark u32
  | QueueOpen u16 u32
  | QueueClose
  | SockClose
  | Register
  | Send transmission
  | SetVerdictAccept u32

text \<open>A socket is held in \<open>rawSock\<close>, \<open>nfQueue\<close> tells whether the queue is held; nil is \<open>None\<close> and \<open>False\<close>.\<close>

record nfqRunner =
  run_cfg :: Config
  run_processor :: Processor
  rawSock :: "RawSocket option"
  nfQueue :: bool

text \<open>
  The results of the calls one \<open>Start\<close> or \<open>Stop\<close> makes, an error being a string. \<open>env_marker\<close>
  answers the type assertion \<open>rs.(socketMarker)\<close>.
\<close>

record run_env =
  env_new :: "string + RawSocket"
  env_marker :: bool
  env_setMark :: "string err"
  env_open :: "string err"
  env_register :: "string err"
  env_closeQueue :: "string err"
  env_closeSock :: "string err"

definition newNFQRunner :: "Config \<Rightarrow> u64 \<Rightarrow> config_error + nfqRunner" where
  "newNFQRunner c counter =
     (case NewProcessor c counter of
        Inl err \<Rightarrow> Inl err
      | Inr processor \<Rightarrow> Inr \<lparr>run_cfg = Normalized c, run_processor = processor, rawSock = None, nfQueue = False\<rparr>)"

definition openRawSocket :: "run_env \<Rightarrow> nfqRunner \<Rightarrow> string err \<times> effect list \<times> nfqRunner" where
  "openRawSocket env r =
     (case env_new env of
        Inl err \<Rightarrow> (Some err, [], r)
      | Inr rs \<Rightarrow>
          if env_marker env then
            (case env_setMark env of
               Some err \<Rightarrow> (Some err, [SetMark (PacketMark (run_cfg r)), SockClose], r)
             | None \<Rightarrow> (None, [SetMark (PacketMark (run_cfg r))], r\<lparr>rawSock := Some rs\<rparr>))
          else (None, [], r\<lparr>rawSock := Some rs\<rparr>))"

definition StartRunner :: "run_env \<Rightarrow> nfqRunner \<Rightarrow> string err \<times> effect list \<times> nfqRunner" where
  "StartRunner env r =
     (let (err, effs, r) = openRawSocket env r in
      case err of
        Some e \<Rightarrow> (Some e, effs, r)
      | None \<Rightarrow>
          let effs = effs @ [QueueOpen (QueueNum (run_cfg r)) (of_int (MaxFlows (run_cfg r)))] in
          case env_open env of
            Some e \<Rightarrow> (Some e, effs @ [SockClose], r\<lparr>rawSock := None\<rparr>)
          | None \<Rightarrow> (env_register env, effs @ [Register], r\<lparr>nfQueue := True\<rparr>))"

definition StopRunner :: "run_env \<Rightarrow> nfqRunner \<Rightarrow> string err \<times> effect list \<times> nfqRunner" where
  "StopRunner env r =
     (let (firstErr, effs, r) =
            (if nfQueue r then (env_closeQueue env, [QueueClose], r\<lparr>nfQueue := False\<rparr>) else (None, [], r));
          (firstErr, effs, r) =
            (if rawSock r \<noteq> None
             then ((if firstErr = None then env_closeSock env else firstErr), effs @ [SockClose], r\<lparr>rawSock := None\<rparr>)
             else (firstErr, effs, r))
      in (firstErr, effs, r))"

text \<open>
  \<open>accept\<close> and the callback. \<open>None\<close> is a panic: a nil queue or socket, or the panic of the
  ClientHello generator. An error of \<open>SendFake\<close> or \<open>SetVerdict\<close> is only logged, so their results do
  not appear. The callback returns 0 in every case.
\<close>

definition accept :: "nfqRunner \<Rightarrow> u32 \<Rightarrow> effect list option" where
  "accept r pid = (if nfQueue r then Some [SetVerdictAccept pid] else None)"

definition handlePacket ::
  "gopacket \<Rightarrow> (nat \<Rightarrow> nat \<Rightarrow> bytes option) \<Rightarrow> int \<Rightarrow> Attribute \<Rightarrow> nfqRunner \<Rightarrow> effect list option \<times> nfqRunner"
where
  "handlePacket gp rnd now attr r =
     (case PacketID attr of
        None \<Rightarrow> (Some [], r)
      | Some pid \<Rightarrow>
          (case AttrPayload attr of
             None \<Rightarrow> (accept r pid, r)
           | Some payload \<Rightarrow>
               let mark = (case AttrMark attr of Some m \<Rightarrow> m | None \<Rightarrow> 0);
                   (decision, processor) = ProcessPacket gp rnd payload mark now (run_processor r);
                   r = r\<lparr>run_processor := processor\<rparr>
               in (do {
                     (action, err) \<leftarrow> decision;
                     sent \<leftarrow> (if Inject action
                       then (case rawSock r of
                         None \<Rightarrow> None
                       | Some sock \<Rightarrow>
                           Some [Send (SendFake sock (Conn action) (FakePayload action) (FakeTTL (run_cfg r)))])
                       else Some []);
                     verdict \<leftarrow> accept r pid;
                     Some (sent @ verdict)
                   }, r)))"

subsection \<open>Lemmas\<close>

text \<open>A runner that has been started and not stopped, with its processor below the counter's limit.\<close>

definition running :: "nfqRunner \<Rightarrow> bool" where
  "running r \<longleftrightarrow> nfQueue r \<and> rawSock r \<noteq> None \<and> proc_inv (run_processor r) \<and>
     unat (hello_counter (run_processor r)) < 2 ^ 63"

definition opened :: "effect list \<Rightarrow> nfqRunner \<Rightarrow> nat" where
  "opened effs r = (if rawSock r = None then 0 else 1) + (if nfQueue r then 1 else 0)"

lemma ProcessPacket_returns:
  assumes "gopacket_ok gp" and "unat (hello_counter p) < 2 ^ 63"
  shows "\<exists>a e. fst (ProcessPacket gp rnd packet mark now p) = Some (a, e)"
proof (cases "\<exists>m. hello_meta gp (proc_cfg p) packet mark = Some m \<and> admits (proc_flows p) (FlowKey m) now")
  case True
  then show ?thesis
    using ProcessPacket_injection [OF assms] by blast
next
  case False
  then show ?thesis
    using ProcessPacket_no_injection [of gp p packet mark _ now rnd] by (metis option.exhaust)
qed

lemma handlePacket_Some:
  assumes "gopacket_ok gp" and "running r" and "PacketID attr = Some pid" and "AttrPayload attr = Some payload"
  obtains a e sock where
    "fst (ProcessPacket gp rnd payload (case AttrMark attr of Some m \<Rightarrow> m | None \<Rightarrow> 0) now (run_processor r)) = Some (a, e)"
    "rawSock r = Some sock"
    "fst (handlePacket gp rnd now attr r) = Some
       ((if Inject a then [Send (SendFake sock (Conn a) (FakePayload a) (FakeTTL (run_cfg r)))] else []) @
        [SetVerdictAccept pid])"
proof -
  let ?mark = "case AttrMark attr of Some m \<Rightarrow> m | None \<Rightarrow> 0"
  from assms(2) obtain sock where sock: "rawSock r = Some sock"
    by (auto simp: running_def)
  from assms(1,2) obtain a e where
    d: "fst (ProcessPacket gp rnd payload ?mark now (run_processor r)) = Some (a, e)"
    using ProcessPacket_returns [of gp "run_processor r" rnd payload ?mark now] by (auto simp: running_def)
  then obtain q where q: "ProcessPacket gp rnd payload ?mark now (run_processor r) = (Some (a, e), q)"
    by (cases "ProcessPacket gp rnd payload ?mark now (run_processor r)") auto
  show ?thesis
    by (rule that [OF d sock])
      (use assms sock in \<open>simp add: handlePacket_def q accept_def running_def\<close>)
qed

lemma injected_action:
  assumes "gopacket_ok gp" and "rand_ok rnd" and "unat (hello_counter p) < 2 ^ 63"
    and "fst (ProcessPacket gp rnd packet mark now p) = Some (a, e)" and "Inject a"
  obtains m host where "ParsePacket gp packet = Inr m" and "v4_meta m"
    and "Conn a = \<lparr>SrcIP = MSrcIP m, DstIP = MDstIP m, SrcPort = MSrcPort m, DstPort = MDstPort m,
      Seq = TSeq (TCP m), Ack = TAck (TCP m)\<rparr>"
    and "length (FakePayload a) \<le> 65495"
    and "host \<in> ServerName ` set clientHelloProfiles" and "ParseSNI (FakePayload a) = Some host"
proof -
  have "injects (fst (ProcessPacket gp rnd packet mark now p))"
    using assms(4,5) by (simp add: injects_def)
  then obtain m where m: "hello_meta gp (proc_cfg p) packet mark = Some m" "admits (proc_flows p) (FlowKey m) now"
    using ProcessPacket_state(3) [OF prod.collapse [symmetric], of gp rnd packet mark now p] by (auto simp: admits_def)
  obtain pkt host where pkt: "fst (RandomTLSClientHello rnd (hello_counter p)) = Some pkt"
      "host \<in> ServerName ` set clientHelloProfiles" "ParseSNI pkt = Some host"
    using RandomTLSClientHello_decoy [OF assms(2,3)] by blast
  have a: "a = \<lparr>Inject = True,
      Conn = \<lparr>SrcIP = MSrcIP m, DstIP = MDstIP m, SrcPort = MSrcPort m, DstPort = MDstPort m,
        Seq = TSeq (TCP m), Ack = TAck (TCP m)\<rparr>,
      FakePayload = pkt, Reason = ''inject fake clienthello before queued handshake''\<rparr>"
    using ProcessPacket_injection [OF assms(1,3) m, of rnd] assms(4) unfolding pkt(1) by simp
  have "ParsePacket gp packet = Inr m"
    using m(1) by (auto simp: hello_meta_def split: sum.splits if_splits)
  then show ?thesis
    by (rule that [OF _ hello_meta_v4(1) [OF assms(1) m(1)] _ _ pkt(2)])
      (simp_all add: a pkt(3) built_hello_small [OF assms(2,3) pkt(1)])
qed

text \<open>The runner over the messages of its queue: the time of each callback and the message.\<close>

definition handle_message :: "gopacket \<Rightarrow> (nat \<Rightarrow> nat \<Rightarrow> bytes option) \<Rightarrow> int \<times> Attribute \<Rightarrow> nfqRunner \<Rightarrow> effect list option \<times> nfqRunner" where
  "handle_message gp rnd m r = handlePacket gp rnd (fst m) (snd m) r"

text \<open>One callback's effects: at most one fake, then the verdict; none without an id.\<close>

definition answers :: "int \<times> Attribute \<Rightarrow> effect list \<Rightarrow> bool" where
  "answers m effs \<longleftrightarrow>
     (case PacketID (snd m) of
        None \<Rightarrow> effs = []
      | Some pid \<Rightarrow> \<exists>sent. effs = sent @ [SetVerdictAccept pid] \<and> length sent \<le> 1 \<and> (\<forall>x \<in> set sent. \<exists>tx. x = Send tx))"

definition hello_budget :: "nfqRunner \<Rightarrow> nat" where
  "hello_budget r = 2 ^ 63 - unat (hello_counter (run_processor r))"

lemma answers_single: "PacketID attr = Some pid \<Longrightarrow> answers (now, attr) ((if b then [Send tx] else []) @ [SetVerdictAccept pid])"
  by (auto simp: answers_def)

lemma handlePacket_answers:
  assumes "gopacket_ok gp" and "running r"
  shows "\<exists>effs. fst (handlePacket gp rnd now attr r) = Some effs \<and> answers (now, attr) effs"
proof (cases "PacketID attr")
  case None
  then show ?thesis by (simp add: handlePacket_def answers_def)
next
  case pid: (Some pid)
  show ?thesis
  proof (cases "AttrPayload attr")
    case None
    with pid assms(2) show ?thesis by (simp add: handlePacket_def accept_def running_def answers_def)
  next
    case (Some payload)
    from handlePacket_Some [OF assms pid this, of rnd now] show ?thesis
      using answers_single [OF pid] by metis
  qed
qed

text \<open>What a message changes: the flow table and the counter of the decoys, which grows by one at most.\<close>

lemma ProcessPacket_counter:
  assumes "ProcessPacket gp rnd packet mark now p = (d, p')" and "unat (hello_counter p) < 2 ^ 63"
  shows "unat (hello_counter p') \<le> Suc (unat (hello_counter p))"
proof (cases "hello_meta gp (proc_cfg p) packet mark")
  case None
  with ProcessPacket_None [OF None, of rnd now] assms(1) show ?thesis by auto
next
  case (Some m)
  have "unat (hello_counter p + 1) = Suc (unat (hello_counter p))"
    using assms(2) by (simp add: unat_word_ariths)
  with assms(1) Some show ?thesis
    unfolding ProcessPacket_Some [OF Some] Let_def
    by (auto simp: RandomTLSClientHello_eq [OF assms(2)] split: prod.splits if_splits option.splits)
qed

lemma handlePacket_state:
  assumes "handlePacket gp rnd now attr r = (out, r')" and "proc_inv (run_processor r)"
    and "unat (hello_counter (run_processor r)) < 2 ^ 63"
  shows "nfQueue r' = nfQueue r" and "rawSock r' = rawSock r" and "run_cfg r' = run_cfg r"
    and "proc_inv (run_processor r')" and "hello_budget r \<le> Suc (hello_budget r')"
proof -
  have "r' = r \<or> (\<exists>payload mark d q. ProcessPacket gp rnd payload mark now (run_processor r) = (d, q) \<and>
      r' = r\<lparr>run_processor := q\<rparr>)"
    using assms(1) by (auto simp: handlePacket_def Let_def split: option.splits prod.splits)
  then consider "r' = r" | payload mark d q where "ProcessPacket gp rnd payload mark now (run_processor r) = (d, q)"
      "r' = r\<lparr>run_processor := q\<rparr>"
    by blast
  note cases = this
  show "nfQueue r' = nfQueue r" "rawSock r' = rawSock r" "run_cfg r' = run_cfg r"
    by (cases rule: cases; simp)+
  show "proc_inv (run_processor r')"
    by (cases rule: cases) (use assms(2) proc_inv_step in auto)
  show "hello_budget r \<le> Suc (hello_budget r')"
    by (cases rule: cases) (use assms(3) ProcessPacket_counter in \<open>fastforce simp: hello_budget_def\<close>)+
qed

definition well_formed :: "nfqRunner \<Rightarrow> bool" where
  "well_formed r \<longleftrightarrow> nfQueue r \<and> rawSock r \<noteq> None \<and> proc_inv (run_processor r)"

lemma running_budget: "running r \<longleftrightarrow> well_formed r \<and> 0 < hello_budget r"
  by (auto simp: running_def well_formed_def hello_budget_def)

lemma handle_message_sound:
  assumes "gopacket_ok gp" and "well_formed r" and "0 < hello_budget r"
  shows "\<exists>out r'. handle_message gp rnd m r = (Some out, r') \<and> well_formed r' \<and> hello_budget r \<le> Suc (hello_budget r') \<and>
    answers m out"
proof -
  obtain out r' where h: "handlePacket gp rnd (fst m) (snd m) r = (Some out, r')" "answers m out"
    using handlePacket_answers [OF assms(1), of r rnd "fst m" "snd m"] assms(2,3)
    by (metis running_budget prod.collapse)
  moreover have "well_formed r'" "hello_budget r \<le> Suc (hello_budget r')"
    using handlePacket_state [OF h(1)] assms(2,3) by (auto simp: well_formed_def hello_budget_def)
  ultimately show ?thesis
    by (auto simp: handle_message_def)
qed

definition decoding :: "gopacket \<Rightarrow> nfqRunner \<Rightarrow> bool" where
  "decoding gp r \<longleftrightarrow> gopacket_ok gp \<and> well_formed r"

interpretation nfq: sound_machine "handle_message gp rnd" "\<lambda>_. True" "decoding gp" hello_budget answers for gp rnd
proof
  fix r m
  assume "decoding gp r" "0 < hello_budget r"
  with handle_message_sound [of gp r rnd m] show "\<exists>out r'. handle_message gp rnd m r = (Some out, r') \<and> decoding gp r' \<and>
      hello_budget r \<le> Suc (hello_budget r') \<and> answers m out"
    by (auto simp: decoding_def)
qed

text \<open>The verdicts in a trace, and the ids of the messages that have one.\<close>

fun verdicts :: "effect list \<Rightarrow> u32 list" where
  "verdicts [] = []"
| "verdicts (SetVerdictAccept pid # effs) = pid # verdicts effs"
| "verdicts (_ # effs) = verdicts effs"

lemma verdicts_append [simp]: "verdicts (xs @ ys) = verdicts xs @ verdicts ys"
  by (induction xs rule: verdicts.induct) simp_all

lemma verdicts_sends: "\<forall>x \<in> set xs. \<exists>tx. x = Send tx \<Longrightarrow> verdicts xs = []"
  by (induction xs) auto

lemma answers_verdicts: "answers m effs \<Longrightarrow> verdicts effs = (case PacketID (snd m) of Some pid \<Rightarrow> [pid] | None \<Rightarrow> [])"
  by (auto simp: answers_def verdicts_sends split: option.splits)

lemma answers_all: "list_all2 answers ms outs \<Longrightarrow> verdicts (concat outs) = List.map_filter (PacketID \<circ> snd) ms"
proof (induction ms outs rule: list_all2_induct)
  case (Cons m ms effs outs)
  then show ?case
    by (cases "PacketID (snd m)") (simp_all add: answers_verdicts List.map_filter_simps)
qed (simp add: List.map_filter_simps)

subsection \<open>Properties\<close>

text \<open>
  C2. A running router never gets stuck and never holds a packet: over any sequence of messages that
  leaves the counter of the decoys below 2^63, whatever bytes they carry, no callback panics and the runner stays well-formed; each message
  with an id gets exactly one verdict, accept, in the order of the queue, with at most one fake before
  it; and a message without an id has no effect.
\<close>

theorem queue_sound:
  assumes "gopacket_ok gp" and "running r" and "length msgs + unat (hello_counter (run_processor r)) < 2 ^ 63"
  shows "\<exists>outs r'. serve (handle_message gp rnd) msgs r = (Some outs, r') \<and> running r' \<and>
    list_all2 answers msgs outs \<and> verdicts (concat outs) = List.map_filter (PacketID \<circ> snd) msgs"
proof -
  have d: "decoding gp r" "length msgs \<le> hello_budget r"
    using assms by (simp_all add: decoding_def running_budget hello_budget_def)
  then obtain outs r' where o: "serve (handle_message gp rnd) msgs r = (Some outs, r')" "decoding gp r'"
    "hello_budget r \<le> length msgs + hello_budget r'" "list_all2 answers msgs outs"
    using nfq.serve_sound [of gp r msgs rnd] by auto
  moreover have "running r'"
    using o(2,3) assms(3) by (auto simp: decoding_def running_budget hello_budget_def)
  ultimately show ?thesis
    using answers_all [OF o(4)] by blast
qed

definition sample_runner :: "Processor \<Rightarrow> nfqRunner" where
  "sample_runner p = \<lparr>run_cfg = proc_cfg p, run_processor = p, rawSock = Some (platformRawSocket Linux), nfQueue = True\<rparr>"

lemma sample_running: "proc_inv p \<Longrightarrow> hello_counter p = 0 \<Longrightarrow> running (sample_runner p)"
  by (simp add: running_def sample_runner_def)

theorem queue_sound_witness:
  "\<exists>r outs r'. running r \<and> serve (handle_message wire_gp (\<lambda>k n. None))
      [(5, \<lparr>PacketID = Some 7, AttrMark = None, AttrPayload = Some sample_packet\<rparr>),
       (6, \<lparr>PacketID = None, AttrMark = None, AttrPayload = Some [1, 2, 3]\<rparr>),
       (7, \<lparr>PacketID = Some 8, AttrMark = Some 1, AttrPayload = None\<rparr>)] r = (Some outs, r') \<and>
     running r' \<and> verdicts (concat outs) = [7, 8]"
proof -
  obtain p where p: "proc_inv p" "hello_counter p = 0"
    using sample_processor by blast
  have r: "running (sample_runner p)" "unat (hello_counter (run_processor (sample_runner p))) = 0"
    using sample_running [OF p] p(2) by (simp_all add: sample_runner_def)
  from queue_sound [OF wire_gp_ok r(1), of
      "[(5, \<lparr>PacketID = Some 7, AttrMark = None, AttrPayload = Some sample_packet\<rparr>),
        (6, \<lparr>PacketID = None, AttrMark = None, AttrPayload = Some [1, 2, 3]\<rparr>),
        (7, \<lparr>PacketID = Some 8, AttrMark = Some 1, AttrPayload = None\<rparr>)]" "\<lambda>k n. None"] r
  show ?thesis
    by (auto simp: List.map_filter_simps)
qed

text \<open>
  C1. End to end, from the queue to the wire: whatever the callback sends, a receiver parses as a
  valid TCP segment (both checksums verify) to the destination of the queued packet, on its
  connection, with its sequence and acknowledgement numbers, the configured TTL, and a payload whose
  TLS server name is one of the decoy hosts.
\<close>

theorem handlePacket_fake_on_wire:
  assumes "gopacket_ok gp" and "rand_ok rnd" and "running r" and "rawSock r = Some (platformRawSocket Linux)"
    and "AttrPayload attr = Some payload" and "fst (handlePacket gp rnd now attr r) = Some effs"
    and "Send tx \<in> set effs"
  shows "\<exists>m w host. ParsePacket gp payload = Inr m \<and> sent_addr tx = MDstIP m \<and>
    parse_packet Linux (sent_pkt tx) = Some w \<and>
    wire_conn w = \<lparr>SrcIP = MSrcIP m, DstIP = MDstIP m, SrcPort = MSrcPort m, DstPort = MDstPort m,
      Seq = TSeq (TCP m), Ack = TAck (TCP m)\<rparr> \<and>
    wire_ttl w = of_int (FakeTTL (run_cfg r)) \<and> ParseSNI (wire_payload w) = Some host \<and>
    host \<in> {''www.google.com'', ''www.cloudflare.com'', ''www.microsoft.com''}"
proof -
  have "PacketID attr \<noteq> None"
    using assms(6,7) by (cases "PacketID attr") (auto simp: handlePacket_def [of gp rnd now attr r])
  then obtain pid where pid: "PacketID attr = Some pid" by blast
  obtain a e sock where d:
    "fst (ProcessPacket gp rnd payload (case AttrMark attr of Some m \<Rightarrow> m | None \<Rightarrow> 0) now (run_processor r)) = Some (a, e)"
    "rawSock r = Some sock"
    "fst (handlePacket gp rnd now attr r) = Some
       ((if Inject a then [Send (SendFake sock (Conn a) (FakePayload a) (FakeTTL (run_cfg r)))] else []) @
        [SetVerdictAccept pid])"
    by (rule handlePacket_Some [OF assms(1,3) pid assms(5)])
  have a: "Inject a" and tx: "tx = SendFake (platformRawSocket Linux) (Conn a) (FakePayload a) (FakeTTL (run_cfg r))"
    using d(2,3) assms(4,6,7) by (auto split: if_splits)
  have "unat (hello_counter (run_processor r)) < 2 ^ 63"
    using assms(3) by (simp add: running_def)
  then obtain m host where m: "ParsePacket gp payload = Inr m" "v4_meta m"
    "Conn a = \<lparr>SrcIP = MSrcIP m, DstIP = MDstIP m, SrcPort = MSrcPort m, DstPort = MDstPort m,
      Seq = TSeq (TCP m), Ack = TAck (TCP m)\<rparr>" "length (FakePayload a) \<le> 65495"
    "host \<in> ServerName ` set clientHelloProfiles" "ParseSNI (FakePayload a) = Some host"
    by (rule injected_action [OF assms(1,2) _ d(1) a])
  have ip: "length (MSrcIP m) = 4" "length (MDstIP m) = 4"
    using m(2) by (simp_all add: v4_meta_def)
  then have "v4_conn (Conn a)"
    by (auto simp: m(3) v4_conn_def)
  from parse_packet_built [OF this m(4), of Linux "FakeTTL (run_cfg r)"]
  have "parse_packet Linux (sent_pkt tx) = Some \<lparr>wire_conn = Conn a, wire_ttl = of_int (FakeTTL (run_cfg r)),
      wire_flags = 0x18, wire_payload = FakePayload a\<rparr>"
    using ip by (simp add: tx m(3))
  moreover have "sent_addr tx = MDstIP m"
    using ip by (simp add: tx m(3) blit_def)
  moreover have "host \<in> {''www.google.com'', ''www.cloudflare.com'', ''www.microsoft.com''}"
    using m(5) by (simp add: clientHelloProfiles_def)
  ultimately show ?thesis
    using m(1,3,6) by auto
qed

theorem handlePacket_fake_on_wire_witness:
  "\<exists>r effs tx w. fst (handlePacket wire_gp (\<lambda>k n. None) 5
      \<lparr>PacketID = Some 7, AttrMark = None, AttrPayload = Some sample_packet\<rparr> r) = Some effs \<and>
     Send tx \<in> set effs \<and> parse_packet Linux (sent_pkt tx) = Some w \<and> wire_conn w = sample_conn"
proof -
  obtain p where p: "proc_inv p" "proc_cfg p = Normalized (DefaultConfig\<lparr>WANInterface := ''eth0''\<rparr>)"
    "flow_entries (proc_flows p) = []" "hello_counter p = 0"
    using sample_processor by blast
  let ?attr = "\<lparr>PacketID = Some 7, AttrMark = None, AttrPayload = Some sample_packet\<rparr>"
  have r: "running (sample_runner p)" "rawSock (sample_runner p) = Some (platformRawSocket Linux)"
    using sample_running [OF p(1,4)] by (simp_all add: sample_runner_def)
  have inj: "injects (fst (ProcessPacket wire_gp (\<lambda>k n. None) sample_packet 0 5 p))"
    by (rule ProcessPacket_admitted(1)) (use p in simp_all)
  have pid: "PacketID ?attr = Some 7" "AttrPayload ?attr = Some sample_packet"
    by simp_all
  obtain a e sock where d:
    "fst (ProcessPacket wire_gp (\<lambda>k n. None) sample_packet (case AttrMark ?attr of Some m \<Rightarrow> m | None \<Rightarrow> 0) 5
       (run_processor (sample_runner p))) = Some (a, e)"
    "rawSock (sample_runner p) = Some sock"
    "fst (handlePacket wire_gp (\<lambda>k n. None) 5 ?attr (sample_runner p)) = Some
       ((if Inject a then [Send (SendFake sock (Conn a) (FakePayload a) (FakeTTL (run_cfg (sample_runner p))))] else []) @
        [SetVerdictAccept 7])"
    by (rule handlePacket_Some [OF wire_gp_ok r(1) pid])
  have "Inject a"
    using inj d(1) by (simp add: injects_def sample_runner_def)
  then obtain effs tx where e: "fst (handlePacket wire_gp (\<lambda>k n. None) 5 ?attr (sample_runner p)) = Some effs"
    "Send tx \<in> set effs"
    using d(3) by auto
  from handlePacket_fake_on_wire [OF wire_gp_ok rand_ok_None r pid(2) e] e show ?thesis
    by (auto simp: sample_packet_parses sample_meta_def)
qed

text \<open>
  The runner releases what it acquires: whichever call fails, after \<open>Start\<close> and \<open>Stop\<close> nothing
  is held, a socket that was opened has been closed exactly once, and so has a queue.
\<close>

theorem runner_releases:
  assumes "rawSock r = None" and "\<not> nfQueue r"
    and "StartRunner env r = (e1, effs1, r1)" and "StopRunner env' r1 = (e2, effs2, r2)"
  shows "rawSock r2 = None \<and> \<not> nfQueue r2 \<and>
    count_list (effs1 @ effs2) SockClose = (case env_new env of Inr _ \<Rightarrow> 1 | Inl _ \<Rightarrow> 0) \<and>
    count_list (effs1 @ effs2) QueueClose = count_list effs1 Register"
  using assms
  by (cases "env_new env"; cases "env_setMark env"; cases "env_open env"; cases "env_marker env")
    (auto simp: StartRunner_def openRawSocket_def StopRunner_def)

definition sample_env :: run_env where
  "sample_env = \<lparr>env_new = Inr (platformRawSocket Linux), env_marker = True, env_setMark = None,
     env_open = Some ''no queue'', env_register = None, env_closeQueue = None, env_closeSock = None\<rparr>"

definition idle_processor :: Processor where
  "idle_processor = \<lparr>proc_cfg = DefaultConfig, proc_ttl = defaultFlowTTL,
     proc_flows = newFlowTable defaultFlowTTL 4096, hello_counter = 0\<rparr>"

theorem runner_releases_witness:
  "count_list (fst (snd (StartRunner sample_env
     \<lparr>run_cfg = DefaultConfig, run_processor = idle_processor, rawSock = None, nfQueue = False\<rparr>))) SockClose = 1"
  using runner_releases [of "\<lparr>run_cfg = DefaultConfig, run_processor = idle_processor, rawSock = None, nfQueue = False\<rparr>"
      sample_env "Some ''no queue''" "[SetMark 0x40000000] @ [QueueOpen 200 4096] @ [SockClose]"
      "\<lparr>run_cfg = DefaultConfig, run_processor = idle_processor, rawSock = None, nfQueue = False\<rparr>" sample_env None "[]"
      "\<lparr>run_cfg = DefaultConfig, run_processor = idle_processor, rawSock = None, nfQueue = False\<rparr>"]
  by (simp add: sample_env_def StartRunner_def openRawSocket_def StopRunner_def DefaultConfig_def)

end
