(* ===== verification/GoFields.thy ===== *)
theory GoFields
  imports GoStrings
begin

text \<open>
  More of package strings: \<open>Contains\<close>, \<open>Fields\<close> (the words between runs of white space, with the
  Unicode white space of theory GoStrings), \<open>SplitN\<close> at one byte, and \<open>ReplaceAll\<close> of one byte. The
  lemmas say how \<open>Fields\<close> reads back words that were written with single spaces between them.
\<close>

fun contains :: "string \<Rightarrow> string \<Rightarrow> bool" where
  "contains [] sub = (sub = [])"
| "contains (c # cs) sub = (prefix sub (c # cs) \<or> contains cs sub)"

lemma contains_iff: "contains s sub \<longleftrightarrow> sublist sub s"
  by (induction s) (auto simp: sublist_Cons_right)

text \<open>\<open>strings.SplitN(s, sep, n)\<close> for \<open>n >= 1\<close>: at most \<open>n\<close> parts, the last one unsplit.\<close>

fun split_n :: "nat \<Rightarrow> char \<Rightarrow> string \<Rightarrow> string list" where
  "split_n (Suc (Suc n)) c (x # xs) =
     (if x = c then [] # split_n (Suc n) c xs
      else case split_n (Suc (Suc n)) c xs of [] \<Rightarrow> [[x]] | y # ys \<Rightarrow> (x # y) # ys)"
| "split_n n c s = [s]"

lemma split_n_nonempty [simp]: "split_n n c s \<noteq> []"
  by (induction n c s rule: split_n.induct) (auto split: list.split)

lemma split_n_line: "c \<notin> set l \<Longrightarrow> split_n (Suc (Suc n)) c (l @ c # s) = l # split_n (Suc n) c s"
  by (induction l) auto

lemma split_n_clean: "c \<notin> set s \<Longrightarrow> split_n n c s = [s]"
  by (induction n c s rule: split_n.induct) auto

definition replace_all :: "char \<Rightarrow> char \<Rightarrow> string \<Rightarrow> string" where
  "replace_all a b s = map (\<lambda>c. if c = a then b else c) s"

subsection \<open>Fields\<close>

abbreviation at_space :: "string \<Rightarrow> bool" where
  "at_space s \<equiv> find (\<lambda>r. prefix r s) space_runes \<noteq> None"

fun take_word :: "string \<Rightarrow> string \<times> string" where
  "take_word [] = ([], [])"
| "take_word (c # cs) =
     (if at_space (c # cs) then ([], c # cs)
      else let (w, rest) = take_word cs in (c # w, rest))"

lemma take_word_length: "length (snd (take_word s)) \<le> length s"
  by (induction s) (auto simp: split_def Let_def)

lemma trim_left_length: "length (trim_left s) \<le> length s"
  by (rule suffix_length_le [OF trim_left_suffix])

lemma trim_left_word: "trim_left s \<noteq> [] \<Longrightarrow> \<not> at_space (trim_left s)"
  using trim_left_no_lead [of s] by (auto simp: no_lead_def find_None_iff)

lemma take_word_shorter: "s \<noteq> [] \<Longrightarrow> \<not> at_space s \<Longrightarrow> length (snd (take_word s)) < length s"
  using take_word_length by (cases s) (simp_all add: split_def Let_def le_imp_less_Suc)

lemma fields_shorter:
  assumes "trim_left s \<noteq> []" and "take_word (trim_left s) = (w, rest)"
  shows "length rest < length s"
  using take_word_shorter [OF assms(1) trim_left_word [OF assms(1)]] assms(2) trim_left_length [of s]
  by simp

function Fields :: "string \<Rightarrow> string list" where
  "Fields s =
     (let t = trim_left s in
      if t = [] then []
      else (case take_word t of (w, rest) \<Rightarrow> w # Fields rest))"
  by pat_completeness auto
termination
  by (relation "measure length") (auto intro: fields_shorter [OF _ sym])

declare Fields.simps [simp del]

lemma at_space_visible: "visible c \<Longrightarrow> \<not> at_space (c # cs)"
  using hd_space_rune space_runes_nonempty
  by (auto simp: find_Some_iff prefix_Cons) (metis list.sel(1) nth_mem)

text \<open>A word: non-empty, all its characters visible.\<close>

definition is_word :: "string \<Rightarrow> bool" where
  "is_word w \<longleftrightarrow> w \<noteq> [] \<and> (\<forall>c \<in> set w. visible c)"

text \<open>The separators that programs put between words: a space or a newline.\<close>

definition separator :: "char \<Rightarrow> bool" where
  "separator c \<longleftrightarrow> c = CHR 0x20 \<or> c = nl"

lemma separators [simp]: "separator (CHR 0x20)" "separator nl"
  by (simp_all add: separator_def)

lemma find_separator: "separator c \<Longrightarrow> find (\<lambda>r. prefix r (c # s)) space_runes = Some [c]"
proof -
  have "find (\<lambda>r. prefix r (CHR 0x20 # s)) space_runes = Some [CHR 0x20]"
    by (simp add: space_runes_def)
  moreover have "find (\<lambda>r. prefix r (nl # s)) space_runes = Some [nl]"
    by (simp add: space_runes_def)
  ultimately show "separator c \<Longrightarrow> ?thesis"
    by (metis separator_def)
qed

lemma at_space_blank: "separator c \<Longrightarrow> at_space (c # s)"
  by (simp add: find_separator)

lemma take_word_blank: "separator c \<Longrightarrow> \<forall>c \<in> set w. visible c \<Longrightarrow> take_word (w @ c # s) = (w, c # s)"
  using at_space_blank [of c s] at_space_visible by (induction w) auto

lemma take_word_end: "\<forall>c \<in> set w. visible c \<Longrightarrow> take_word w = (w, [])"
  using at_space_visible by (induction w) auto

lemma trim_left_blank: "separator c \<Longrightarrow> trim_left (c # s) = trim_left s"
  using find_separator [of c s] by (subst trim_left.simps) simp

lemma trim_left_visible: "visible c \<Longrightarrow> trim_left (c # s) = c # s"
  using at_space_visible [of c s] by (subst trim_left.simps) (simp split: option.split)

lemma fields_Nil [simp]: "Fields [] = []"
  by (simp add: Fields.simps [of "[]"] trim_left.simps [of "[]"] space_runes_def)

lemma trim_left_is_word: "is_word w \<Longrightarrow> trim_left (w @ s) = w @ s \<and> w @ s \<noteq> []"
  by (cases w) (simp_all add: is_word_def trim_left_visible)

lemma fields_word [text_simps]: "is_word w \<Longrightarrow> Fields w = [w]"
  using trim_left_is_word [of w "[]"] take_word_end [of w]
  by (simp add: Fields.simps [of w] is_word_def)

lemma fields_blank: "separator c \<Longrightarrow> Fields (c # s) = Fields s"
  by (subst (1 2) Fields.simps) (simp add: trim_left_blank)

lemma fields_sep: "separator c \<Longrightarrow> is_word w \<Longrightarrow> Fields (w @ c # s) = w # Fields s"
  using trim_left_is_word [of w "c # s"] take_word_blank [of c w s]
  by (simp add: Fields.simps [of "w @ c # s"] is_word_def fields_blank)

lemmas fields_cons [text_simps] = fields_sep [OF separators(1)] fields_sep [OF separators(2)]

lemma fields_join_sep: "separator c \<Longrightarrow> \<forall>w \<in> set ws. is_word w \<Longrightarrow> Fields (join_with [c] ws) = ws"
  by (induction "[c]" ws rule: join_with.induct) (simp_all add: fields_word fields_sep)

lemma fields_join: "\<forall>w \<in> set ws. is_word w \<Longrightarrow> Fields (join_with '' '' ws) = ws"
  by (rule fields_join_sep) simp_all

text \<open>Words joined by a separator form a trimmed text.\<close>

lemma is_word_ends: "is_word w \<Longrightarrow> visible (hd w) \<and> visible (last w) \<and> w \<noteq> []"
  by (cases w) (auto simp: is_word_def)

lemma join_words_hd: "ws \<noteq> [] \<Longrightarrow> \<forall>w \<in> set ws. is_word w \<Longrightarrow> join_with sep ws \<noteq> [] \<and> visible (hd (join_with sep ws))"
  using is_word_ends by (induction sep ws rule: join_with.induct) auto

lemma join_words_last: "ws \<noteq> [] \<Longrightarrow> \<forall>w \<in> set ws. is_word w \<Longrightarrow> visible (last (join_with sep ws))"
proof (induction sep ws rule: join_with.induct)
  case (3 sep x y ys)
  then have "join_with sep (y # ys) \<noteq> []"
    using join_words_hd [of "y # ys" sep] by simp
  with 3 show ?case by simp
qed (use is_word_ends in auto)

lemma join_words_trimmed:
  assumes "ws \<noteq> []" and "\<forall>w \<in> set ws. is_word w"
  shows "trimmed (join_with sep ws)" and "join_with sep ws \<noteq> []"
  using join_words_hd [OF assms, of sep] join_words_last [OF assms, of sep] by (auto intro: trimmed_visible)

lemma is_word_trimmed: "is_word w \<Longrightarrow> trimmed w"
  using is_word_ends by (intro trimmed_visible) auto

lemma nl_not_word: "is_word w \<Longrightarrow> nl \<notin> set w"
  by (auto simp: is_word_def visible_def)

lemma fields_lines:
  "separator c \<Longrightarrow> ws \<noteq> [] \<Longrightarrow> \<forall>w \<in> set ws. is_word w \<Longrightarrow> Fields (join_with [c] ws @ c # s) = ws @ Fields s"
  by (induction "[c]" ws rule: join_with.induct) (simp_all add: fields_sep)

text \<open>A final newline is trimmed away.\<close>

lemma suffix_nl: "r \<in> set space_runes \<Longrightarrow> suffix r (x @ [nl]) \<Longrightarrow> r = [nl]"
proof -
  assume r: "r \<in> set space_runes" and "suffix r (x @ [nl])"
  then have "last r = nl"
    using space_runes_nonempty [OF r] by (auto simp: suffix_def) (metis last_appendR last_snoc)
  then show "r = [nl]"
    using r by (auto simp: space_runes_def)
qed

lemma trim_right_nl: "trim_right (x @ [nl]) = trim_right x"
proof -
  have "[nl] \<in> set space_runes" and "suffix [nl] (x @ [nl])"
    by (simp_all add: space_runes_def suffix_def)
  then obtain r where r: "find (\<lambda>r. suffix r (x @ [nl])) space_runes = Some r"
    by (metis find_None_iff option.exhaust)
  then have "r = [nl]"
    using suffix_nl by (metis find_Some_member)
  with r show ?thesis
    by (subst trim_right.simps) simp
qed

lemma trim_space_nl:
  assumes "trimmed x" and "x \<noteq> []"
  shows "trim_space (x @ [nl]) = x"
proof -
  have "no_lead (x @ [nl])"
    unfolding no_lead_def
  proof (intro ballI notI)
    fix r
    assume r: "r \<in> set space_runes" and "prefix r (x @ [nl])"
    moreover have "\<not> prefix r x"
      using assms(1) r by (simp add: trimmed_def no_lead_def)
    ultimately have "r = x @ [nl]"
      by (simp add: prefix_snoc)
    with suffix_nl [OF r, of x] assms(2) show False by simp
  qed
  with assms(1) show ?thesis
    by (simp add: trim_space_def trim_left_id trim_right_nl trimmed_def trim_right_id)
qed

text \<open>The words that \<open>Fields\<close> returns are trimmed and hold no newline.\<close>

lemma take_word_parts:
  "take_word s = (w, rest) \<Longrightarrow> s = w @ rest \<and> (\<forall>u v. w = u @ v \<longrightarrow> v \<noteq> [] \<longrightarrow> \<not> at_space (v @ rest))"
proof (induction s arbitrary: w)
  case (Cons c cs)
  show ?case
  proof (cases "at_space (c # cs)")
    case False
    then obtain w' where w': "take_word cs = (w', rest)" "w = c # w'"
      using Cons.prems by (auto split: prod.splits)
    note ih = Cons.IH [OF w'(1)]
    have "\<not> at_space (v @ rest)" if "w = u @ v" "v \<noteq> []" for u v
      using that ih False w'(2) by (cases u) auto
    with ih w'(2) show ?thesis by auto
  qed (use Cons.prems in auto)
qed simp

lemma at_space_rune: "r \<in> set space_runes \<Longrightarrow> at_space (r @ s)"
  by (auto simp: find_None_iff)

lemma take_word_clean:
  assumes "take_word s = (w, rest)" and "\<not> at_space s"
  shows "trimmed w \<and> nl \<notin> set w"
proof -
  note p = take_word_parts [OF assms(1)]
  have "\<not> prefix r w" if "r \<in> set space_runes" for r
  proof
    assume "prefix r w"
    then obtain v where "w = r @ v" by (auto simp: prefix_def)
    then show False
      using at_space_rune [OF that, of "v @ rest"] assms(2) p by simp
  qed
  moreover have "\<not> suffix r w" if r: "r \<in> set space_runes" for r
  proof
    assume "suffix r w"
    then obtain u where "w = u @ r" by (auto simp: suffix_def)
    then show False
      using at_space_rune [OF r, of rest] space_runes_nonempty [OF r] p by blast
  qed
  moreover have "nl \<notin> set w"
  proof
    assume "nl \<in> set w"
    then obtain u v where "w = u @ nl # v" by (meson split_list)
    with p have "\<not> at_space (nl # v @ rest)" by force
    then show False by (simp add: at_space_blank)
  qed
  ultimately show ?thesis
    by (simp add: trimmed_def no_lead_def no_trail_def)
qed

lemma take_word_Nil: "take_word s = ([], rest) \<Longrightarrow> s = [] \<or> at_space s"
  by (cases s) (auto split: if_splits prod.splits)

lemma fields_clean: "w \<in> set (Fields s) \<Longrightarrow> w \<noteq> [] \<and> trimmed w \<and> nl \<notin> set w"
proof (induction s rule: Fields.induct)
  case (1 s)
  let ?t = "trim_left s"
  show ?case
  proof (cases "?t = []")
    case True
    with 1 show ?thesis by (subst (asm) Fields.simps) simp
  next
    case False
    obtain v rest where t: "take_word ?t = (v, rest)" by fastforce
    have "\<not> at_space ?t"
      using trim_left_word False by blast
    with t have "v \<noteq> [] \<and> trimmed v \<and> nl \<notin> set v"
      using take_word_clean take_word_Nil False by blast
    moreover have "set (Fields s) = insert v (set (Fields rest))"
      using False t by (subst Fields.simps) simp
    ultimately show ?thesis
      using 1 False t by auto
  qed
qed

end
