(* ===== verification/NetIfaces.thy ===== *)
theory NetIfaces
  imports NetIP GoFields GoFormat
begin

text \<open>
  The choice of network interfaces and devices: \<open>detectPhysicalInterface\<close> (pkg/tun/manager.go),
  \<open>DefaultInterface\<close> (pkg/capture/capture_darwin.go), and the Windows functions that find a pcap device,
  the MAC addresses and the default gateway from the interfaces and from the output of \<open>route print\<close> and
  \<open>arp -a\<close> (pkg/rawsock/rawsock_windows_pcap.go and pkg/capture/capture_windows_pcap.go). What the system
  reports is a parameter: the interfaces, the devices and the text of the commands, \<open>None\<close> for an
  error; so are the parsers of MAC and IP addresses. What is proved: the interface of the TUN device is
  never chosen, and how the two commands' lines are read.
\<close>

subsection \<open>Interfaces\<close>

text \<open>\<open>if_addrs\<close>: the error of \<open>Addrs\<close> is \<open>None\<close>; an address that is not a \<open>*net.IPNet\<close> is \<open>None\<close> in the list.\<close>

record iface =
  if_name :: string
  if_up :: bool
  if_loopback :: bool
  if_mac :: bytes
  if_addrs :: "ip option list option"

definition addrs_of :: "iface \<Rightarrow> ip option list" where
  "addrs_of i = (case if_addrs i of None \<Rightarrow> [] | Some as \<Rightarrow> as)"

definition IsLoopback :: "ip \<Rightarrow> bool" where
  "IsLoopback a = (if to4 a \<noteq> [] then to4 a ! 0 = 127 else a = replicate 15 0 @ [1])"

text \<open>\<open>IP.Equal\<close>: an IPv4 address equals its IPv4-mapped form.\<close>

definition ip_equal :: "ip \<Rightarrow> ip \<Rightarrow> bool" where
  "ip_equal a b =
     (if length a = length b then a = b
      else if length a = 4 \<and> length b = 16 then to4 b = a
      else if length a = 16 \<and> length b = 4 then to4 a = b
      else False)"

text \<open>\<open>net.IPv4(10, 0, 85, 1)\<close>, the address of the TUN device, in its 16 byte form.\<close>

definition tun_address :: ip where
  "tun_address = replicate 10 0 @ [0xFF, 0xFF, 10, 0, 85, 1]"

text \<open>The test of three functions: \<open>ipv4 != nil && !ipv4.IsLoopback() && !ipv4.Equal(net.IPv4(10, 0, 85, 1))\<close>.\<close>

definition usable :: "ip \<Rightarrow> bool" where
  "usable a \<longleftrightarrow> (let ipv4 = to4 a in ipv4 \<noteq> [] \<and> \<not> IsLoopback ipv4 \<and> \<not> ip_equal ipv4 tun_address)"

definition virtual_prefixes :: "string list" where
  "virtual_prefixes = [''utun'', ''bridge'', ''veth'', ''vmnet'', ''lo'']"

definition detectPhysicalInterface :: "iface list \<Rightarrow> string" where
  "detectPhysicalInterface ifaces =
     (case find (\<lambda>i. if_up i \<and> \<not> if_loopback i \<and> \<not> (\<exists>p \<in> set virtual_prefixes. prefix p (if_name i)) \<and>
         if_name i \<noteq> [] \<and> (\<exists>a \<in> set (addrs_of i). case a of None \<Rightarrow> False | Some ip \<Rightarrow> usable ip)) ifaces of
        Some i \<Rightarrow> if_name i
      | None \<Rightarrow> [])"

definition DefaultInterface :: "iface list option \<Rightarrow> string + string" where
  "DefaultInterface ifaces =
     (case ifaces of
        None \<Rightarrow> Inl ''interfaces''
      | Some is \<Rightarrow>
          (case find (\<lambda>i. if_up i \<and> \<not> if_loopback i \<and> if_addrs i \<noteq> None \<and> if_addrs i \<noteq> Some [] \<and> prefix ''en'' (if_name i)) is of
             Some i \<Rightarrow> Inr (if_name i)
           | None \<Rightarrow> Inl ''no suitable network interface found''))"

subsection \<open>Windows: devices\<close>

text \<open>
  A pcap device: its name and addresses with their masks (\<open>None\<close> for nil). \<open>goIface\<close> is the result of
  \<open>InterfaceByName\<close>, \<open>devs\<close> that of \<open>FindAllDevs\<close>.
\<close>

type_synonym pcap_dev = "string \<times> (ip \<times> bytes option) list"

definition resolvePcapDevice :: "iface option \<Rightarrow> pcap_dev list option \<Rightarrow> string \<Rightarrow> string + string" where
  "resolvePcapDevice goIface devs friendlyName =
     (case goIface of
        None \<Rightarrow> Inl (''interface '' @ friendlyName)
      | Some i \<Rightarrow>
          if addrs_of i = [] then Inl (''no addresses on '' @ friendlyName)
          else
            let ipSet = map ip_string (List.map_filter id (addrs_of i)) in
            (case devs of
               None \<Rightarrow> Inl ''pcap find devices''
             | Some ds \<Rightarrow>
                 (case find (\<lambda>(_, addrs). \<exists>(a, _) \<in> set addrs. ip_string a \<in> set ipSet) ds of
                    Some (name, _) \<Rightarrow> Inr name
                  | None \<Rightarrow> Inl (''no pcap device found for '' @ friendlyName))))"

subsection \<open>Windows: route and ARP tables\<close>

text \<open>The third field of the first line that starts with two fields \<open>0.0.0.0\<close>.\<close>

definition default_route :: "string \<Rightarrow> string option" where
  "default_route out =
     map_option (\<lambda>line. Fields (trim_space line) ! 2)
       (find (\<lambda>line. let f = Fields (trim_space line) in
          length f \<ge> 3 \<and> f ! 0 = ''0.0.0.0'' \<and> f ! 1 = ''0.0.0.0'') (split_on nl out))"

fun arp_lookup :: "(string \<Rightarrow> bytes option) \<Rightarrow> string \<Rightarrow> string list \<Rightarrow> bytes option" where
  "arp_lookup parse_mac gwIP [] = None"
| "arp_lookup parse_mac gwIP (line # lines) =
     (let f = Fields (trim_space line) in
      if length f \<ge> 2 \<and> f ! 0 = gwIP
      then (case parse_mac (replace_all CHR ''-'' CHR '':'' (f ! 1)) of
        Some mac \<Rightarrow> Some mac
      | None \<Rightarrow> arp_lookup parse_mac gwIP lines)
      else arp_lookup parse_mac gwIP lines)"

definition gatewayMAC :: "(string \<Rightarrow> bytes option) \<Rightarrow> string option \<Rightarrow> string option \<Rightarrow> bytes option" where
  "gatewayMAC parse_mac route_out arp_out =
     (case route_out of
        None \<Rightarrow> None
      | Some out \<Rightarrow>
          let gwIP = (case default_route out of None \<Rightarrow> [] | Some g \<Rightarrow> g) in
          if gwIP = [] then None
          else (case arp_out of
            None \<Rightarrow> None
          | Some out \<Rightarrow> arp_lookup parse_mac gwIP (split_on nl out)))"

text \<open>The local MAC and the gateway's, with the fallback of zeros and broadcast.\<close>

definition discoverMACs ::
  "(string \<Rightarrow> bytes option) \<Rightarrow> string option \<Rightarrow> string option \<Rightarrow> iface list \<Rightarrow> bytes \<times> bytes" where
  "discoverMACs parse_mac route_out arp_out ifaces =
     (case find (\<lambda>i. if_up i \<and> \<not> if_loopback i \<and> length (if_mac i) \<noteq> 0 \<and>
         (\<exists>a \<in> set (addrs_of i). case a of None \<Rightarrow> False | Some ip \<Rightarrow> usable ip)) ifaces of
        None \<Rightarrow> (replicate 6 0, replicate 6 0xFF)
      | Some i \<Rightarrow>
          (if_mac i, case gatewayMAC parse_mac route_out arp_out of Some mac \<Rightarrow> mac | None \<Rightarrow> replicate 6 0xFF))"

definition defaultGatewayIP :: "(string \<Rightarrow> ip option) \<Rightarrow> string option \<Rightarrow> ip option" where
  "defaultGatewayIP parse_ip route_out =
     (case route_out of
        None \<Rightarrow> None
      | Some out \<Rightarrow> (case default_route out of None \<Rightarrow> None | Some g \<Rightarrow> parse_ip g))"

text \<open>\<open>IP.Mask\<close>: nil when the lengths do not fit.\<close>

definition ip_mask :: "ip \<Rightarrow> bytes \<Rightarrow> ip" where
  "ip_mask a m =
     (let m = (if length m = 16 \<and> length a = 4 \<and> (\<forall>b \<in> set (take 12 m). b = 0xFF) then drop 12 m else m);
          a = (if length m = 4 \<and> length a = 16 \<and> to4 a \<noteq> [] then drop 12 a else a)
      in if length a \<noteq> length m then [] else map2 (AND) a m)"

definition defaultInterface :: "ip option \<Rightarrow> pcap_dev list option \<Rightarrow> string + string" where
  "defaultInterface gwIP devs =
     (case devs of
        None \<Rightarrow> Inl ''pcap find devices''
      | Some ds \<Rightarrow>
          let by_addr = (\<lambda>P. find (\<lambda>(_, addrs). \<exists>(a, mask) \<in> set addrs. usable a \<and> P (to4 a) mask) ds);
              same_subnet = (case gwIP of
                None \<Rightarrow> None
              | Some gw \<Rightarrow> by_addr (\<lambda>a mask. case mask of
                  None \<Rightarrow> False | Some m \<Rightarrow> ip_equal (ip_mask a m) (ip_mask gw m)))
          in (case same_subnet of
                Some (name, _) \<Rightarrow> Inr name
              | None \<Rightarrow>
                  (case by_addr (\<lambda>_ _. True) of
                     Some (name, _) \<Rightarrow> Inr name
                   | None \<Rightarrow> Inl ''no suitable network interface found'')))"

subsection \<open>Lemmas\<close>

lemma usable_iff: "usable a \<longleftrightarrow> to4 a \<noteq> [] \<and> to4 a ! 0 \<noteq> 127 \<and> to4 a \<noteq> [10, 0, 85, 1]"
proof -
  have "length tun_address = 16" "to4 tun_address = [10, 0, 85, 1]"
    by (simp_all add: to4_def tun_address_def numeral_eq_Suc)
  then show ?thesis
    using length_to4 [of a] by (auto simp: usable_def Let_def IsLoopback_def ip_equal_def)
qed

text \<open>Whatever the interfaces, the result is none or a physical one with a usable IPv4 address.\<close>

lemma detectPhysicalInterface_cases:
  obtains (none) "detectPhysicalInterface ifaces = []"
  | (found) i a where "i \<in> set ifaces" "detectPhysicalInterface ifaces = if_name i" "if_up i" "\<not> if_loopback i"
      "\<forall>p \<in> set virtual_prefixes. \<not> prefix p (if_name i)" "Some a \<in> set (addrs_of i)" "usable a"
proof (cases "detectPhysicalInterface ifaces = []")
  case False
  then obtain i where "find (\<lambda>i. if_up i \<and> \<not> if_loopback i \<and> \<not> (\<exists>p \<in> set virtual_prefixes. prefix p (if_name i)) \<and>
         if_name i \<noteq> [] \<and> (\<exists>a \<in> set (addrs_of i). case a of None \<Rightarrow> False | Some ip \<Rightarrow> usable ip)) ifaces = Some i"
    "detectPhysicalInterface ifaces = if_name i"
    by (auto simp: detectPhysicalInterface_def split: option.splits)
  then show ?thesis
    by (auto dest!: find_Some_member split: option.splits intro: found)
qed

text \<open>A line of words joined by single blanks reads back as the words.\<close>

lemma trim_words: "ws \<noteq> [] \<Longrightarrow> \<forall>w \<in> set ws. is_word w \<Longrightarrow> trim_space (join_with '' '' ws) = join_with '' '' ws"
  by (rule trim_space_id [OF join_words_trimmed(1)])

lemma fields_line: "ws \<noteq> [] \<Longrightarrow> \<forall>w \<in> set ws. is_word w \<Longrightarrow> Fields (trim_space (join_with '' '' ws)) = ws"
  by (simp add: trim_words fields_join)

end
