(* ===== verification/Lifecycle.thy ===== *)
theory Lifecycle
  imports Prelude
begin

text \<open>
  The contract of a component that is started and stopped and holds system resources in between
  (sockets, queues, kernel objects, goroutines). An effect opens a resource, closes one, or does
  neither; \<open>track\<close> follows a trace and fails (\<open>None\<close>) when it opens a resource that is already open,
  which would leak the first one. The locale \<open>start_stop\<close> says that what a component holds is what its
  trace left open and that \<open>Stop\<close> closes all of it, \<open>strict_start_stop\<close> that a failed \<open>Start\<close> leaves
  nothing open. The eBPF manager is an instance of the second (theory EbpfManager) and the engine around
  it is tracked the same way (CmdRun); the TUN manager satisfies neither, and theory TunManager says
  what it leaves open.
\<close>

fun track :: "('e \<Rightarrow> 'r option) \<Rightarrow> ('e \<Rightarrow> 'r option) \<Rightarrow> 'e list \<Rightarrow> 'r set \<Rightarrow> 'r set option" where
  "track opens closes [] A = Some A"
| "track opens closes (e # es) A =
     (case opens e of
        Some r \<Rightarrow> if r \<in> A then None else track opens closes es (insert r A)
      | None \<Rightarrow>
          (case closes e of
             Some r \<Rightarrow> track opens closes es (A - {r})
           | None \<Rightarrow> track opens closes es A))"

lemma track_append:
  "track opens closes (xs @ ys) A = track opens closes xs A \<bind> track opens closes ys"
  by (induction opens closes xs A rule: track.induct) (auto split: option.split)

lemma track_append_Some:
  "track opens closes xs A = Some B \<Longrightarrow> track opens closes (xs @ ys) A = track opens closes ys B"
  by (simp add: track_append)

text \<open>A trace that opens nothing leaves what it does not close.\<close>

lemma track_closing:
  "\<forall>e \<in> set es. opens e = None \<Longrightarrow>
   track opens closes es A = Some {r \<in> A. \<forall>e \<in> set es. closes e \<noteq> Some r}"
proof (induction es arbitrary: A)
  case (Cons e es)
  show ?case
  proof (cases "closes e")
    case None
    with Cons show ?thesis by simp
  next
    case (Some r)
    with Cons have "track opens closes (e # es) A = Some {q \<in> A - {r}. \<forall>e \<in> set es. closes e \<noteq> Some q}"
      by simp
    also have "{q \<in> A - {r}. \<forall>e \<in> set es. closes e \<noteq> Some q} = {q \<in> A. \<forall>e \<in> set (e # es). closes e \<noteq> Some q}"
      using Some by auto
    finally show ?thesis .
  qed
qed simp

locale start_stop =
  fixes opens closes :: "'e \<Rightarrow> 'r option"
    and held :: "'s \<Rightarrow> 'r set"
    and start :: "'env \<Rightarrow> 's \<Rightarrow> 'err option \<times> 'e list \<times> 's"
    and stop :: "'senv \<Rightarrow> 's \<Rightarrow> 'e list \<times> 's"
  assumes start_track: "held s = {} \<Longrightarrow> start env s = (err, effs, s') \<Longrightarrow> track opens closes effs {} = Some (held s')"
    and stop_track: "stop senv s = (effs, s') \<Longrightarrow> track opens closes effs (held s) = Some {} \<and> held s' = {}"
begin

text \<open>Sessions: a start, successful or not, followed by a stop, any number of times.\<close>

fun sessions :: "('env \<times> 'senv) list \<Rightarrow> 's \<Rightarrow> 'e list \<times> 's" where
  "sessions [] s = ([], s)"
| "sessions ((env, senv) # xs) s =
     (let (err, effs, s) = start env s; (effs', s) = stop senv s; (rest, s) = sessions xs s
      in (effs @ effs' @ rest, s))"

lemma session_released:
  assumes "held s = {}" and "start env s = (err, effs, s1)" and "stop senv s1 = (effs', s2)"
  shows "track opens closes (effs @ effs') {} = Some {}" and "held s2 = {}"
  using start_track [OF assms(1,2)] stop_track [OF assms(3)] by (simp_all add: track_append_Some)

lemma sessions_released:
  "held s = {} \<Longrightarrow> sessions xs s = (effs, s') \<Longrightarrow> track opens closes effs {} = Some {} \<and> held s' = {}"
proof (induction xs s arbitrary: effs rule: sessions.induct)
  case (2 env senv xs s)
  obtain err e1 s1 where 1: "start env s = (err, e1, s1)" by (cases "start env s") auto
  obtain e2 s2 where 2: "stop senv s1 = (e2, s2)" by fastforce
  obtain e3 where 3: "sessions xs s2 = (e3, s')" "effs = e1 @ e2 @ e3"
    using "2.prems"(2) 1 2 by (auto split: prod.splits)
  note r = session_released [OF "2.prems"(1) 1 2]
  from "2.IH" [OF 1 [symmetric] refl refl 2 [symmetric] refl r(2) 3(1)]
    track_append_Some [OF r(1), of e3] show ?case
    by (simp add: 3(2))
qed simp

end

locale strict_start_stop = start_stop +
  assumes start_failed: "held s = {} \<Longrightarrow> start env s = (Some err, effs, s') \<Longrightarrow> held s' = {}"
begin

lemma failed_start_released:
  "held s = {} \<Longrightarrow> start env s = (Some err, effs, s') \<Longrightarrow> track opens closes effs {} = Some {}"
  using start_track [of s env "Some err" effs s'] start_failed by simp

end

end
