(* ===== verification/RawsockOpen.thy ===== *)
theory RawsockOpen
  imports RouterRunner NetIfaces Lifecycle
begin

text \<open>
  Opening, marking and closing the raw sockets (pkg/rawsock): \<open>New\<close> of the three platforms, \<open>SetMark\<close>
  (mark_linux.go) and \<open>Close\<close>. On Linux and macOS a socket is a file descriptor with \<open>IP_HDRINCL\<close> set; on
  Windows it is a pcap handle on the device that has the interface's address, with the MAC addresses
  \<open>discoverMACs\<close> finds. System calls and libpcap are effects whose results are arguments. What is
  proved: an open that fails leaves nothing open, a socket is closed by \<open>Close\<close>, and the frames of the
  Windows socket reach the gateway's or the broadcast address and carry a packet a receiver accepts.
\<close>

subsection \<open>File descriptor sockets\<close>

datatype sock_call =
    SocketCreated int
  | SetsockoptHdrIncl int
  | SetsockoptMark int int
  | FdClosed int

text \<open>The result of \<open>socket\<close> and of the \<open>setsockopt\<close> that follows it; an error is its text.\<close>

record open_env =
  socket_res :: "string + int"
  hdrincl_res :: "string err"

text \<open>A socket with its descriptor.\<close>

record fd_socket =
  sock_fd :: int
  sock_raw :: RawSocket

definition NewPlatform :: "platform \<Rightarrow> string \<Rightarrow> open_env \<Rightarrow> (string + fd_socket) \<times> sock_call list" where
  "NewPlatform os hint env =
     (case socket_res env of
        Inl err \<Rightarrow> (Inl (''raw socket: '' @ err @ hint), [])
      | Inr fd \<Rightarrow>
          (case hdrincl_res env of
             Some err \<Rightarrow> (Inl (''IP_HDRINCL: '' @ err), [SocketCreated fd, SetsockoptHdrIncl fd, FdClosed fd])
           | None \<Rightarrow>
               (Inr \<lparr>sock_fd = fd, sock_raw = platformRawSocket os\<rparr>, [SocketCreated fd, SetsockoptHdrIncl fd])))"

definition New_linux :: "string \<Rightarrow> open_env \<Rightarrow> (string + fd_socket) \<times> sock_call list" where
  "New_linux iface env = NewPlatform Linux [] env"

definition New_darwin :: "string \<Rightarrow> open_env \<Rightarrow> (string + fd_socket) \<times> sock_call list" where
  "New_darwin iface env = NewPlatform Darwin '' (run with sudo)'' env"

text \<open>\<open>int(mark)\<close> keeps the value on a 64 bit platform.\<close>

definition SetMark_linux :: "string err \<Rightarrow> u32 \<Rightarrow> fd_socket \<Rightarrow> string err \<times> sock_call list" where
  "SetMark_linux res mark s = (map_option (\<lambda>err. ''SO_MARK: '' @ err) res, [SetsockoptMark (sock_fd s) (uint mark)])"

definition CloseFd :: "string err \<Rightarrow> fd_socket \<Rightarrow> string err \<times> sock_call list" where
  "CloseFd res s = (res, [FdClosed (sock_fd s)])"

fun opens_fd :: "sock_call \<Rightarrow> int option" where
  "opens_fd (SocketCreated fd) = Some fd"
| "opens_fd _ = None"

fun closes_fd :: "sock_call \<Rightarrow> int option" where
  "closes_fd (FdClosed fd) = Some fd"
| "closes_fd _ = None"

text \<open>The descriptors a process holds through its raw socket variable.\<close>

definition held_fd :: "fd_socket option \<Rightarrow> int set" where
  "held_fd s = (case s of None \<Rightarrow> {} | Some s \<Rightarrow> {sock_fd s})"

text \<open>
  How every caller uses the three functions: open and keep the socket, and close it if it is held.
\<close>

definition keep_socket :: "(string + fd_socket) \<times> sock_call list \<Rightarrow> string err \<times> sock_call list \<times> fd_socket option" where
  "keep_socket r = (case r of (Inl err, calls) \<Rightarrow> (Some err, calls, None) | (Inr s, calls) \<Rightarrow> (None, calls, Some s))"

definition drop_socket :: "string err \<Rightarrow> fd_socket option \<Rightarrow> sock_call list \<times> fd_socket option" where
  "drop_socket res s = (case s of None \<Rightarrow> ([], None) | Some s \<Rightarrow> (snd (CloseFd res s), None))"

lemma NewPlatform_cases:
  obtains (created) fd where "socket_res env = Inr fd" "hdrincl_res env = None"
      "NewPlatform os hint env = (Inr \<lparr>sock_fd = fd, sock_raw = platformRawSocket os\<rparr>, [SocketCreated fd, SetsockoptHdrIncl fd])"
  | (rejected) fd err where "NewPlatform os hint env = (Inl err, [SocketCreated fd, SetsockoptHdrIncl fd, FdClosed fd])"
  | (failed) err where "NewPlatform os hint env = (Inl err, [])"
  by (cases "socket_res env"; cases "hdrincl_res env") (auto simp: NewPlatform_def)

interpretation fd: strict_start_stop opens_fd closes_fd held_fd "\<lambda>env s. keep_socket (NewPlatform os hint env)" drop_socket
  for os hint
proof
  fix s env err effs s'
  assume k: "keep_socket (NewPlatform os hint env) = (err, effs, s')"
  show "track opens_fd closes_fd effs {} = Some (held_fd s')"
    using k by (cases rule: NewPlatform_cases [where os = os and hint = hint and env = env])
      (auto simp: keep_socket_def held_fd_def)
next
  fix senv s effs s'
  assume "drop_socket senv s = (effs, s')"
  then show "track opens_fd closes_fd effs (held_fd s) = Some {} \<and> held_fd s' = {}"
    by (auto simp: drop_socket_def held_fd_def CloseFd_def split: option.splits)
next
  fix s env err effs s'
  assume k: "keep_socket (NewPlatform os hint env) = (Some err, effs, s')"
  show "held_fd s' = {}"
    using k by (cases rule: NewPlatform_cases [where os = os and hint = hint and env = env])
      (auto simp: keep_socket_def held_fd_def)
qed

subsection \<open>The socket of the Windows build\<close>

text \<open>\<open>pcap.OpenLive\<close>: device, snapshot length, promiscuous, timeout in milliseconds.\<close>

datatype pcap_call = PcapOpenLive string nat bool nat | PcapClose

definition New_windows ::
  "iface option \<Rightarrow> pcap_dev list option \<Rightarrow> string err \<Rightarrow> (string \<Rightarrow> bytes option) \<Rightarrow> string option \<Rightarrow> string option
   \<Rightarrow> iface list \<Rightarrow> string \<Rightarrow> (string + RawSocket) \<times> pcap_call list" where
  "New_windows goIface devs open_res parse_mac route_out arp_out ifaces iface =
     (case resolvePcapDevice goIface devs iface of
        Inl err \<Rightarrow> (Inl (''resolve pcap device for '' @ iface @ '': '' @ err), [])
      | Inr pcapDev \<Rightarrow>
          (case open_res of
             Some err \<Rightarrow> (Inl (''pcap open '' @ iface @ '': '' @ err @ '' (is Npcap installed?)''),
               [PcapOpenLive pcapDev 0 False 100])
           | None \<Rightarrow>
               let (srcMAC, dstMAC) = discoverMACs parse_mac route_out arp_out ifaces
               in (Inr (pcapRawSocket srcMAC dstMAC), [PcapOpenLive pcapDev 0 False 100])))"

definition New_windows_nocgo :: "string \<Rightarrow> string + RawSocket" where
  "New_windows_nocgo iface =
     Inl (''Npcap support requires CGO build '' @ [CHR 0xE2, CHR 0x80, CHR 0x94] @
       '' rebuild with CGO_ENABLED=1 and Npcap installed'')"

definition ClosePcap :: "string err \<times> pcap_call list" where
  "ClosePcap = (None, [PcapClose])"

subsection \<open>Lemmas\<close>

lemma resolvePcapDevice_found:
  assumes "resolvePcapDevice goIface devs name = Inr dev"
  obtains i ds addrs a m b where "goIface = Some i" "devs = Some ds" "(dev, addrs) \<in> set ds" "(a, m) \<in> set addrs"
    "Some b \<in> set (addrs_of i)" "ip_string a = ip_string b"
proof -
  obtain i ds addrs where *: "goIface = Some i" "devs = Some ds"
    "find (\<lambda>(_, addrs). \<exists>(a, _) \<in> set addrs. ip_string a \<in> set (map ip_string (List.map_filter id (addrs_of i)))) ds
       = Some (dev, addrs)"
    using assms by (auto simp: resolvePcapDevice_def Let_def split: option.splits if_splits)
  from find_Some_member [OF *(3)] obtain a m where "(dev, addrs) \<in> set ds" "(a, m) \<in> set addrs"
    "ip_string a \<in> set (map ip_string (List.map_filter id (addrs_of i)))"
    by auto
  then show ?thesis
    using that [OF *(1,2)] by (auto simp: List.map_filter_def)
qed

lemma arp_lookup_found:
  "arp_lookup parse_mac gwIP ls = Some mac \<Longrightarrow>
   \<exists>line \<in> set ls. 2 \<le> length (Fields (trim_space line)) \<and> Fields (trim_space line) ! 0 = gwIP \<and>
     parse_mac (replace_all CHR ''-'' CHR '':'' (Fields (trim_space line) ! 1)) = Some mac"
  by (induction ls) (auto simp: Let_def split: if_splits option.splits)

lemma gatewayMAC_found:
  assumes "gatewayMAC parse_mac route_out arp_out = Some mac"
  obtains out arp line gw where "route_out = Some out" "default_route out = Some gw" "arp_out = Some arp"
    "line \<in> set (split_on nl arp)" "2 \<le> length (Fields (trim_space line))" "Fields (trim_space line) ! 0 = gw"
    "parse_mac (replace_all CHR ''-'' CHR '':'' (Fields (trim_space line) ! 1)) = Some mac"
  using assms unfolding gatewayMAC_def Let_def
  by (auto split: option.splits if_splits dest!: arp_lookup_found)

text \<open>The first interface that is up, is no loopback, has a MAC address and a usable IPv4 address.\<close>

definition mac_iface :: "iface list \<Rightarrow> iface option" where
  "mac_iface = find (\<lambda>i. if_up i \<and> \<not> if_loopback i \<and> length (if_mac i) \<noteq> 0 \<and>
     (\<exists>a \<in> set (addrs_of i). case a of None \<Rightarrow> False | Some ip \<Rightarrow> usable ip))"

lemma discoverMACs_eq:
  "discoverMACs parse_mac route_out arp_out ifaces =
     (case mac_iface ifaces of
        None \<Rightarrow> (replicate 6 0, replicate 6 0xFF)
      | Some i \<Rightarrow> (if_mac i, case gatewayMAC parse_mac route_out arp_out of Some mac \<Rightarrow> mac | None \<Rightarrow> replicate 6 0xFF))"
  by (simp add: discoverMACs_def mac_iface_def)

text \<open>What the six byte field of a frame holds after \<open>copy\<close>: a hardware address of another length is cut or padded.\<close>

definition mac6 :: "bytes \<Rightarrow> bytes" where
  "mac6 m = take 6 (m @ replicate 6 0)"

lemma mac6_full [simp]: "length m = 6 \<Longrightarrow> mac6 m = m"
  by (simp add: mac6_def)

lemma length_mac6 [simp]: "length (mac6 m) = 6"
  by (simp add: mac6_def)

lemma blit_mac6: "length xs = i \<Longrightarrow> blit (xs @ replicate 6 0 @ zs) i (i + 6) m = xs @ mac6 m @ zs"
  by (auto simp: blit_def mac6_def min_def)

lemma ethernet_frame_mac6: "ethernet_frame smac dmac p = mac6 dmac @ mac6 smac @ [0x08, 0x00] @ p"
proof -
  have frame: "replicate (14 + length p) (0 :: byte) = [] @ replicate 6 0 @ replicate 6 0 @ replicate 2 0 @ replicate (length p) 0"
    by (simp add: numeral_eq_Suc)
  have "ethernet_frame smac dmac p = ethernet_frame (mac6 smac) (mac6 dmac) p"
    unfolding ethernet_frame_def Let_def frame
    using blit_mac6 [of "[]" 0 _ dmac] blit_mac6 [of "[]" 0 _ "mac6 dmac"]
      blit_mac6 [of "mac6 dmac" 6 _ smac] blit_mac6 [of "mac6 dmac" 6 _ "mac6 smac"]
    by simp
  then show ?thesis by (simp add: ethernet_frame_eq)
qed

subsection \<open>Properties\<close>

text \<open>
  C12. A fake of the Windows socket reaches a router on the wire: if \<open>New\<close> opens a socket, it has opened
  exactly one device, one that has an address of the named interface, and every frame \<open>SendFake\<close> writes
  is the gateway's MAC address out of the ARP table (the broadcast address if there is none), a source
  address, the EtherType of IPv4 and a packet a receiver parses with both checksums correct. The source
  address is that of the first usable interface of the machine, whatever interface was named. An address
  that is not six bytes long (\<open>net.ParseMAC\<close> reads EUI-64 and InfiniBand addresses too) is cut or padded
  to its field.
\<close>

theorem windows_fake_frame:
  assumes "New_windows goIface devs open_res parse_mac route_out arp_out ifaces name = (Inr sock, calls)"
    and "v4_conn conn" and "length payload \<le> 65495"
  shows "\<exists>i ds dev addrs a m b dmac smac pkt.
    goIface = Some i \<and> devs = Some ds \<and> (dev, addrs) \<in> set ds \<and> (a, m) \<in> set addrs \<and>
    Some b \<in> set (addrs_of i) \<and> ip_string a = ip_string b \<and> calls = [PcapOpenLive dev 0 False 100] \<and>
    SendFake sock conn payload ttl = WritePacketData (mac6 dmac @ mac6 smac @ [0x08, 0x00] @ pkt) \<and>
    smac = (case mac_iface ifaces of Some i \<Rightarrow> if_mac i | None \<Rightarrow> replicate 6 0) \<and>
    dmac = (case mac_iface ifaces of None \<Rightarrow> replicate 6 0xFF | Some _ \<Rightarrow>
       (case gatewayMAC parse_mac route_out arp_out of Some mac \<Rightarrow> mac | None \<Rightarrow> replicate 6 0xFF)) \<and>
    parse_packet Windows pkt = Some
      \<lparr>wire_conn = conn\<lparr>SrcIP := to4 (SrcIP conn), DstIP := to4 (DstIP conn)\<rparr>,
       wire_ttl = of_int ttl, wire_flags = 0x18, wire_payload = payload\<rparr>"
proof -
  obtain smac dmac where macs: "discoverMACs parse_mac route_out arp_out ifaces = (smac, dmac)" by fastforce
  obtain dev where dev: "resolvePcapDevice goIface devs name = Inr dev" "sock = pcapRawSocket smac dmac"
    "calls = [PcapOpenLive dev 0 False 100]"
    using assms(1) macs by (auto simp: New_windows_def Let_def split: sum.splits option.splits)
  let ?pkt = "BuildPacket Windows conn payload ttl"
  have "SendFake sock conn payload ttl = WritePacketData (mac6 dmac @ mac6 smac @ [0x08, 0x00] @ ?pkt)"
    using dev(2) by (simp add: ethernet_frame_mac6)
  moreover have "smac = (case mac_iface ifaces of Some i \<Rightarrow> if_mac i | None \<Rightarrow> replicate 6 0)"
    "dmac = (case mac_iface ifaces of None \<Rightarrow> replicate 6 0xFF | Some _ \<Rightarrow>
       (case gatewayMAC parse_mac route_out arp_out of Some mac \<Rightarrow> mac | None \<Rightarrow> replicate 6 0xFF))"
    using macs by (auto simp: discoverMACs_eq split: option.splits)
  ultimately show ?thesis
    using parse_packet_built [OF assms(2,3), of Windows ttl] resolvePcapDevice_found [OF dev(1)] dev(3) by metis
qed

text \<open>Two adapters, a host-only one first; the socket is opened on the second.\<close>

definition host_only :: iface where
  "host_only = \<lparr>if_name = ''Ethernet 2'', if_up = True, if_loopback = False, if_mac = [10, 0, 0x27, 0, 0, 1],
     if_addrs = Some [Some [192, 168, 56, 1]]\<rparr>"

definition wired :: iface where
  "wired = \<lparr>if_name = ''Ethernet'', if_up = True, if_loopback = False, if_mac = [2, 0, 0, 0, 0, 1],
     if_addrs = Some [Some [192, 168, 1, 2]]\<rparr>"

definition sample_route :: string where
  "sample_route = join_with [nl] [''Active Routes:'', ''0.0.0.0 0.0.0.0 192.168.1.1 192.168.1.2 25'']"

definition sample_arp :: string where
  "sample_arp = join_with [nl] [''Interface: 192.168.1.2 --- 0x5'', ''192.168.1.1 02-00-00-00-00-09 dynamic'']"

definition sample_mac :: "string \<Rightarrow> bytes option" where
  "sample_mac t = (if t = ''02:00:00:00:00:09'' then Some [2, 0, 0, 0, 0, 9] else None)"

definition sample_devs :: "pcap_dev list" where
  "sample_devs = [(''NPF_1'', [([192, 168, 56, 1], None)]), (''NPF_2'', [([192, 168, 1, 2], None)])]"

lemma sample_gateway: "gatewayMAC sample_mac (Some sample_route) (Some sample_arp) = Some [2, 0, 0, 0, 0, 9]"
  by code_simp

lemma sample_device: "resolvePcapDevice (Some wired) (Some sample_devs) ''Ethernet'' = Inr ''NPF_2''"
  by code_simp

lemma sample_mac_iface: "mac_iface [host_only, wired] = Some host_only"
  by code_simp

theorem windows_fake_frame_witness:
  "\<exists>sock calls pkt. New_windows (Some wired) (Some sample_devs) None sample_mac (Some sample_route) (Some sample_arp)
      [host_only, wired] ''Ethernet'' = (Inr sock, calls) \<and>
    SendFake sock sample_conn [1, 2, 3] 8 =
      WritePacketData ([2, 0, 0, 0, 0, 9] @ [10, 0, 0x27, 0, 0, 1] @ [0x08, 0x00] @ pkt) \<and>
    parse_packet Windows pkt \<noteq> None"
proof -
  obtain sock calls where n: "New_windows (Some wired) (Some sample_devs) None sample_mac (Some sample_route) (Some sample_arp)
      [host_only, wired] ''Ethernet'' = (Inr sock, calls)"
    by (simp add: New_windows_def sample_device Let_def split_def)
  from windows_fake_frame [OF n sample_conn_v4, of "[1, 2, 3]" 8] n show ?thesis
    by (simp add: sample_gateway sample_mac_iface) (auto simp: host_only_def)
qed

subsection \<open>The descriptor of the router's socket\<close>

text \<open>
  The system calls behind the effects of the runner (theory RouterRunner): its \<open>rs.SetMark\<close> and
  \<open>Close\<close> act on the descriptor \<open>New\<close> returned.
\<close>

fun fd_call :: "int \<Rightarrow> effect \<Rightarrow> sock_call list" where
  "fd_call fd (SetMark m) = [SetsockoptMark fd (uint m)]"
| "fd_call fd SockClose = [FdClosed fd]"
| "fd_call fd _ = []"

definition runner_env :: "open_env \<Rightarrow> string err \<Rightarrow> run_env \<Rightarrow> run_env" where
  "runner_env env mark_res renv = renv\<lparr>env_new := map_sum id sock_raw (fst (New_linux [] env)), env_marker := True,
     env_setMark := map_option (\<lambda>err. ''SO_MARK: '' @ err) mark_res\<rparr>"

text \<open>
  C13. The router's socket is marked and never leaks: whichever call of a \<open>Start\<close> fails, the descriptors the
  system calls leave open are exactly the one the runner holds, or none, and a held one belongs to
  a raw socket with \<open>IP_HDRINCL\<close> and the configured packet mark set; after \<open>Stop\<close> none is open.
\<close>

theorem runner_descriptors:
  assumes "rawSock r = None" and "\<not> nfQueue r"
    and "StartRunner (runner_env env mark_res renv) r = (e1, effs1, r1)" and "StopRunner renv' r1 = (e2, effs2, r2)"
  defines "fd \<equiv> (case socket_res env of Inr fd \<Rightarrow> fd | Inl _ \<Rightarrow> 0)"
    and "calls1 \<equiv> snd (New_linux [] env)"
  shows "(let calls = calls1 @ concat (map (fd_call fd) effs1) in
      track opens_fd closes_fd calls {} = Some (if rawSock r1 = None then {} else {fd}) \<and>
      (rawSock r1 \<noteq> None \<longrightarrow> rawSock r1 = Some (platformRawSocket Linux) \<and>
         SetsockoptHdrIncl fd \<in> set calls \<and> SetsockoptMark fd (uint (PacketMark (run_cfg r))) \<in> set calls) \<and>
      track opens_fd closes_fd (calls @ concat (map (fd_call fd) effs2)) {} = Some {} \<and> rawSock r2 = None)"
  using assms(1-4) unfolding fd_def calls1_def
  by (cases "socket_res env"; cases "hdrincl_res env"; cases mark_res; cases "env_open renv")
    (auto simp: runner_env_def New_linux_def NewPlatform_def StartRunner_def openRawSocket_def StopRunner_def)

definition idle_runner :: nfqRunner where
  "idle_runner = \<lparr>run_cfg = DefaultConfig, run_processor = idle_processor, rawSock = None, nfQueue = False\<rparr>"

theorem runner_descriptors_witness:
  "(let r1 = snd (snd (StartRunner (runner_env \<lparr>socket_res = Inr 7, hdrincl_res = None\<rparr> None (sample_env\<lparr>env_open := None\<rparr>)) idle_runner));
        calls = snd (New_linux [] \<lparr>socket_res = Inr 7, hdrincl_res = None\<rparr>) @
          concat (map (fd_call 7) (fst (snd (StartRunner (runner_env \<lparr>socket_res = Inr 7, hdrincl_res = None\<rparr> None
            (sample_env\<lparr>env_open := None\<rparr>)) idle_runner))))
    in rawSock r1 \<noteq> None \<and> track opens_fd closes_fd calls {} = Some {7})"
proof -
  let ?env = "\<lparr>socket_res = Inr 7, hdrincl_res = None\<rparr>" and ?renv = "sample_env\<lparr>env_open := None\<rparr>"
  obtain e1 effs1 r1 where s: "StartRunner (runner_env ?env None ?renv) idle_runner = (e1, effs1, r1)"
    by (rule prod_cases3)
  obtain e2 effs2 r2 where t: "StopRunner ?renv r1 = (e2, effs2, r2)"
    by (rule prod_cases3)
  have i: "rawSock idle_runner = None" "\<not> nfQueue idle_runner"
    by (simp_all add: idle_runner_def)
  have "rawSock r1 \<noteq> None"
    using s by (auto simp: StartRunner_def openRawSocket_def runner_env_def New_linux_def NewPlatform_def
        sample_env_def idle_runner_def)
  with runner_descriptors [OF i s t] s show ?thesis
    by (simp add: Let_def)
qed

end
