(* ===== verification/Capture.thy ===== *)
theory Capture
  imports Rawsock
begin

text \<open>
  Packages capture and seqtrack (pkg/capture, pkg/seqtrack), the source of sequence numbers on macOS
  and Windows: the pcap loop that reports the SYN-ACKs of the proxy's own connections, the tracker's
  map from local ports to events, and \<open>GetSeqAck\<close>, which polls that map until a deadline. Both
  platforms have the same code but for the opening of the device; on Linux both packages are stubs.
  The decoder of gopacket, libpcap, and the clock are parameters. What is proved: the polling ends
  whatever arrives, a captured handshake yields the sequence numbers of the connection, an event that
  was never collected is handed to a later connection on the same port, and no event ever arrives for
  a configured port other than 443.
\<close>

subsection \<open>The capture\<close>

record tcp_seg =
  seg_SYN :: bool
  seg_ACK :: bool
  seg_SrcPort :: u16
  seg_DstPort :: u16
  seg_Seq :: u32
  seg_Ack :: u32

text \<open>A decoded packet: its TCP layer and its IPv4 source and destination, when it has them.\<close>

record captured =
  cap_tcp :: "tcp_seg option"
  cap_ip4 :: "(ip \<times> ip) option"

type_synonym ports = "u16 \<Rightarrow> bool"

definition port_map :: "u16 list \<Rightarrow> ports" where
  "port_map ps = foldl (\<lambda>m p. m(p := True)) (\<lambda>_. False) ps"

definition processPacket :: "ports \<Rightarrow> captured \<Rightarrow> ConnInfo option" where
  "processPacket ports packet =
     (case cap_tcp packet of
        None \<Rightarrow> None
      | Some tcp \<Rightarrow>
          if \<not> seg_SYN tcp \<or> \<not> seg_ACK tcp then None
          else if \<not> ports (seg_SrcPort tcp) then None
          else (case cap_ip4 packet of
            None \<Rightarrow> None
          | Some (src, dst) \<Rightarrow> Some \<lparr>SrcIP = to4 dst, DstIP = to4 src, SrcPort = seg_DstPort tcp,
              DstPort = seg_SrcPort tcp, Seq = seg_Ack tcp, Ack = seg_Seq tcp + 1\<rparr>))"

text \<open>
  The goroutine of \<open>Start\<close>. One round: whether \<open>done\<close> is closed at its top, what \<open>NextPacket\<close>
  returns, and whether \<open>done\<close> is closed after an error. The result lists the calls of the callback.
\<close>

fun capture_loop :: "ports \<Rightarrow> (bool \<times> captured option \<times> bool) list \<Rightarrow> ConnInfo list" where
  "capture_loop ports [] = []"
| "capture_loop ports ((True, _, _) # rounds) = []"
| "capture_loop ports ((False, None, is_done) # rounds) =
     (if is_done then [] else capture_loop ports rounds)"
| "capture_loop ports ((False, Some packet, _) # rounds) =
     (case processPacket ports packet of
        Some evt \<Rightarrow> evt # capture_loop ports rounds
      | None \<Rightarrow> capture_loop ports rounds)"

definition bpf_filter :: string where
  "bpf_filter = ''tcp src port 443 and tcp[tcpflags] & (tcp-syn|tcp-ack) = (tcp-syn|tcp-ack)''"

text \<open>
  \<open>NewCapture\<close>: the ports and the calls made. \<open>device\<close> is the name to open: on macOS the interface,
  on Windows what \<open>resolvePcapDevice\<close> finds once Npcap is there; the results of libpcap are arguments.
\<close>

datatype capture_effect = OpenLive string | SetBPFFilter string | HandleClose

datatype capture_error = NoNpcap | NoDevice string | OpenFailed string | FilterFailed string

definition open_capture ::
  "string err \<Rightarrow> string err \<Rightarrow> string \<Rightarrow> u16 list \<Rightarrow> (capture_error + ports) \<times> capture_effect list" where
  "open_capture open_res filter_res device ps =
     (case open_res of
        Some e \<Rightarrow> (Inl (OpenFailed e), [])
      | None \<Rightarrow>
          (case filter_res of
             Some e \<Rightarrow> (Inl (FilterFailed e), [OpenLive device, SetBPFFilter bpf_filter, HandleClose])
           | None \<Rightarrow> (Inr (port_map ps), [OpenLive device, SetBPFFilter bpf_filter])))"

definition NewCapture_darwin ::
  "string err \<Rightarrow> string err \<Rightarrow> string \<Rightarrow> u16 list \<Rightarrow> (capture_error + ports) \<times> capture_effect list" where
  "NewCapture_darwin open_res filter_res iface ps = open_capture open_res filter_res iface ps"

definition NewCapture_windows ::
  "bool \<Rightarrow> (string \<Rightarrow> string + string) \<Rightarrow> string err \<Rightarrow> string err \<Rightarrow> string \<Rightarrow> u16 list
   \<Rightarrow> (capture_error + ports) \<times> capture_effect list" where
  "NewCapture_windows npcap resolve open_res filter_res iface ps =
     (if \<not> npcap then (Inl NoNpcap, [])
      else (case resolve iface of
        Inl e \<Rightarrow> (Inl (NoDevice e), [])
      | Inr device \<Rightarrow> open_capture open_res filter_res device ps))"

definition StopCapture :: "capture_effect list" where
  "StopCapture = [HandleClose]"

subsection \<open>The tracker\<close>

text \<open>\<open>conns\<close> is the \<open>sync.Map\<close>; the callback given to the capture stores each event.\<close>

type_synonym conns = "u16 \<Rightarrow> ConnInfo option"

definition store_event :: "ConnInfo \<Rightarrow> conns \<Rightarrow> conns" where
  "store_event evt conns = conns(SrcPort evt := Some evt)"

definition store_all :: "ConnInfo list \<Rightarrow> conns \<Rightarrow> conns" where
  "store_all evts conns = foldl (\<lambda>c e. store_event e c) conns evts"

definition NewSeqTracker :: "(capture_error + ports) \<times> capture_effect list \<Rightarrow> (capture_error + ports \<times> conns)" where
  "NewSeqTracker cap =
     (case fst cap of Inl e \<Rightarrow> Inl e | Inr ports \<Rightarrow> Inr (ports, \<lambda>_. None))"

text \<open>
  The polling loop. \<open>clock i\<close> is what \<open>time.Now\<close> returns in round \<open>i\<close> (nanoseconds) and \<open>arrive i\<close> the
  events the capture stores before round \<open>i\<close>. The loop may run forever if the clock stands still, so
  it is a partial function: not returning is \<open>None\<close>.
\<close>

partial_function (option) wait_loop ::
  "u16 \<Rightarrow> int \<Rightarrow> (nat \<Rightarrow> int) \<Rightarrow> (nat \<Rightarrow> ConnInfo list) \<Rightarrow> nat \<Rightarrow> conns \<Rightarrow> (ConnInfo option \<times> conns) option" where
  "wait_loop port deadline clock arrive i conns =
     (let conns = store_all (arrive i) conns in
      if \<not> clock i < deadline then Some (None, conns)
      else (case conns port of
        Some evt \<Rightarrow> Some (Some evt, conns(port := None))
      | None \<Rightarrow> wait_loop port deadline clock arrive (Suc i) conns))"

definition WaitForSeqAck ::
  "u16 \<Rightarrow> int \<Rightarrow> (nat \<Rightarrow> int) \<Rightarrow> (nat \<Rightarrow> ConnInfo list) \<Rightarrow> conns \<Rightarrow> (ConnInfo option \<times> conns) option" where
  "WaitForSeqAck port timeout clock arrive conns =
     (let deadline = clock 0 + timeout in wait_loop port deadline (\<lambda>i. clock (Suc i)) arrive 0 conns)"

text \<open>
  \<open>GetSeqAck\<close>: \<open>globalSeqTracker\<close> may be nil, and the connection may not be a \<open>*net.TCPConn\<close>. The port
  of the local address is an \<open>int\<close>.
\<close>

definition GetSeqAck ::
  "(nat \<Rightarrow> int) \<Rightarrow> (nat \<Rightarrow> ConnInfo list) \<Rightarrow> int option \<Rightarrow> conns option \<Rightarrow> ((u32 \<times> u32) \<times> conns option) option" where
  "GetSeqAck clock arrive tcp_port tracker =
     (case tracker of
        None \<Rightarrow> Some ((1, 1), None)
      | Some conns \<Rightarrow>
          (case tcp_port of
             None \<Rightarrow> Some ((1, 1), Some conns)
           | Some port \<Rightarrow> do {
               (evt, conns) \<leftarrow> WaitForSeqAck (of_int port) 500000000 clock arrive conns;
               (case evt of
                  None \<Rightarrow> Some ((1, 1), Some conns)
                | Some evt \<Rightarrow> Some ((Seq evt, Ack evt), Some conns))
             }))"

text \<open>On Linux the tracker does not exist.\<close>

definition GetSeqAck_linux :: "u32 \<times> u32" where
  "GetSeqAck_linux = (1, 1)"

subsection \<open>Lemmas\<close>

lemma port_map_iff: "port_map ps p \<longleftrightarrow> p \<in> set ps"
proof -
  have "foldl (\<lambda>m p. m(p := True)) m ps p \<longleftrightarrow> m p \<or> p \<in> set ps" for m
    by (induction ps arbitrary: m) auto
  then show ?thesis by (simp add: port_map_def)
qed

lemma capture_loop_source:
  "evt \<in> set (capture_loop ports rounds) \<Longrightarrow>
   \<exists>d pkt e. (d, Some pkt, e) \<in> set rounds \<and> processPacket ports pkt = Some evt"
proof (induction ports rounds rule: capture_loop.induct)
  case (4 ports pkt d rounds)
  then show ?case
    by (cases "processPacket ports pkt") (simp, blast, simp, blast)
next
  case (3 ports is_done rounds)
  then show ?case
    by (cases is_done) auto
qed simp_all

lemma store_all_simps [simp]:
  "store_all [] c = c" "store_all (e # es) c = store_all es (c(SrcPort e := Some e))"
  by (simp_all add: store_all_def store_event_def)

lemma store_all_other: "\<forall>e \<in> set es. SrcPort e \<noteq> p \<Longrightarrow> store_all es c p = c p"
  by (induction es arbitrary: c) auto

text \<open>Every stored event is filed under its own port.\<close>

definition filed :: "conns \<Rightarrow> bool" where
  "filed c \<longleftrightarrow> (\<forall>p e. c p = Some e \<longrightarrow> SrcPort e = p)"

lemma filed_store: "filed c \<Longrightarrow> filed (c(SrcPort e := Some e))"
  by (simp add: filed_def)

lemma filed_store_all: "filed c \<Longrightarrow> filed (store_all es c)"
  by (induction es arbitrary: c) (simp_all add: filed_store)

lemma filed_delete: "filed c \<Longrightarrow> filed (c(p := None))"
  by (simp add: filed_def)

lemma filed_port: "filed c \<Longrightarrow> c p = Some e \<Longrightarrow> SrcPort e = p"
  by (simp add: filed_def)

lemma store_all_Some: "store_all es c p = Some e \<Longrightarrow> e \<in> set es \<or> c p = Some e"
proof (induction es arbitrary: c)
  case (Cons a es)
  have "e \<in> set es \<or> (c(SrcPort a := Some a)) p = Some e"
    using Cons.IH [OF Cons.prems [unfolded store_all_simps]] .
  then show ?case
    by (cases "p = SrcPort a") auto
qed simp

text \<open>The clock never goes back, and \<open>time.Sleep\<close> pauses for at least its argument, one millisecond.\<close>

definition clock_ok :: "(nat \<Rightarrow> int) \<Rightarrow> bool" where
  "clock_ok clock \<longleftrightarrow> clock 0 \<le> clock 1 \<and> (\<forall>i. clock (Suc i) + 1000000 \<le> clock (Suc (Suc i)))"

lemma wait_loop_returns:
  assumes "\<And>k. clk k + 1000000 \<le> clk (Suc k)" and "deadline - clk i \<le> 1000000 * int n"
  shows "\<exists>evt c'. wait_loop port deadline clk arrive i c = Some (evt, c') \<and>
    (\<forall>e. evt = Some e \<longrightarrow> (\<exists>k. i \<le> k \<and> k < i + n \<and> e \<in> set (arrive k)) \<or> c port = Some e) \<and>
    (filed c \<longrightarrow> filed c' \<and> (\<forall>e. evt = Some e \<longrightarrow> SrcPort e = port))"
  using assms(2)
proof (induction n arbitrary: i c)
  case 0
  then have "\<not> clk i < deadline" by simp
  then show ?case
    by (subst wait_loop.simps) (simp add: Let_def filed_store_all)
next
  case (Suc n)
  let ?c = "store_all (arrive i) c"
  show ?case
  proof (cases "clk i < deadline")
    case False
    then show ?thesis
      by (subst wait_loop.simps) (simp add: Let_def filed_store_all)
  next
    case True
    show ?thesis
    proof (cases "?c port")
      case (Some e)
      then have "e \<in> set (arrive i) \<or> c port = Some e"
        by (rule store_all_Some)
      moreover have "filed c \<longrightarrow> filed (?c(port := None)) \<and> SrcPort e = port"
        using filed_delete [OF filed_store_all] filed_port [OF filed_store_all Some] by blast
      moreover have "wait_loop port deadline clk arrive i c = Some (Some e, ?c(port := None))"
        using True Some by (subst wait_loop.simps) (simp add: Let_def)
      ultimately have "wait_loop port deadline clk arrive i c = Some (Some e, ?c(port := None)) \<and>
          (\<forall>e'. Some e = Some e' \<longrightarrow> (\<exists>k. i \<le> k \<and> k < i + Suc n \<and> e' \<in> set (arrive k)) \<or> c port = Some e') \<and>
          (filed c \<longrightarrow> filed (?c(port := None)) \<and> (\<forall>e'. Some e = Some e' \<longrightarrow> SrcPort e' = port))"
        by (intro conjI allI impI) (simp_all, auto)
      then show ?thesis by blast
    next
      case None
      have "deadline - clk (Suc i) \<le> 1000000 * int n"
        using Suc.prems assms(1) [of i] by simp
      from Suc.IH [OF this, of ?c] obtain evt c' where r: "wait_loop port deadline clk arrive (Suc i) ?c = Some (evt, c')"
        "\<forall>e. evt = Some e \<longrightarrow> (\<exists>k. Suc i \<le> k \<and> k < Suc i + n \<and> e \<in> set (arrive k)) \<or> ?c port = Some e"
        "filed ?c \<longrightarrow> filed c' \<and> (\<forall>e. evt = Some e \<longrightarrow> SrcPort e = port)"
        by blast
      have "wait_loop port deadline clk arrive i c = Some (evt, c')"
        using True None r(1) by (subst wait_loop.simps) (simp add: Let_def)
      moreover have "\<exists>k. i \<le> k \<and> k < i + Suc n \<and> e \<in> set (arrive k)" if "evt = Some e" for e
        using r(2) that None by (metis Suc_leD add_Suc_shift option.distinct(1))
      ultimately show ?thesis
        using r(3) filed_store_all by blast
    qed
  qed
qed

lemma wait_loop_found:
  assumes "\<And>k. i \<le> k \<Longrightarrow> k \<le> j \<Longrightarrow> clk k < deadline" and "i \<le> j"
    and "\<And>k e. i \<le> k \<Longrightarrow> k < j \<Longrightarrow> e \<in> set (arrive k) \<Longrightarrow> SrcPort e \<noteq> port"
    and "c port = None" and "\<And>c. store_all (arrive j) c port = Some evt"
  shows "\<exists>c'. wait_loop port deadline clk arrive i c = Some (Some evt, c') \<and> c' port = None"
  using assms
proof (induction "j - i" arbitrary: i c)
  case 0
  then have "i = j" by simp
  with 0 show ?case
    by (subst wait_loop.simps) (simp add: Let_def)
next
  case (Suc n)
  have none: "store_all (arrive i) c port = None"
    using store_all_other [of "arrive i" port c] Suc.prems(3) [of i] Suc.prems(4) Suc.hyps(2) by fastforce
  have "\<exists>c'. wait_loop port deadline clk arrive (Suc i) (store_all (arrive i) c) = Some (Some evt, c') \<and> c' port = None"
    using Suc.prems(1,2,3,5) none Suc.hyps(2) by (intro Suc.hyps(1)) (simp_all, metis Suc_leD)
  then show ?case
    using none Suc.prems(1) [of i] Suc.prems(2) by (subst wait_loop.simps) (simp add: Let_def)
qed

lemma clock_tick: "clock_ok clock \<Longrightarrow> clock (Suc k) + 1000000 \<le> clock (Suc (Suc k))"
  by (simp add: clock_ok_def)

lemma clock_mono: "clock_ok clock \<Longrightarrow> i \<le> j \<Longrightarrow> clock (Suc i) \<le> clock (Suc j)"
proof (induction j)
  case (Suc j)
  then show ?case
    using clock_tick [of clock j] by (cases "i = Suc j") auto
qed simp

lemma WaitForSeqAck_returns:
  assumes "clock_ok clock" and "filed c"
  shows "\<exists>evt c'. WaitForSeqAck port 500000000 clock arrive c = Some (evt, c') \<and> filed c' \<and>
    (\<forall>e. evt = Some e \<longrightarrow> SrcPort e = port \<and> ((\<exists>k < 500. e \<in> set (arrive k)) \<or> c port = Some e))"
proof -
  let ?clk = "\<lambda>i. clock (Suc i)"
  have "clock 0 + 500000000 - ?clk 0 \<le> 1000000 * int 500"
    using assms(1) by (simp add: clock_ok_def)
  from wait_loop_returns [of ?clk, OF clock_tick [OF assms(1)] this, of port arrive c]
  show ?thesis
    using assms(2) unfolding WaitForSeqAck_def Let_def by force
qed

lemma GetSeqAck_total:
  assumes "clock_ok clock" and "filed c"
  shows "\<exists>seq ack c'. GetSeqAck clock arrive (Some port) (Some c) = Some ((seq, ack), Some c')"
proof -
  obtain evt c' where "WaitForSeqAck (of_int port) 500000000 clock arrive c = Some (evt, c')"
    using WaitForSeqAck_returns [OF assms, of "of_int port" arrive] by blast
  then show ?thesis
    by (cases evt) (simp_all add: GetSeqAck_def)
qed

subsection \<open>Properties\<close>

text \<open>
  C32. Waiting for a handshake always ends: with a clock that advances by at least the sleep, \<open>GetSeqAck\<close>
  returns whatever the capture delivers, after at most 500 rounds of polling, and its numbers are the
  placeholder (1, 1) or those of an event stored under the connection's local port.
\<close>

theorem GetSeqAck_returns:
  assumes "clock_ok clock" and "filed c"
  shows "\<exists>seq ack c'. GetSeqAck clock arrive (Some port) (Some c) = Some ((seq, ack), Some c') \<and> filed c' \<and>
    ((seq, ack) = (1, 1) \<or>
     (\<exists>e. (seq, ack) = (Seq e, Ack e) \<and> SrcPort e = of_int port \<and>
       ((\<exists>k < 500. e \<in> set (arrive k)) \<or> c (of_int port) = Some e)))"
proof -
  obtain evt c' where "WaitForSeqAck (of_int port) 500000000 clock arrive c = Some (evt, c')" "filed c'"
    "\<forall>e. evt = Some e \<longrightarrow> SrcPort e = of_int port \<and> ((\<exists>k < 500. e \<in> set (arrive k)) \<or> c (of_int port) = Some e)"
    using WaitForSeqAck_returns [OF assms, of "of_int port" arrive] by blast
  then show ?thesis
    by (cases evt) (simp_all add: GetSeqAck_def, blast)
qed

definition sample_clock :: "nat \<Rightarrow> int" where
  "sample_clock i = 1000000 * int i"

lemma sample_clock_ok: "clock_ok sample_clock"
  by (simp add: clock_ok_def sample_clock_def)

lemma filed_empty: "filed (\<lambda>_. None)"
  by (simp add: filed_def)

theorem GetSeqAck_returns_witness:
  "\<exists>seq ack c'. GetSeqAck sample_clock (\<lambda>_. []) (Some 50000) (Some (\<lambda>_. None)) = Some ((seq, ack), Some c') \<and>
     (seq, ack) = (1, 1)"
  using GetSeqAck_returns [OF sample_clock_ok filed_empty, of "\<lambda>_. []" 50000] by auto

text \<open>
  C31. A captured handshake gives the real numbers: if the capture delivers the SYN-ACK of the
  connection (from a configured port to the local port) before some round that starts within half a
  second, and nothing for that port before, \<open>GetSeqAck\<close> returns the acknowledgement number of the
  SYN-ACK as the next sequence number and its sequence number plus one (modulo 2^32) as the next
  expected one, and the entry is removed.
\<close>

theorem GetSeqAck_captured:
  assumes "clock_ok clock" and "clock (Suc j) < clock 0 + 500000000"
    and "c (of_int port) = None" and "\<forall>k < j. \<forall>e \<in> set (arrive k). SrcPort e \<noteq> of_int port"
    and "cap_tcp pkt = Some syn_ack" and "seg_SYN syn_ack" and "seg_ACK syn_ack" and "cap_ip4 pkt = Some (server, local)"
    and "seg_DstPort syn_ack = of_int port" and "seg_SrcPort syn_ack \<in> set ps"
    and "arrive j = capture_loop (port_map ps) [(False, Some pkt, False)]"
  shows "\<exists>c'. GetSeqAck clock arrive (Some port) (Some c) =
    Some ((seg_Ack syn_ack, seg_Seq syn_ack + 1), Some c') \<and> c' (of_int port) = None"
proof -
  let ?clk = "\<lambda>i. clock (Suc i)" and ?p = "of_int port :: u16"
  let ?e = "\<lparr>SrcIP = to4 local, DstIP = to4 server, SrcPort = ?p, DstPort = seg_SrcPort syn_ack,
    Seq = seg_Ack syn_ack, Ack = seg_Seq syn_ack + 1\<rparr>"
  have "arrive j = [?e]"
    using assms(5-11) by (simp add: processPacket_def port_map_iff)
  then have found: "store_all (arrive j) c' ?p = Some ?e" for c'
    by simp
  have early: "?clk k < clock 0 + 500000000" if "k \<le> j" for k
    using clock_mono [OF assms(1) that] assms(2) by linarith
  have "\<exists>c'. wait_loop ?p (clock 0 + 500000000) ?clk arrive 0 c = Some (Some ?e, c') \<and> c' ?p = None"
    by (rule wait_loop_found [of 0 j]) (use early assms(3,4) found in simp_all)
  then show ?thesis
    by (auto simp: GetSeqAck_def WaitForSeqAck_def Let_def)
qed

lemma u32_wrap: "(4294967296 :: u32) = 0"
  by transfer (simp add: take_bit_eq_mod)

definition sample_syn_ack :: captured where
  "sample_syn_ack = \<lparr>cap_tcp = Some \<lparr>seg_SYN = True, seg_ACK = True, seg_SrcPort = 443, seg_DstPort = 50000,
      seg_Seq = 0xFFFFFFFF, seg_Ack = 1001\<rparr>, cap_ip4 = Some ([93, 184, 216, 34], [192, 168, 1, 2])\<rparr>"

theorem GetSeqAck_captured_witness:
  "\<exists>c'. GetSeqAck sample_clock (\<lambda>i. if i = 3 then capture_loop (port_map [443]) [(False, Some sample_syn_ack, False)] else [])
     (Some 50000) (Some (\<lambda>_. None)) = Some ((1001, 0), Some c')"
  using GetSeqAck_captured [OF sample_clock_ok, of 3 "\<lambda>_. None" 50000
      "\<lambda>i. if i = 3 then capture_loop (port_map [443]) [(False, Some sample_syn_ack, False)] else []" sample_syn_ack
      "\<lparr>seg_SYN = True, seg_ACK = True, seg_SrcPort = 443, seg_DstPort = 50000, seg_Seq = 0xFFFFFFFF, seg_Ack = 1001\<rparr>"
      "[93, 184, 216, 34]" "[192, 168, 1, 2]" "[443]"]
  by (simp add: sample_clock_def sample_syn_ack_def u32_wrap) blast

text \<open>
  A left-over event is handed to the wrong connection: entries are keyed by the local port alone and
  only \<open>GetSeqAck\<close> removes them, so an event of an earlier connection that was never collected (the
  application closed before its ClientHello) is returned at once to a later connection with the same
  local port whose own SYN-ACK has not been delivered yet.
\<close>

theorem GetSeqAck_stale:
  assumes "clock 1 < clock 0 + 500000000" and "SrcPort old = of_int port"
    and "\<forall>e \<in> set (arrive 0). SrcPort e \<noteq> of_int port"
  shows "\<exists>c'. GetSeqAck clock arrive (Some port) (Some (store_event old c)) = Some ((Seq old, Ack old), Some c')"
proof -
  have "store_all (arrive 0) (store_event old c) (of_int port) = Some old"
    using store_all_other [OF assms(3)] assms(2) by (simp add: store_event_def)
  then show ?thesis
    using assms(1)
    by (simp add: GetSeqAck_def WaitForSeqAck_def Let_def) (subst wait_loop.simps, simp add: Let_def)
qed

theorem GetSeqAck_stale_witness:
  "\<exists>c'. GetSeqAck sample_clock (\<lambda>i. if i = 1 then capture_loop (port_map [443]) [(False, Some sample_syn_ack, False)] else [])
     (Some 50000) (Some (store_event \<lparr>SrcIP = [192, 168, 1, 2], DstIP = [1, 2, 3, 4], SrcPort = 50000, DstPort = 443,
       Seq = 77, Ack = 78\<rparr> (\<lambda>_. None))) = Some ((77, 78), Some c')"
  using GetSeqAck_stale [of sample_clock "\<lparr>SrcIP = [192, 168, 1, 2], DstIP = [1, 2, 3, 4], SrcPort = 50000, DstPort = 443,
       Seq = 77, Ack = 78\<rparr>" 50000 "\<lambda>i. if i = 1 then capture_loop (port_map [443]) [(False, Some sample_syn_ack, False)] else []" "\<lambda>_. None"]
  by (simp add: sample_clock_def)

definition filter_obeyed :: "(bool \<times> captured option \<times> bool) list \<Rightarrow> bool" where
  "filter_obeyed rounds \<longleftrightarrow> (\<forall>(d, pkt, e) \<in> set rounds. case pkt of
     None \<Rightarrow> True
   | Some p \<Rightarrow> (case cap_tcp p of None \<Rightarrow> False | Some tcp \<Rightarrow> seg_SrcPort tcp = 443 \<and> seg_SYN tcp \<and> seg_ACK tcp))"

text \<open>
  Only port 443 is ever captured: the filter text names port 443 whatever ports are configured, so
  for a connection to any other port, configured or not, \<open>GetSeqAck\<close> waits out its half second and
  returns the placeholder (1, 1).
\<close>

theorem other_ports_get_placeholder:
  assumes "clock_ok clock" and "filed c" and "c (of_int port) = None"
    and "NewCapture_darwin None None iface ps = (Inr ports, [OpenLive iface, SetBPFFilter ''tcp src port 443 and tcp[tcpflags] & (tcp-syn|tcp-ack) = (tcp-syn|tcp-ack)''])"
    and "\<forall>k. arrive k = capture_loop ports (rounds k) \<and> filter_obeyed (rounds k)"
    and "\<forall>k d pkt e tcp. (d, Some pkt, e) \<in> set (rounds k) \<and> cap_tcp pkt = Some tcp \<and> seg_DstPort tcp = of_int port
      \<longrightarrow> seg_SrcPort tcp = remote" and "remote \<noteq> 443"
  shows "\<exists>c'. GetSeqAck clock arrive (Some port) (Some c) = Some ((1, 1), Some c')"
proof -
  have none: "SrcPort e \<noteq> of_int port" if e: "e \<in> set (arrive k)" for e k
  proof
    assume p: "SrcPort e = of_int port"
    from e assms(5) have "e \<in> set (capture_loop ports (rounds k))" by simp
    then obtain d pkt x where r: "(d, Some pkt, x) \<in> set (rounds k)" "processPacket ports pkt = Some e"
      using capture_loop_source by blast
    then obtain tcp where t: "cap_tcp pkt = Some tcp" "SrcPort e = seg_DstPort tcp"
      by (auto simp: processPacket_def split: option.splits if_splits)
    have "seg_SrcPort tcp = 443"
      using assms(5) r(1) t(1) by (fastforce simp: filter_obeyed_def)
    moreover have "seg_SrcPort tcp = remote"
      using assms(6) r(1) t p by metis
    ultimately show False using assms(7) by simp
  qed
  from WaitForSeqAck_returns [OF assms(1,2), of "of_int port" arrive]
  obtain evt c' where "WaitForSeqAck (of_int port) 500000000 clock arrive c = Some (evt, c')"
    "\<forall>e. evt = Some e \<longrightarrow> SrcPort e = of_int port \<and> ((\<exists>k < 500. e \<in> set (arrive k)) \<or> c (of_int port) = Some e)"
    by blast
  then show ?thesis
    using none assms(3) by (cases evt) (auto simp: GetSeqAck_def)
qed

theorem other_ports_get_placeholder_witness:
  "\<exists>c'. GetSeqAck sample_clock (\<lambda>k. capture_loop (port_map [443, 8443]) [(False, None, False)]) (Some 50000) (Some (\<lambda>_. None))
     = Some ((1, 1), Some c')"
  using other_ports_get_placeholder [OF sample_clock_ok filed_empty, where port = 50000 and iface = "''en0''"
      and ps = "[443, 8443]" and ports = "port_map [443, 8443]" and remote = 8443
      and arrive = "\<lambda>k. capture_loop (port_map [443, 8443]) [(False, None, False)]" and rounds = "\<lambda>_. [(False, None, False)]"]
  by (simp add: NewCapture_darwin_def open_capture_def bpf_filter_def filter_obeyed_def)

end
