(* ===== verification/CaptureWindows.thy ===== *)
theory CaptureWindows
  imports Capture NetIfaces
begin

text \<open>
  The Windows build of packages capture and seqtrack (pkg/capture/capture_windows_pcap.go,
  pkg/seqtrack/seqtracker_windows.go): the check for Npcap, the pcap device of an interface, the capture
  loop, and the tracker with its polling loop, here with fuel, so that a run is executable. The code is a
  copy of the macOS one; what is proved is that it still agrees with it: the same events, the same
  device search as package rawsock, and for a clock that advances the same result of \<open>GetSeqAck\<close>.
\<close>

subsection \<open>Npcap\<close>

text \<open>\<open>devs\<close> is the result of \<open>pcap.FindAllDevs\<close>, \<open>None\<close> for an error.\<close>

definition NpcapAvailable :: "pcap_dev list option \<Rightarrow> bool" where
  "NpcapAvailable devs \<longleftrightarrow> devs \<noteq> None"

text \<open>The package variables: whether \<open>npcapCheckOnce\<close> has run, and its result.\<close>

record npcap_state =
  npcapCheckOnce :: bool
  npcapInstalled :: bool

definition CheckNpcap :: "pcap_dev list option \<Rightarrow> npcap_state \<Rightarrow> bool \<times> npcap_state" where
  "CheckNpcap devs s =
     (let s = (if npcapCheckOnce s then s else s\<lparr>npcapCheckOnce := True, npcapInstalled := NpcapAvailable devs\<rparr>)
      in (npcapInstalled s, s))"

fun has_addr :: "string list \<Rightarrow> (ip \<times> bytes option) list \<Rightarrow> bool" where
  "has_addr ipSet [] \<longleftrightarrow> False"
| "has_addr ipSet ((a, _) # addrs) \<longleftrightarrow> ip_string a \<in> set ipSet \<or> has_addr ipSet addrs"

fun match_device :: "string list \<Rightarrow> pcap_dev list \<Rightarrow> string option" where
  "match_device ipSet [] = None"
| "match_device ipSet ((name, addrs) # devs) = (if has_addr ipSet addrs then Some name else match_device ipSet devs)"

text \<open>The copy in package capture; an address that is not a \<open>*net.IPNet\<close> is skipped.\<close>

fun ip_set :: "ip option list \<Rightarrow> string list" where
  "ip_set [] = []"
| "ip_set (None # as) = ip_set as"
| "ip_set (Some a # as) = ip_string a # ip_set as"

definition resolvePcapDevice_capture :: "iface option \<Rightarrow> pcap_dev list option \<Rightarrow> string \<Rightarrow> string + string" where
  "resolvePcapDevice_capture goIface devs friendlyName =
     (case goIface of
        None \<Rightarrow> Inl (''interface '' @ friendlyName)
      | Some i \<Rightarrow>
          (case if_addrs i of
             None \<Rightarrow> Inl (''no addresses on '' @ friendlyName)
           | Some [] \<Rightarrow> Inl (''no addresses on '' @ friendlyName)
           | Some goAddrs \<Rightarrow>
               (case devs of
                  None \<Rightarrow> Inl ''pcap find devices''
                | Some devs \<Rightarrow>
                    (case match_device (ip_set goAddrs) devs of
                       Some name \<Rightarrow> Inr name
                     | None \<Rightarrow> Inl (''no pcap device found for '' @ friendlyName)))))"

subsection \<open>The capture\<close>

definition processPacket_windows :: "ports \<Rightarrow> captured \<Rightarrow> ConnInfo option" where
  "processPacket_windows ports packet = do {
     tcp \<leftarrow> cap_tcp packet;
     if \<not> seg_SYN tcp \<or> \<not> seg_ACK tcp then None
     else if \<not> ports (seg_SrcPort tcp) then None
     else do {
       (src, dst) \<leftarrow> cap_ip4 packet;
       Some \<lparr>SrcIP = [] @ to4 dst, DstIP = [] @ to4 src, SrcPort = seg_DstPort tcp, DstPort = seg_SrcPort tcp,
         Seq = seg_Ack tcp, Ack = seg_Seq tcp + 1\<rparr>
     }
   }"

text \<open>
  What one round of the goroutine of \<open>Start\<close> meets: \<open>done\<close> already closed; an error of \<open>NextPacket\<close>, with
  whether \<open>done\<close> is closed by then; a packet. \<open>cb\<close> is the callback, acting on a state.
\<close>

datatype cap_round = AlreadyDone | ReadFailed bool | ReadPacket captured

fun capture_rounds :: "(ConnInfo \<Rightarrow> 's \<Rightarrow> 's) \<Rightarrow> ports \<Rightarrow> cap_round list \<Rightarrow> 's \<Rightarrow> 's" where
  "capture_rounds cb ports [] s = s"
| "capture_rounds cb ports (AlreadyDone # rounds) s = s"
| "capture_rounds cb ports (ReadFailed is_done # rounds) s = (if is_done then s else capture_rounds cb ports rounds s)"
| "capture_rounds cb ports (ReadPacket packet # rounds) s =
     capture_rounds cb ports rounds (case processPacket_windows ports packet of Some evt \<Rightarrow> cb evt s | None \<Rightarrow> s)"

text \<open>The stubs of the builds that capture nothing; the dash is U+2014.\<close>

definition NewCapture_nocgo :: "string \<Rightarrow> u16 list \<Rightarrow> string + ports" where
  "NewCapture_nocgo iface ps =
     Inl (''Npcap support requires CGO build '' @ [CHR 0xE2, CHR 0x80, CHR 0x94] @
       '' rebuild with CGO_ENABLED=1 and Npcap installed'')"

definition NewCapture_linux :: "string \<Rightarrow> u16 list \<Rightarrow> string + ports" where
  "NewCapture_linux iface ps = Inl ''BPF capture not used on Linux (use eBPF sock_ops)''"

subsection \<open>The tracker\<close>

text \<open>The detector of a tracker is its port map, nil before a capture exists.\<close>

record SeqTracker =
  detector :: "ports option"
  tr_conns :: conns

definition NewSeqTracker_windows ::
  "iface option \<Rightarrow> pcap_dev list option \<Rightarrow> string err \<Rightarrow> string err \<Rightarrow> string \<Rightarrow> u16 list
   \<Rightarrow> (capture_error + SeqTracker) \<times> capture_effect list" where
  "NewSeqTracker_windows goIface devs open_res filter_res iface ps =
     (case NewCapture_windows (NpcapAvailable devs) (resolvePcapDevice_capture goIface devs) open_res filter_res iface ps of
        (Inl e, effs) \<Rightarrow> (Inl e, effs)
      | (Inr det, effs) \<Rightarrow> (Inr \<lparr>detector = Some det, tr_conns = (\<lambda>_. None)\<rparr>, effs))"

text \<open>The capture's goroutine, with the callback \<open>NewSeqTracker\<close> gives it.\<close>

definition track_events :: "cap_round list \<Rightarrow> SeqTracker \<Rightarrow> SeqTracker" where
  "track_events rounds st =
     (case detector st of
        None \<Rightarrow> st
      | Some ports \<Rightarrow>
          capture_rounds (\<lambda>evt st. st\<lparr>tr_conns := (tr_conns st)(SrcPort evt := Some evt)\<rparr>) ports rounds st)"

text \<open>One round of the loop per unit of fuel; \<open>None\<close> is a loop that has not ended by then.\<close>

fun wait_fuel ::
  "nat \<Rightarrow> u16 \<Rightarrow> int \<Rightarrow> (nat \<Rightarrow> int) \<Rightarrow> (nat \<Rightarrow> ConnInfo list) \<Rightarrow> nat \<Rightarrow> conns \<Rightarrow> (ConnInfo option \<times> conns) option" where
  "wait_fuel 0 localPort deadline clock arrive i conns = None"
| "wait_fuel (Suc fuel) localPort deadline clock arrive i conns =
     (let conns = store_all (arrive i) conns in
      if clock i < deadline
      then (case conns localPort of
        Some evt \<Rightarrow> Some (Some evt, conns(localPort := None))
      | None \<Rightarrow> wait_fuel fuel localPort deadline clock arrive (Suc i) conns)
      else Some (None, conns))"

definition WaitForSeqAck_windows ::
  "nat \<Rightarrow> u16 \<Rightarrow> int \<Rightarrow> (nat \<Rightarrow> int) \<Rightarrow> (nat \<Rightarrow> ConnInfo list) \<Rightarrow> conns \<Rightarrow> (ConnInfo option \<times> conns) option" where
  "WaitForSeqAck_windows fuel localPort timeout clock arrive conns =
     wait_fuel fuel localPort (clock 0 + timeout) (\<lambda>i. clock (Suc i)) arrive 0 conns"

definition GetSeqAck_windows ::
  "nat \<Rightarrow> (nat \<Rightarrow> int) \<Rightarrow> (nat \<Rightarrow> ConnInfo list) \<Rightarrow> int option \<Rightarrow> SeqTracker option \<Rightarrow> ((u32 \<times> u32) \<times> SeqTracker option) option"
where
  "GetSeqAck_windows fuel clock arrive tcpConn globalSeqTracker =
     (case globalSeqTracker of
        None \<Rightarrow> Some ((1, 1), None)
      | Some st \<Rightarrow>
          (case tcpConn of
             None \<Rightarrow> Some ((1, 1), Some st)
           | Some port \<Rightarrow> do {
               (evt, conns) \<leftarrow> WaitForSeqAck_windows fuel (of_int port) 500000000 clock arrive (tr_conns st);
               let st = st\<lparr>tr_conns := conns\<rparr>;
               Some ((case evt of None \<Rightarrow> (1, 1) | Some evt \<Rightarrow> (Seq evt, Ack evt)), Some st)
             }))"

definition StopTracker :: "SeqTracker \<Rightarrow> capture_effect list" where
  "StopTracker st = (if detector st \<noteq> None then StopCapture else [])"

subsection \<open>Lemmas\<close>

text \<open>Once answered, the check for Npcap keeps its answer, whatever is installed later.\<close>

lemma CheckNpcap_once:
  assumes "CheckNpcap devs s = (r, s')"
  shows "CheckNpcap devs' s' = (r, s')" and "\<not> npcapCheckOnce s \<Longrightarrow> r = NpcapAvailable devs"
  using assms by (auto simp: CheckNpcap_def Let_def split: if_splits)

lemma has_addr_iff: "has_addr ipSet addrs \<longleftrightarrow> (\<exists>(a, _) \<in> set addrs. ip_string a \<in> set ipSet)"
  by (induction ipSet addrs rule: has_addr.induct) auto

lemma match_device_find:
  "match_device ipSet devs = map_option fst (find (\<lambda>(_, addrs). \<exists>(a, _) \<in> set addrs. ip_string a \<in> set ipSet) devs)"
  by (induction ipSet devs rule: match_device.induct) (simp_all add: has_addr_iff)

lemma ip_set_eq: "ip_set as = map ip_string (List.map_filter id as)"
  by (induction as rule: ip_set.induct) (simp_all add: List.map_filter_simps)

lemma resolvePcapDevice_copies: "resolvePcapDevice_capture goIface devs name = resolvePcapDevice goIface devs name"
  by (cases goIface; cases devs)
    (auto simp: resolvePcapDevice_capture_def resolvePcapDevice_def addrs_of_def Let_def match_device_find ip_set_eq
      split: option.splits list.splits)

lemma processPacket_copies: "processPacket_windows ports packet = processPacket ports packet"
  by (cases "cap_tcp packet"; cases "cap_ip4 packet") (auto simp: processPacket_windows_def processPacket_def)

text \<open>A round as theory Capture describes it.\<close>

fun round_of :: "cap_round \<Rightarrow> bool \<times> captured option \<times> bool" where
  "round_of AlreadyDone = (True, None, False)"
| "round_of (ReadFailed d) = (False, None, d)"
| "round_of (ReadPacket p) = (False, Some p, False)"

lemma capture_rounds_fold:
  "capture_rounds cb ports rounds s = foldl (\<lambda>s evt. cb evt s) s (capture_loop ports (map round_of rounds))"
  by (induction cb ports rounds s rule: capture_rounds.induct)
    (simp_all add: processPacket_copies split: option.split)

lemma store_fold:
  "foldl (\<lambda>st evt. st\<lparr>tr_conns := (tr_conns st)(SrcPort evt := Some evt)\<rparr>) st evts = st\<lparr>tr_conns := store_all evts (tr_conns st)\<rparr>"
  by (induction evts arbitrary: st) simp_all

lemma wait_fuel_enough:
  assumes "\<And>k. clk k + 1000000 \<le> clk (Suc k)" and "deadline - clk i \<le> 1000000 * int n" and "n < fuel"
  shows "wait_fuel fuel port deadline clk arrive i c = wait_loop port deadline clk arrive i c"
  using assms(2,3)
proof (induction n arbitrary: i c fuel)
  case 0
  then obtain f where "fuel = Suc f" by (cases fuel) auto
  with 0 show ?case
    by (subst wait_loop.simps) (simp add: Let_def)
next
  case (Suc n)
  then obtain f where f: "fuel = Suc f" "n < f" by (cases fuel) auto
  have "deadline - clk (Suc i) \<le> 1000000 * int n"
    using Suc.prems(1) assms(1) [of i] by simp
  from Suc.IH [OF this f(2)] show ?case
    by (subst wait_loop.simps) (simp add: Let_def f(1) split: option.split)
qed

lemma WaitForSeqAck_copies:
  assumes "clock_ok clock"
  shows "WaitForSeqAck_windows 501 port 500000000 clock arrive c = WaitForSeqAck port 500000000 clock arrive c"
  unfolding WaitForSeqAck_windows_def WaitForSeqAck_def Let_def
  by (rule wait_fuel_enough [of _ _ _ 500]) (use assms in \<open>auto simp: clock_ok_def\<close>)

subsection \<open>Properties\<close>

text \<open>
  C33. The Windows copy agrees with the macOS code: for a monotonic clock, 501 rounds of polling always
  reach the deadline and \<open>GetSeqAck\<close> returns what the macOS one returns; the capture files the same
  events; and a tracker is opened on the device package rawsock sends on.
\<close>

theorem windows_tracker_agrees:
  assumes "clock_ok clock"
    and "NewSeqTracker_windows goIface devs open_res filter_res name ps = (Inr st, effs)"
  shows "(\<exists>dev. resolvePcapDevice goIface devs name = Inr dev \<and> effs = [OpenLive dev, SetBPFFilter bpf_filter]) \<and>
    tr_conns (track_events rounds st) = store_all (capture_loop (port_map ps) (map round_of rounds)) (\<lambda>_. None) \<and>
    map_option (\<lambda>(nums, st'). (nums, map_option tr_conns st')) (GetSeqAck_windows 501 clock arrive port (Some st)) =
      GetSeqAck clock arrive port (Some (tr_conns st))"
proof -
  have st: "st = \<lparr>detector = Some (port_map ps), tr_conns = (\<lambda>_. None)\<rparr>"
      "\<exists>dev. resolvePcapDevice goIface devs name = Inr dev \<and> effs = [OpenLive dev, SetBPFFilter bpf_filter]"
    using assms(2) by (auto simp: NewSeqTracker_windows_def NewCapture_windows_def open_capture_def resolvePcapDevice_copies
        split: sum.splits prod.splits if_splits option.splits)
  have "map_option (\<lambda>(nums, st'). (nums, map_option tr_conns st')) (GetSeqAck_windows 501 clock arrive port (Some st)) =
      GetSeqAck clock arrive port (Some (tr_conns st))"
    by (cases port) (simp_all add: GetSeqAck_windows_def GetSeqAck_def WaitForSeqAck_copies [OF assms(1)]
        split: option.split Option.bind_split prod.split)
  with st show ?thesis
    by (simp add: track_events_def capture_rounds_fold store_fold)
qed

definition home_iface :: iface where
  "home_iface = \<lparr>if_name = ''Ethernet'', if_up = True, if_loopback = False, if_mac = [2, 0, 0, 0, 0, 1],
     if_addrs = Some [None, Some [192, 168, 1, 2]]\<rparr>"

theorem windows_tracker_agrees_witness:
  "\<exists>st effs c'. NewSeqTracker_windows (Some home_iface) (Some [(''NPF_2'', [([192, 168, 1, 2], None)])]) None None ''Ethernet'' [443]
      = (Inr st, effs) \<and> effs = [OpenLive ''NPF_2'', SetBPFFilter bpf_filter] \<and>
    tr_conns (track_events [ReadFailed False, ReadPacket sample_syn_ack, AlreadyDone] st) 50000 \<noteq> None \<and>
    map_option (\<lambda>(nums, st'). (nums, map_option tr_conns st')) (GetSeqAck_windows 501 sample_clock (\<lambda>_. []) None (Some st))
      = Some ((1, 1), Some c')"
proof -
  have r: "resolvePcapDevice (Some home_iface) (Some [(''NPF_2'', [([192, 168, 1, 2], None)])]) ''Ethernet'' = Inr ''NPF_2''"
    by code_simp
  then have "\<exists>st effs. NewSeqTracker_windows (Some home_iface) (Some [(''NPF_2'', [([192, 168, 1, 2], None)])]) None None
      ''Ethernet'' [443] = (Inr st, effs)"
    by (simp add: NewSeqTracker_windows_def NewCapture_windows_def open_capture_def resolvePcapDevice_copies NpcapAvailable_def)
  then obtain st effs where n: "NewSeqTracker_windows (Some home_iface) (Some [(''NPF_2'', [([192, 168, 1, 2], None)])]) None None
      ''Ethernet'' [443] = (Inr st, effs)" by blast
  have "processPacket (port_map [443]) sample_syn_ack \<noteq> None"
    "\<forall>e. processPacket (port_map [443]) sample_syn_ack = Some e \<longrightarrow> SrcPort e = 50000"
    by (simp_all add: processPacket_def port_map_iff sample_syn_ack_def)
  then have "store_all (capture_loop (port_map [443]) (map round_of [ReadFailed False, ReadPacket sample_syn_ack, AlreadyDone]))
      (\<lambda>_. None) 50000 \<noteq> None"
    by (auto split: option.split)
  with windows_tracker_agrees [OF sample_clock_ok n, of "[ReadFailed False, ReadPacket sample_syn_ack, AlreadyDone]" "\<lambda>_. []" None]
    n r show ?thesis
    by (simp add: GetSeqAck_def) blast
qed

end
