(* ===== verification/DnsServer.thy ===== *)
theory DnsServer
  imports NetIP
begin

text \<open>
  Package dns, the local server (pkg/dns/server.go) and its upstreams (pkg/dns/doh.go): \<open>PopDomain\<close>,
  \<open>handleQuery\<close> and \<open>sendError\<close>, the fallback resolver and \<open>NewResolver\<close>, \<open>NewDoHClient\<close> and
  \<open>Resolve\<close>. The codec of package miekg/dns, URL parsing, name lookup and HTTP are parameters. What
  is proved: the queue of domains per address is first in first out and loses nothing, every query gets
  one answer with its own id, which domains are remembered, and that the resolver falls back in order.
\<close>

subsection \<open>The queue of domains\<close>

text \<open>
  \<open>ipQueue\<close> is the Go map; an absent key reads as the nil slice. \<open>upstream\<close>, \<open>server\<close> and the logger
  play no part in the operations below.
\<close>

record Server =
  ipQueue :: "string \<Rightarrow> string list option"

definition newServer :: Server where
  "newServer = \<lparr>ipQueue = (\<lambda>_. None)\<rparr>"

definition queue_of :: "Server \<Rightarrow> string \<Rightarrow> string list" where
  "queue_of s i = (case ipQueue s i of None \<Rightarrow> [] | Some q \<Rightarrow> q)"

definition PopDomain :: "string \<Rightarrow> Server \<Rightarrow> string \<times> Server" where
  "PopDomain i s =
     (let q = queue_of s i in
      if length q = 0 then ([], s)
      else
        let domain = q ! 0 in
        if length q = 1 then (domain, s\<lparr>ipQueue := (ipQueue s)(i := None)\<rparr>)
        else (domain, s\<lparr>ipQueue := (ipQueue s)(i := Some (drop 1 q))\<rparr>))"

definition pushDomain :: "string \<Rightarrow> string \<Rightarrow> Server \<Rightarrow> Server" where
  "pushDomain i domain s = s\<lparr>ipQueue := (ipQueue s)(i := Some (queue_of s i @ [domain]))\<rparr>"

text \<open>
  The contract of a keyed queue. In any history of pushes and pops, what was pushed under a key is
  what was popped under it followed by what is still queued, in order.
\<close>

locale keyed_queue =
  fixes push :: "'k \<Rightarrow> 'v \<Rightarrow> 's \<Rightarrow> 's"
    and pop :: "'k \<Rightarrow> 's \<Rightarrow> 'v \<times> 's"
    and contents :: "'s \<Rightarrow> 'k \<Rightarrow> 'v list"
  assumes contents_push: "contents (push k v s) j = (if j = k then contents s k @ [v] else contents s j)"
    and pop_head: "contents s k = v # vs \<Longrightarrow> fst (pop k s) = v"
    and contents_pop: "contents (snd (pop k s)) j = (if j = k then tl (contents s k) else contents s j)"
begin

fun ops :: "('k \<times> 'v option) list \<Rightarrow> 's \<Rightarrow> ('k \<times> 'v) list \<times> 's" where
  "ops [] s = ([], s)"
| "ops ((k, Some v) # es) s = ops es (push k v s)"
| "ops ((k, None) # es) s =
     (let (v, s') = pop k s; (out, s'') = ops es s'
      in (if contents s k = [] then out else (k, v) # out, s''))"

fun pushed :: "'k \<Rightarrow> ('k \<times> 'v option) list \<Rightarrow> 'v list" where
  "pushed k [] = []"
| "pushed k ((j, Some v) # es) = (if j = k then v # pushed k es else pushed k es)"
| "pushed k ((j, None) # es) = pushed k es"

definition popped :: "'k \<Rightarrow> ('k \<times> 'v) list \<Rightarrow> 'v list" where
  "popped k out = map snd (filter (\<lambda>e. fst e = k) out)"

lemma fifo:
  assumes "ops es s = (out, s')"
  shows "contents s k @ pushed k es = popped k out @ contents s' k"
  using assms
proof (induction es s arbitrary: out rule: ops.induct)
  case (1 s)
  then show ?case by (simp add: popped_def)
next
  case (2 j v es s)
  then show ?case by (auto simp: popped_def contents_push)
next
  case (3 j es s)
  obtain v s1 where p: "pop j s = (v, s1)" by fastforce
  obtain out1 where o: "ops es s1 = (out1, s')" "out = (if contents s j = [] then out1 else (j, v) # out1)"
    using 3(2) p by (auto split: prod.splits)
  have IH: "contents s1 k @ pushed k es = popped k out1 @ contents s' k"
    using 3(1) [OF p [symmetric] refl o(1)] .
  have c: "contents s1 i = (if i = j then tl (contents s j) else contents s i)" for i
    using contents_pop [of j s i] p by simp
  show ?case
  proof (cases "contents s j")
    case Nil
    with IH o c [of k] show ?thesis by (auto split: if_splits)
  next
    case (Cons w ws)
    then have "v = w" using pop_head [OF Cons] p by simp
    with IH o c [of k] Cons show ?thesis
      by (auto simp: popped_def split: if_splits)
  qed
qed

end

interpretation dnsqueue: keyed_queue pushDomain PopDomain queue_of
  by unfold_locales
    (auto simp: pushDomain_def PopDomain_def queue_of_def Let_def length_Suc_conv drop_Suc split: option.splits)

subsection \<open>Messages\<close>

text \<open>
  The parts of a \<open>dns.Msg\<close> the server reads and writes. The codec (\<open>Pack\<close>, \<open>Unpack\<close>, \<open>SetRcode\<close>)
  belongs to miekg/dns; \<open>codec_ok\<close> is what its documentation says of \<open>SetRcode\<close>.
\<close>

datatype RR = RecA ip | RecAAAA ip | RecOther

record Question =
  Name :: string
  Qtype :: nat

record Msg =
  Id :: u16
  Rcode :: nat
  Questions :: "Question list"
  Answer :: "RR list"

record codec =
  Pack :: "Msg \<Rightarrow> bytes option"
  Unpack :: "bytes \<Rightarrow> Msg option"
  SetRcode :: "Msg \<Rightarrow> nat \<Rightarrow> Msg"

abbreviation RcodeServerFailure :: nat where "RcodeServerFailure \<equiv> 2"
abbreviation TypeA :: nat where "TypeA \<equiv> 1"
abbreviation TypeAAAA :: nat where "TypeAAAA \<equiv> 28"

definition codec_ok :: "codec \<Rightarrow> bool" where
  "codec_ok c \<longleftrightarrow> (\<forall>r code. Id (SetRcode c r code) = Id r \<and> Rcode (SetRcode c r code) = code)"

record ResolveResult =
  Data :: bytes
  Via :: string

subsection \<open>handleQuery\<close>

text \<open>\<open>sendError\<close> and \<open>handleQuery\<close> return the messages handed to \<open>WriteMsg\<close>; its error is only logged.\<close>

definition sendError :: "codec \<Rightarrow> Msg \<Rightarrow> nat \<Rightarrow> Msg" where
  "sendError c r rcode = SetRcode c r rcode"

fun answer_ips :: "RR list \<Rightarrow> string list" where
  "answer_ips [] = []"
| "answer_ips (RecA a # rs) = ip_string a # answer_ips rs"
| "answer_ips (RecAAAA a # rs) = ip_string a # answer_ips rs"
| "answer_ips (RecOther # rs) = answer_ips rs"

definition remember :: "Msg \<Rightarrow> Msg \<Rightarrow> Server \<Rightarrow> Server" where
  "remember r resp s =
     (if length (Questions r) > 0 \<and> length (Answer resp) > 0 then
        let q = Questions r ! 0 in
        if Qtype q = TypeA \<or> Qtype q = TypeAAAA then
          let ips = answer_ips (Answer resp);
              domain = trim_suffix ''.'' (Name q)
          in foldl (\<lambda>s i. pushDomain i domain s) s ips
        else s
      else s)"

definition handleQuery ::
  "codec \<Rightarrow> (bytes \<Rightarrow> string + ResolveResult) \<Rightarrow> Msg \<Rightarrow> Server \<Rightarrow> Msg list \<times> Server" where
  "handleQuery c resolve r s =
     (case Pack c r of
        None \<Rightarrow> ([sendError c r RcodeServerFailure], s)
      | Some queryBytes \<Rightarrow>
          (case resolve queryBytes of
             Inl err \<Rightarrow> ([sendError c r RcodeServerFailure], s)
           | Inr result \<Rightarrow>
               (case Unpack c (Data result) of
                  None \<Rightarrow> ([sendError c r RcodeServerFailure], s)
                | Some resp \<Rightarrow>
                    let resp = resp\<lparr>Id := Id r\<rparr>
                    in ([resp], remember r resp s))))"

subsection \<open>Resolvers\<close>

text \<open>
  A resolver is its \<open>Resolve\<close>. The loop of \<open>fallbackResolver.Resolve\<close> starts with a nil error: with
  no clients it would return an empty result and no error (\<open>Inr\<close>).
\<close>

type_synonym resolver = "bytes \<Rightarrow> string + ResolveResult"

fun fallback_loop :: "string option \<Rightarrow> resolver list \<Rightarrow> resolver" where
  "fallback_loop lastErr [] query =
     (case lastErr of None \<Rightarrow> Inr \<lparr>Data = [], Via = []\<rparr> | Some err \<Rightarrow> Inl err)"
| "fallback_loop lastErr (c # cs) query =
     (case c query of Inr result \<Rightarrow> Inr result | Inl err \<Rightarrow> fallback_loop (Some err) cs query)"

definition fallbackResolve :: "resolver list \<Rightarrow> resolver" where
  "fallbackResolve clients = fallback_loop None clients"

definition Presets :: "(string \<times> string) list" where
  "Presets =
    [(''cloudflare'', ''https://1.1.1.1/dns-query''),
     (''google'', ''https://8.8.8.8/dns-query''),
     (''quad9'', ''https://9.9.9.9:5053/dns-query''),
     (''nextdns'', ''https://dns.nextdns.io/dns-query''),
     (''adguard'', ''https://dns.adguard-dns.com/dns-query'')]"

text \<open>
  A DoH client: its URL, its name, and the server name for TLS when the URL's host was replaced. The
  system's answers are parameters: the parsed URL with its host and port, the URL's text with another
  host, whether a host is an IP address, and the addresses a name has.
\<close>

record url =
  Hostname :: string
  Port :: string
  with_host :: "string \<Rightarrow> string"

record net_env =
  url_Parse :: "string \<Rightarrow> url option"
  is_IP :: "string \<Rightarrow> bool"
  LookupIP :: "string \<Rightarrow> ip list option"

record DoHClient =
  doh_upstream :: string
  doh_name :: string
  doh_serverName :: "string option"

definition JoinHostPort :: "string \<Rightarrow> string \<Rightarrow> string" where
  "JoinHostPort host port =
     (if CHR '':'' \<in> set host then ''['' @ host @ '']:'' @ port else host @ '':'' @ port)"

definition NewDoHClient :: "net_env \<Rightarrow> string \<Rightarrow> string \<Rightarrow> DoHClient" where
  "NewDoHClient net upstream name =
     (let plain = \<lparr>doh_upstream = upstream, doh_name = name, doh_serverName = None\<rparr> in
      case url_Parse net upstream of
        None \<Rightarrow> plain
      | Some parsed \<Rightarrow>
          let host = Hostname parsed in
          if is_IP net host then plain
          else (case LookupIP net host of
            None \<Rightarrow> plain
          | Some ips \<Rightarrow>
              (case find (\<lambda>i. to4 i \<noteq> []) ips of
                 None \<Rightarrow> plain
               | Some i \<Rightarrow>
                   let port = (if Port parsed = [] then ''443'' else Port parsed)
                   in \<lparr>doh_upstream = with_host parsed (JoinHostPort (ip_string (to4 i)) port),
                       doh_name = name, doh_serverName = Some host\<rparr>)))"

text \<open>\<open>NewResolver\<close>: the clients of a comma separated list; one client is used directly.\<close>

definition resolver_clients :: "net_env \<Rightarrow> string \<Rightarrow> DoHClient list" where
  "resolver_clients net upstreams =
     map (\<lambda>u. let u = trim_space u in
       case map_of Presets u of
         Some p \<Rightarrow> NewDoHClient net p u
       | None \<Rightarrow> NewDoHClient net u u) (split_on CHR '','' upstreams)"

text \<open>
  \<open>DoHClient.Resolve\<close>: the result of building and sending the request (\<open>http\<close>) is a transport error,
  or a status with the body or the error of reading it.
\<close>

definition DoHResolve :: "(DoHClient \<Rightarrow> bytes \<Rightarrow> string + (nat \<times> (string + bytes))) \<Rightarrow> DoHClient \<Rightarrow> resolver" where
  "DoHResolve http d query =
     (case http d query of
        Inl err \<Rightarrow> Inl (''DoH request: '' @ err)
      | Inr (status, body) \<Rightarrow>
          if status \<noteq> 200 then Inl (''DoH status: '' @ dec status)
          else (case body of
            Inl err \<Rightarrow> Inl err
          | Inr data \<Rightarrow> Inr \<lparr>Data = data, Via = doh_name d\<rparr>))"

definition NewResolver :: "net_env \<Rightarrow> (DoHClient \<Rightarrow> bytes \<Rightarrow> string + (nat \<times> (string + bytes))) \<Rightarrow> string \<Rightarrow> resolver" where
  "NewResolver net http upstreams =
     (let clients = map (DoHResolve http) (resolver_clients net upstreams) in
      if length clients = 1 then clients ! 0 else fallbackResolve clients)"


subsection \<open>Lemmas\<close>

lemma queue_of_push_all:
  "queue_of (foldl (\<lambda>s i. pushDomain i d s) s ips) j = queue_of s j @ replicate (count_list ips j) d"
proof (induction ips arbitrary: s)
  case (Cons i ips)
  have "replicate n d @ [d] = d # replicate n d" for n
    by (metis replicate_append_same)
  with Cons show ?case
    by (simp add: dnsqueue.contents_push)
qed simp

lemma fallback_loop_eq:
  "fallback_loop err cs q =
     (case find (\<lambda>c. \<exists>r. c q = Inr r) cs of
        Some c \<Rightarrow> c q
      | None \<Rightarrow> if cs = [] then fallback_loop err [] q else last cs q)"
proof (induction cs arbitrary: err)
  case (Cons c cs)
  show ?case
  proof (cases "c q")
    case (Inl e)
    then show ?thesis
      using Cons.IH [of "Some e"] by (simp split: option.split)
  qed simp
qed simp

lemma resolver_clients_nonempty: "resolver_clients net u \<noteq> []"
  by (simp add: resolver_clients_def)

lemma NewResolver_eq:
  "NewResolver net http u q =
     (let clients = map (DoHResolve http) (resolver_clients net u) in
      case find (\<lambda>c. \<exists>r. c q = Inr r) clients of Some c \<Rightarrow> c q | None \<Rightarrow> last clients q)"
proof (cases "length (resolver_clients net u) = 1")
  case True
  then obtain c where "resolver_clients net u = [c]"
    by (auto simp: length_Suc_conv)
  then show ?thesis
    by (simp add: NewResolver_def)
next
  case False
  then have "NewResolver net http u q = fallback_loop None (map (DoHResolve http) (resolver_clients net u)) q"
    by (simp add: NewResolver_def fallbackResolve_def)
  then show ?thesis
    using resolver_clients_nonempty [of net u]
    by (simp add: Let_def) (subst fallback_loop_eq, simp)
qed

subsection \<open>Properties\<close>

text \<open>
  C38. The queue of domains is first in first out and conserves entries: from an empty server, after
  any history of pushes and pops, the domains pushed for an address are exactly the ones popped for
  it, in order, followed by the ones still queued.
\<close>

theorem domain_queue_fifo:
  assumes "dnsqueue.ops es newServer = (out, s)"
  shows "dnsqueue.pushed i es = dnsqueue.popped i out @ queue_of s i"
  using dnsqueue.fifo [OF assms, of i] by (simp add: newServer_def queue_of_def)

theorem domain_queue_fifo_witness:
  "\<exists>out s. dnsqueue.ops [(''1.2.3.4'', Some ''a.org''), (''1.2.3.4'', Some ''b.org''), (''1.2.3.4'', None)] newServer = (out, s) \<and>
     dnsqueue.popped ''1.2.3.4'' out @ queue_of s ''1.2.3.4'' = [''a.org'', ''b.org'']"
proof -
  let ?es = "[(''1.2.3.4'', Some ''a.org''), (''1.2.3.4'', Some ''b.org''), (''1.2.3.4'', None)]"
  obtain out s where r: "dnsqueue.ops ?es newServer = (out, s)" by fastforce
  from domain_queue_fifo [OF r, of "''1.2.3.4''"]
  have "dnsqueue.popped ''1.2.3.4'' out @ queue_of s ''1.2.3.4'' = [''a.org'', ''b.org'']"
    by (simp only: dnsqueue.pushed.simps if_True refl)
  with r show ?thesis by blast
qed

text \<open>
  Every query is answered exactly once and with its own id: the resolver's message with the id of
  the query when packing, resolving and unpacking succeed, and SERVFAIL in every other case.
\<close>

theorem handleQuery_answers_once:
  assumes "codec_ok c"
  shows "\<exists>resp. fst (handleQuery c resolve r s) = [resp] \<and> Id resp = Id r \<and>
    (case Pack c r of
       None \<Rightarrow> Rcode resp = 2
     | Some q \<Rightarrow>
         (case resolve q of
            Inl _ \<Rightarrow> Rcode resp = 2
          | Inr result \<Rightarrow>
              (case Unpack c (Data result) of
                 None \<Rightarrow> Rcode resp = 2
               | Some m \<Rightarrow> resp = m\<lparr>Id := Id r\<rparr>)))"
  using assms
  by (auto simp: handleQuery_def sendError_def codec_ok_def Let_def split: option.split sum.split)

definition sample_codec :: codec where
  "sample_codec = \<lparr>Pack = (\<lambda>m. Some (be16 (Id m))), Unpack = (\<lambda>_. None), SetRcode = (\<lambda>m code. m\<lparr>Rcode := code\<rparr>)\<rparr>"

theorem handleQuery_answers_once_witness:
  "\<exists>resp. fst (handleQuery sample_codec (\<lambda>_. Inl ''timeout'')
      \<lparr>Id = 77, Rcode = 0, Questions = [], Answer = []\<rparr> newServer) = [resp] \<and> Id resp = 77 \<and> Rcode resp = 2"
  using handleQuery_answers_once [of sample_codec "\<lambda>_. Inl ''timeout''" "\<lparr>Id = 77, Rcode = 0, Questions = [], Answer = []\<rparr>" newServer]
  by (auto simp: sample_codec_def codec_ok_def)

text \<open>
  What the server remembers: after a successful A or AAAA query each address of the answer has the
  question's name, without its final dot, appended to its queue once per record, other queues are
  unchanged; and a query that failed or asked for another type changes no queue.
\<close>

theorem handleQuery_remembers:
  "queue_of (snd (handleQuery c resolve r s)) i = queue_of s i @
    (case Pack c r of
       None \<Rightarrow> []
     | Some q \<Rightarrow>
         (case resolve q of
            Inl _ \<Rightarrow> []
          | Inr result \<Rightarrow>
              (case Unpack c (Data result) of
                 None \<Rightarrow> []
               | Some m \<Rightarrow>
                   (if Questions r \<noteq> [] \<and> Qtype (hd (Questions r)) \<in> {1, 28}
                    then replicate (count_list (answer_ips (Answer m)) i) (trim_suffix ''.'' (Name (hd (Questions r))))
                    else []))))"
  by (auto simp: handleQuery_def remember_def Let_def queue_of_push_all hd_conv_nth split: option.split sum.split)

text \<open>
  Upstreams are tried in the configured order: the resolver of a comma separated list returns the
  result of the first upstream that succeeds, and if none does the error of the last one, so it
  succeeds as soon as any upstream does and never returns an empty result in place of an error.
\<close>

theorem NewResolver_first_success:
  "NewResolver net http upstreams query =
     (let clients = map (DoHResolve http) (resolver_clients net upstreams) in
      case find (\<lambda>c. \<exists>r. c query = Inr r) clients of
        Some c \<Rightarrow> c query
      | None \<Rightarrow> last clients query) \<and>
   length (resolver_clients net upstreams) = length (split_on CHR '','' upstreams)"
  using NewResolver_eq [of net http upstreams query] by (simp add: resolver_clients_def)

end
