(* ===== verification/DnsService.thy ===== *)
theory DnsService
  imports DnsServer
begin

text \<open>
  Starting and stopping the local DNS server (pkg/dns/server.go): \<open>Start\<close> runs \<open>ListenAndServe\<close> in a
  goroutine and waits on the channel \<open>started\<close>, which the server's start notification and its error
  path both send to. Every interleaving of the two is a run of a step relation. \<open>Server.ListenAndServe\<close>
  and \<open>Shutdown\<close> of package miekg/dns are parameters, used as documented: the notification runs once
  the socket is bound, and serving ends with an error or, after \<open>Shutdown\<close>, without one. The names of the
  resolvers (pkg/dns/doh.go) are here too. What is proved: \<open>Start\<close> always returns, reports success
  only for a bound socket and a failure to bind always, and neither goroutine is ever left blocked.
\<close>

subsection \<open>The two goroutines\<close>

text \<open>
  What the library does in one run: the result of binding 127.0.0.1:53, and how serving ends, \<open>None\<close> if
  it goes on forever, \<open>Some None\<close> after a shutdown.
\<close>

record listen_env =
  bind_res :: "string err"
  serve_res :: "string err option"

text \<open>
  The program counters: the caller of \<open>Start\<close>, and the goroutine with \<open>ListenAndServe\<close>. \<open>Notifying\<close> is
  the call of \<open>NotifyStartedFunc\<close>, \<open>Reporting\<close> the \<open>select\<close> after an error.
\<close>

datatype start_pc = StartWaits | StartReturned "string err"

datatype listen_pc = Binding | Notifying | Serving | Reporting string | Finished

text \<open>\<open>started\<close> has room for one value, nil being \<open>None\<close>. \<open>bound\<close> tells whether the socket was ever bound.\<close>

record dns_run =
  start_pc :: start_pc
  listen_pc :: listen_pc
  started_chan :: "string err list"
  bound :: bool

definition chan_cap :: nat where
  "chan_cap = 1"

definition dns_init :: dns_run where
  "dns_init = \<lparr>start_pc = StartWaits, listen_pc = Binding, started_chan = [], bound = False\<rparr>"

inductive dns_step :: "listen_env \<Rightarrow> dns_run \<Rightarrow> dns_run \<Rightarrow> bool" for env where
  bind_failed: "listen_pc s = Binding \<Longrightarrow> bind_res env = Some e \<Longrightarrow> dns_step env s (s\<lparr>listen_pc := Reporting e\<rparr>)"
| bind_done: "listen_pc s = Binding \<Longrightarrow> bind_res env = None \<Longrightarrow> dns_step env s (s\<lparr>listen_pc := Notifying, bound := True\<rparr>)"
| notify: "listen_pc s = Notifying \<Longrightarrow> length (started_chan s) < chan_cap \<Longrightarrow>
    dns_step env s (s\<lparr>listen_pc := Serving, started_chan := started_chan s @ [None]\<rparr>)"
| serve_failed: "listen_pc s = Serving \<Longrightarrow> serve_res env = Some (Some e) \<Longrightarrow> dns_step env s (s\<lparr>listen_pc := Reporting e\<rparr>)"
| serve_shutdown: "listen_pc s = Serving \<Longrightarrow> serve_res env = Some None \<Longrightarrow> dns_step env s (s\<lparr>listen_pc := Finished\<rparr>)"
| report_sent: "listen_pc s = Reporting e \<Longrightarrow> length (started_chan s) < chan_cap \<Longrightarrow>
    dns_step env s (s\<lparr>listen_pc := Finished, started_chan := started_chan s @ [Some e]\<rparr>)"
| report_dropped: "listen_pc s = Reporting e \<Longrightarrow> \<not> length (started_chan s) < chan_cap \<Longrightarrow>
    dns_step env s (s\<lparr>listen_pc := Finished\<rparr>)"
| start_receives: "start_pc s = StartWaits \<Longrightarrow> started_chan s = m # rest \<Longrightarrow>
    dns_step env s (s\<lparr>start_pc := StartReturned (map_option (\<lambda>e. ''DNS server: '' @ e) m), started_chan := rest\<rparr>)"

code_pred (modes: i \<Rightarrow> i \<Rightarrow> o \<Rightarrow> bool) dns_step .

inductive_cases dns_stepE: "dns_step env s s'"

abbreviation dns_reach :: "listen_env \<Rightarrow> dns_run \<Rightarrow> bool" where
  "dns_reach env s \<equiv> (dns_step env)\<^sup>*\<^sup>* dns_init s"

text \<open>\<open>Stop\<close>: \<open>s.server\<close> is nil before the first \<open>Start\<close>.\<close>

datatype dns_call = Shutdown

definition StopDns :: "bool \<Rightarrow> string err \<Rightarrow> string err \<times> dns_call list" where
  "StopDns has_server shutdown_res = (if has_server then (shutdown_res, [Shutdown]) else (None, []))"

subsection \<open>Names\<close>

definition DoHName :: "DoHClient \<Rightarrow> string" where
  "DoHName d = doh_name d"

definition fallbackName :: "DoHClient list \<Rightarrow> string" where
  "fallbackName clients = join_with '','' (foldl (\<lambda>names c. names @ [DoHName c]) [] clients)"

subsection \<open>Invariant and variant\<close>

text \<open>
  Once a first message has been sent, it is either still in the channel or \<open>Start\<close> has returned it; it is
  the result of binding the socket.
\<close>

definition settled :: "listen_env \<Rightarrow> string err list \<Rightarrow> start_pc \<Rightarrow> bool" where
  "settled env ch st \<longleftrightarrow>
     st = StartWaits \<and> ch = [bind_res env] \<or>
     st = StartReturned (map_option (\<lambda>e. ''DNS server: '' @ e) (bind_res env)) \<and> length ch \<le> chan_cap"

fun inv_at :: "listen_env \<Rightarrow> listen_pc \<Rightarrow> string err list \<Rightarrow> start_pc \<Rightarrow> bool \<Rightarrow> bool" where
  "inv_at env Binding ch st b \<longleftrightarrow> \<not> b \<and> ch = [] \<and> st = StartWaits"
| "inv_at env Notifying ch st b \<longleftrightarrow> b \<and> bind_res env = None \<and> ch = [] \<and> st = StartWaits"
| "inv_at env Serving ch st b \<longleftrightarrow> b \<and> bind_res env = None \<and> settled env ch st"
| "inv_at env (Reporting e) ch st b \<longleftrightarrow>
     b \<and> bind_res env = None \<and> settled env ch st \<or> \<not> b \<and> bind_res env = Some e \<and> ch = [] \<and> st = StartWaits"
| "inv_at env Finished ch st b \<longleftrightarrow> (b \<longleftrightarrow> bind_res env = None) \<and> settled env ch st"

abbreviation dns_inv :: "listen_env \<Rightarrow> dns_run \<Rightarrow> bool" where
  "dns_inv env s \<equiv> inv_at env (listen_pc s) (started_chan s) (start_pc s) (bound s)"

lemma dns_inv_init: "dns_inv env dns_init"
  by (simp add: dns_init_def)

lemma settled_receive: "settled env (m # rest) StartWaits \<Longrightarrow>
  settled env rest (StartReturned (map_option (\<lambda>e. ''DNS server: '' @ e) m))"
  by (auto simp: settled_def chan_cap_def)

lemma settled_room: "settled env ch st \<Longrightarrow> length ch < chan_cap \<Longrightarrow> settled env (ch @ [m]) st"
  by (auto simp: settled_def chan_cap_def)

lemma inv_at_receive: "inv_at env pc (m # rest) StartWaits b \<Longrightarrow>
  inv_at env pc rest (StartReturned (map_option (\<lambda>e. ''DNS server: '' @ e) m)) b"
  by (cases pc) (auto dest: settled_receive)

lemma dns_inv_step: "dns_step env s s' \<Longrightarrow> dns_inv env s \<Longrightarrow> dns_inv env s'"
proof (induction rule: dns_step.induct)
  case (start_receives s m rest)
  then show ?case
    using inv_at_receive [of env "listen_pc s" m rest "bound s"] by simp
next
  case (report_sent s e)
  then show ?case
    by (auto intro: settled_room) (simp add: settled_def)
next
  case (report_dropped s e)
  then show ?case
    by (auto simp: chan_cap_def)
next
  case (notify s)
  then show ?case by (simp add: settled_def)
qed simp_all

lemma dns_reach_inv: "dns_reach env s \<Longrightarrow> dns_inv env s"
  by (induction rule: rtranclp_induct) (auto intro: dns_inv_init dns_inv_step)

fun listen_rank :: "listen_pc \<Rightarrow> nat" where
  "listen_rank Binding = 4"
| "listen_rank Notifying = 3"
| "listen_rank Serving = 2"
| "listen_rank (Reporting e) = 1"
| "listen_rank Finished = 0"

definition dns_rank :: "dns_run \<Rightarrow> nat" where
  "dns_rank s = listen_rank (listen_pc s) + (if start_pc s = StartWaits then 1 else 0)"

lemma dns_rank_step: "dns_step env s s' \<Longrightarrow> dns_rank s' < dns_rank s"
  by (cases s) (erule dns_stepE; auto simp: dns_rank_def)

text \<open>While \<open>Start\<close> waits, some step is possible.\<close>

lemma dns_progress:
  assumes "dns_inv env s" and "start_pc s = StartWaits"
  shows "\<exists>s'. dns_step env s s'"
proof (cases "listen_pc s")
  case Binding
  then show ?thesis
    using dns_step.bind_failed [of s env] dns_step.bind_done [of s env] by (cases "bind_res env") blast+
next
  case Notifying
  with assms have "length (started_chan s) < chan_cap" by (simp add: chan_cap_def)
  then show ?thesis
    using dns_step.notify [OF Notifying] by blast
next
  case (Reporting e)
  then show ?thesis
    using dns_step.report_sent [of s e] dns_step.report_dropped [of s e] by blast
next
  case Serving
  with assms have "started_chan s = [bind_res env]"
    by (simp add: settled_def)
  then show ?thesis
    using dns_step.start_receives [OF assms(2)] by blast
next
  case Finished
  with assms have "started_chan s = [bind_res env]"
    by (simp add: settled_def)
  then show ?thesis
    using dns_step.start_receives [OF assms(2)] by blast
qed

lemma dns_report:
  assumes "listen_pc s = Reporting e"
  shows "\<exists>s'. dns_step env s s' \<and> listen_pc s' = Finished"
proof (cases "length (started_chan s) < chan_cap")
  case True
  from dns_step.report_sent [OF assms this, of env] show ?thesis by fastforce
next
  case False
  from dns_step.report_dropped [OF assms this, of env] show ?thesis by fastforce
qed

lemma dns_returned:
  assumes "dns_inv env s" and "start_pc s = StartReturned r"
  shows "r = map_option (\<lambda>e. ''DNS server: '' @ e) (bind_res env)" and "r = None \<longleftrightarrow> bound s"
  using assms by (cases "listen_pc s"; auto simp: settled_def)+

subsection \<open>Properties\<close>

text \<open>
  C39. Starting the DNS server, over all interleavings of \<open>Start\<close> and its goroutine: every step brings the
  run closer to its end and while \<open>Start\<close> has not returned some step is possible, so it returns within
  five steps; it returns nil exactly if the socket is bound, otherwise the error of binding it, never
  that of a later failure; and no send can block: there is room when the notification sends, and the
  report of an error always completes.
\<close>

theorem dns_start_returns:
  assumes "dns_reach env s"
  shows "(\<forall>s'. dns_step env s s' \<longrightarrow> dns_rank s' < dns_rank s) \<and> dns_rank s \<le> 5 \<and>
    (start_pc s = StartWaits \<longrightarrow> (\<exists>s'. dns_step env s s')) \<and>
    (\<forall>r. start_pc s = StartReturned r \<longrightarrow>
       r = map_option (\<lambda>e. ''DNS server: '' @ e) (bind_res env) \<and> (r = None \<longleftrightarrow> bound s)) \<and>
    (listen_pc s = Notifying \<longrightarrow> length (started_chan s) < chan_cap) \<and>
    (\<forall>e. listen_pc s = Reporting e \<longrightarrow> (\<exists>s'. dns_step env s s' \<and> listen_pc s' = Finished))"
proof (intro conjI allI impI)
  have inv: "dns_inv env s" by (rule dns_reach_inv [OF assms])
  show "dns_rank s \<le> 5"
    by (cases "listen_pc s") (simp_all add: dns_rank_def)
  show "length (started_chan s) < chan_cap" if "listen_pc s = Notifying"
    using inv that by (simp add: chan_cap_def)
  show "\<exists>s'. dns_step env s s'" if "start_pc s = StartWaits"
    by (rule dns_progress [OF inv that])
  show "r = map_option (\<lambda>e. ''DNS server: '' @ e) (bind_res env)" "r = None \<longleftrightarrow> bound s" if "start_pc s = StartReturned r" for r
    by (rule dns_returned [OF inv that])+
qed (simp_all add: dns_rank_step dns_report)

text \<open>The run in which the port is taken: bind, report, receive.\<close>

theorem dns_start_returns_witness:
  "\<exists>s. dns_reach \<lparr>bind_res = Some ''address already in use'', serve_res = None\<rparr> s \<and>
     start_pc s = StartReturned (Some ''DNS server: address already in use'') \<and> \<not> bound s"
proof -
  let ?env = "\<lparr>bind_res = Some ''address already in use'', serve_res = None\<rparr>"
  let ?s1 = "dns_init\<lparr>listen_pc := Reporting ''address already in use''\<rparr>"
  let ?s2 = "?s1\<lparr>listen_pc := Finished, started_chan := [Some ''address already in use'']\<rparr>"
  let ?s3 = "?s2\<lparr>start_pc := StartReturned (Some ''DNS server: address already in use''), started_chan := []\<rparr>"
  have "dns_step ?env dns_init ?s1"
    using dns_step.bind_failed [of dns_init ?env] by (simp add: dns_init_def)
  moreover have "dns_step ?env ?s1 ?s2"
    using dns_step.report_sent [of ?s1 _ ?env] by (simp add: dns_init_def chan_cap_def)
  moreover have "dns_step ?env ?s2 ?s3"
    using dns_step.start_receives [of ?s2 "Some ''address already in use''" "[]" ?env] by (simp add: dns_init_def)
  ultimately have r: "dns_reach ?env ?s3"
    by (meson rtranclp.rtrancl_into_rtrancl rtranclp.rtrancl_refl)
  have "start_pc ?s3 = StartReturned (Some ''DNS server: address already in use'')" by simp
  with dns_start_returns [OF r] r show ?thesis by blast
qed

end
