(* ===== verification/Sockops.thy ===== *)
theory Sockops
  imports Bytes
begin

text \<open>
  The kernel side of the eBPF engine (pkg/ebpf/bpf/src/sockops.go): the handlers of the \<open>sock_ops\<close>
  program and their maps. The maps are functions of the state, a write through the pointer a lookup
  returns is an update of the map, and calls of kernel helpers are effects. The numbers of the kernel's
  callbacks and flags belong to the package \<open>bpf\<close> and are a parameter. What is proved: which
  connections are treated and how, and that over any sequence of segments the segment size is restored
  exactly once, at the first segment that passes the configured volume, without wrap-around.
\<close>

subsection \<open>Data\<close>

record BpfConfig =
  cMSS :: u16
  cRestoreMSS :: u16
  cRestoreAfterBytes :: u32
  cEnabled :: byte

record ConnEvent =
  evSrcIP :: u32
  evDstIP :: u32
  evSrcPort :: u16
  evDstPort :: u16
  evSeq :: u32
  evAck :: u32

record ConnState =
  BytesSent :: u32
  MssRestored :: byte

text \<open>The fields of \<open>bpf.SockOpsMd\<close> the program reads, and the socket's cookie.\<close>

record SockOpsMd =
  md_Op :: u32
  LocalIp4 :: u32
  RemoteIp4 :: u32
  LocalPort :: u32
  RemotePort :: u32
  SndNxt :: u32
  RcvNxt :: u32
  SkbLen :: u32
  CbFlags :: u32
  md_cookie :: u64

record uapi =
  ActiveEstablishedCb :: u32
  HdrOptLenCb :: u32
  WriteHdrOptCb :: u32
  WriteHdrOptCbFlag :: u32

definition uapi_ok :: "uapi \<Rightarrow> bool" where
  "uapi_ok u \<longleftrightarrow> distinct [ActiveEstablishedCb u, HdrOptLenCb u, WriteHdrOptCb u] \<and> WriteHdrOptCbFlag u \<noteq> 0"

record maps =
  ConfigMap :: "BpfConfig option"
  TargetPorts :: "u16 \<Rightarrow> byte option"
  ExcludeIps :: "u32 \<Rightarrow> byte option"
  Connections :: "u64 \<Rightarrow> ConnState option"

datatype bpf_effect =
    SetMaxSeg "32 word"
  | OutputEvent ConnEvent
  | CbFlagsSet u32
  | ReserveHdrOpt

text \<open>\<open>ntohl\<close> on the little endian targets the program is built for (x86 and arm64).\<close>

definition Ntohl :: "u32 \<Rightarrow> u32" where
  "Ntohl v = get_be32 (ucast v) (ucast (drop_bit 8 v)) (ucast (drop_bit 16 v)) (ucast (drop_bit 24 v))"

subsection \<open>Handlers\<close>

definition handleEstablished :: "uapi \<Rightarrow> SockOpsMd \<Rightarrow> BpfConfig \<Rightarrow> maps \<Rightarrow> bpf_effect list \<times> maps" where
  "handleEstablished u ctx conf m =
     (let dstIP = RemoteIp4 ctx in
      if ExcludeIps m dstIP \<noteq> None then ([], m)
      else
        let dstPort = (ucast (Ntohl (RemotePort ctx)) :: u16) in
        if TargetPorts m dstPort = None then ([], m)
        else
          let mss = (ucast (cMSS conf) :: u32);
              evt = \<lparr>evSrcIP = LocalIp4 ctx, evDstIP = RemoteIp4 ctx, evSrcPort = ucast (LocalPort ctx),
                evDstPort = dstPort, evSeq = SndNxt ctx, evAck = RcvNxt ctx\<rparr>;
              state = \<lparr>BytesSent = 0, MssRestored = 0\<rparr>;
              flags = (CbFlags ctx OR WriteHdrOptCbFlag u)
          in ([SetMaxSeg mss, OutputEvent evt, CbFlagsSet flags],
              m\<lparr>Connections := (Connections m)(md_cookie ctx := Some state)\<rparr>))"

definition handleHdrOptLen :: "maps \<Rightarrow> bpf_effect list \<times> maps" where
  "handleHdrOptLen m = ([ReserveHdrOpt], m)"

definition handleWriteHdrOpt :: "uapi \<Rightarrow> SockOpsMd \<Rightarrow> BpfConfig \<Rightarrow> maps \<Rightarrow> bpf_effect list \<times> maps" where
  "handleWriteHdrOpt u ctx conf m =
     (case Connections m (md_cookie ctx) of
        None \<Rightarrow> ([], m)
      | Some state \<Rightarrow>
          if MssRestored state \<noteq> 0 then ([], m)
          else
            let state = state\<lparr>BytesSent := BytesSent state + SkbLen ctx\<rparr> in
            if BytesSent state > cRestoreAfterBytes conf then
              let normalMSS = (if cRestoreMSS conf \<noteq> 0 then ucast (cRestoreMSS conf) else 1460 :: u32);
                  flags = (CbFlags ctx AND NOT (WriteHdrOptCbFlag u))
              in ([SetMaxSeg normalMSS, CbFlagsSet flags],
                  m\<lparr>Connections := (Connections m)(md_cookie ctx := None)\<rparr>)
            else ([], m\<lparr>Connections := (Connections m)(md_cookie ctx := Some state)\<rparr>))"

definition GecitSockops :: "uapi \<Rightarrow> SockOpsMd \<Rightarrow> maps \<Rightarrow> bpf_effect list \<times> maps" where
  "GecitSockops u ctx m =
     (case ConfigMap m of
        None \<Rightarrow> ([], m)
      | Some conf \<Rightarrow>
          if cEnabled conf = 0 then ([], m)
          else if md_Op ctx = ActiveEstablishedCb u then handleEstablished u ctx conf m
          else if md_Op ctx = HdrOptLenCb u then handleHdrOptLen m
          else if md_Op ctx = WriteHdrOptCb u then handleWriteHdrOpt u ctx conf m
          else ([], m))"

text \<open>A sequence of callbacks.\<close>

fun run_ops :: "uapi \<Rightarrow> SockOpsMd list \<Rightarrow> maps \<Rightarrow> bpf_effect list \<times> maps" where
  "run_ops u [] m = ([], m)"
| "run_ops u (ctx # ctxs) m =
     (let (effs, m) = GecitSockops u ctx m; (effs', m) = run_ops u ctxs m in (effs @ effs', m))"

subsection \<open>Lemmas\<close>

definition sent_total :: "SockOpsMd list \<Rightarrow> nat" where
  "sent_total ctxs = sum_list (map (\<lambda>c. unat (SkbLen c)) ctxs)"

lemma sent_total_simps [simp]:
  "sent_total [] = 0" "sent_total (c # cs) = unat (SkbLen c) + sent_total cs"
  "sent_total (xs @ ys) = sent_total xs + sent_total ys"
  by (simp_all add: sent_total_def)

definition restore_mss :: "BpfConfig \<Rightarrow> u32" where
  "restore_mss conf = (if cRestoreMSS conf \<noteq> 0 then ucast (cRestoreMSS conf) else 1460)"

definition segments_of :: "uapi \<Rightarrow> u64 \<Rightarrow> SockOpsMd list \<Rightarrow> bool" where
  "segments_of u k ctxs \<longleftrightarrow> (\<forall>c \<in> set ctxs. md_Op c = WriteHdrOptCb u \<and> md_cookie c = k)"

lemma GecitSockops_write:
  assumes "uapi_ok u" and "ConfigMap m = Some conf" and "cEnabled conf \<noteq> 0" and "md_Op ctx = WriteHdrOptCb u"
  shows "GecitSockops u ctx m = handleWriteHdrOpt u ctx conf m"
  using assms by (auto simp: GecitSockops_def uapi_ok_def)

lemma GecitSockops_established:
  assumes "ConfigMap m = Some conf" and "cEnabled conf \<noteq> 0" and "md_Op ctx = ActiveEstablishedCb u"
  shows "GecitSockops u ctx m = handleEstablished u ctx conf m"
  using assms by (simp add: GecitSockops_def)

lemma ConfigMap_kept: "ConfigMap (snd (GecitSockops u ctx m)) = ConfigMap m"
  by (simp add: GecitSockops_def handleEstablished_def handleHdrOptLen_def handleWriteHdrOpt_def Let_def split: option.split)

lemma run_untracked:
  assumes "uapi_ok u" and "ConfigMap m = Some conf" and "cEnabled conf \<noteq> 0" and "segments_of u k ctxs"
    and "Connections m k = None"
  shows "run_ops u ctxs m = ([], m)"
  using assms(4)
proof (induction ctxs)
  case (Cons c cs)
  then have "md_Op c = WriteHdrOptCb u" "md_cookie c = k" "run_ops u cs m = ([], m)"
    by (simp_all add: segments_of_def)
  with assms(5) GecitSockops_write [OF assms(1-3), of c] show ?case
    by (simp add: handleWriteHdrOpt_def)
qed simp

lemma run_tracked:
  assumes "uapi_ok u" and "ConfigMap m = Some conf" and "cEnabled conf \<noteq> 0" and "segments_of u k ctxs"
    and "Connections m k = Some st" and "MssRestored st = 0"
    and "unat (BytesSent st) + sent_total ctxs < 2 ^ 32" and "unat (BytesSent st) \<le> unat (cRestoreAfterBytes conf)"
  shows "if unat (BytesSent st) + sent_total ctxs \<le> unat (cRestoreAfterBytes conf)
    then fst (run_ops u ctxs m) = [] \<and>
      Connections (snd (run_ops u ctxs m)) k = Some (st\<lparr>BytesSent := of_nat (unat (BytesSent st) + sent_total ctxs)\<rparr>)
    else (\<exists>pre c post. ctxs = pre @ c # post \<and>
        unat (BytesSent st) + sent_total pre \<le> unat (cRestoreAfterBytes conf) \<and>
        unat (cRestoreAfterBytes conf) < unat (BytesSent st) + sent_total (pre @ [c]) \<and>
        fst (run_ops u ctxs m) = [SetMaxSeg (restore_mss conf), CbFlagsSet (CbFlags c AND NOT (WriteHdrOptCbFlag u))]) \<and>
      Connections (snd (run_ops u ctxs m)) k = None"
  using assms
proof (induction ctxs arbitrary: m st)
  case Nil
  then show ?case by (simp add: sent_total_def)
next
  case (Cons c cs)
  let ?R = "unat (cRestoreAfterBytes conf)"
  let ?b = "unat (BytesSent st) + unat (SkbLen c)"
  have c: "md_Op c = WriteHdrOptCb u" "md_cookie c = k" and cs: "segments_of u k cs"
    using Cons.prems(4) by (simp_all add: segments_of_def)
  have tot: "sent_total (c # cs) = unat (SkbLen c) + sent_total cs"
    by (simp add: sent_total_def)
  have b: "unat (BytesSent st + SkbLen c) = ?b"
    using Cons.prems(7) tot by (simp add: unat_word_ariths)
  have gt: "BytesSent st + SkbLen c > cRestoreAfterBytes conf \<longleftrightarrow> ?R < ?b"
    by (simp add: word_less_nat_alt b)
  note step = GecitSockops_write [OF Cons.prems(1-3) c(1)]
  show ?case
  proof (cases "?R < ?b")
    case True
    let ?m = "m\<lparr>Connections := (Connections m)(k := None)\<rparr>"
    have s: "GecitSockops u c m = ([SetMaxSeg (restore_mss conf), CbFlagsSet (CbFlags c AND NOT (WriteHdrOptCbFlag u))], ?m)"
      using Cons.prems(5,6) c(2) gt True by (simp add: step handleWriteHdrOpt_def restore_mss_def)
    have r: "run_ops u cs ?m = ([], ?m)"
      by (rule run_untracked [OF Cons.prems(1) _ Cons.prems(3) cs]) (simp_all add: Cons.prems(2))
    from True have "\<not> unat (BytesSent st) + sent_total (c # cs) \<le> ?R"
      by (simp add: tot)
    then show ?thesis
      using True Cons.prems(8) by (simp add: s r tot) (intro exI [of _ "[]"] exI [of _ c], simp add: sent_total_def)
  next
    case False
    let ?st = "st\<lparr>BytesSent := BytesSent st + SkbLen c\<rparr>"
    let ?m = "m\<lparr>Connections := (Connections m)(k := Some ?st)\<rparr>"
    have s: "GecitSockops u c m = ([], ?m)"
      using Cons.prems(5,6) c(2) gt False by (simp add: step handleWriteHdrOpt_def)
    have pre: "ConfigMap ?m = Some conf" "Connections ?m k = Some ?st" "MssRestored ?st = 0"
      "unat (BytesSent ?st) + sent_total cs < 2 ^ 32" "unat (BytesSent ?st) \<le> ?R"
      using Cons.prems(2,6,7) False by (simp_all add: b tot)
    note IH = Cons.IH [OF Cons.prems(1) pre(1) Cons.prems(3) cs pre(2-5)]
    show ?thesis
    proof (cases "?b + sent_total cs \<le> ?R")
      case True
      with IH show ?thesis by (simp add: s b tot add.assoc)
    next
      case False
      with IH obtain p d q where "cs = p @ d # q" "?b + sent_total p \<le> ?R" "?R < ?b + sent_total (p @ [d])"
        "fst (run_ops u cs ?m) = [SetMaxSeg (restore_mss conf), CbFlagsSet (CbFlags d AND NOT (WriteHdrOptCbFlag u))]"
        "Connections (snd (run_ops u cs ?m)) k = None"
        by (auto simp: b)
      note * = this
      have "\<exists>pre e post. c # cs = pre @ e # post \<and> unat (BytesSent st) + sent_total pre \<le> ?R \<and>
          ?R < unat (BytesSent st) + sent_total (pre @ [e]) \<and>
          fst (run_ops u (c # cs) m) = [SetMaxSeg (restore_mss conf), CbFlagsSet (CbFlags e AND NOT (WriteHdrOptCbFlag u))]"
        using * by (intro exI [of _ "c # p"] exI [of _ d] exI [of _ q]) (simp add: s split_def)
      moreover have "Connections (snd (run_ops u (c # cs) m)) k = None"
        using * by (simp add: s split_def)
      moreover have "\<not> unat (BytesSent st) + sent_total (c # cs) \<le> ?R"
        using False by simp
      ultimately show ?thesis by (simp only: if_False simp_thms)
    qed
  qed
qed


subsection \<open>Properties\<close>

text \<open>
  Which connections are treated, and how: with the program enabled, an established connection to a
  target port of an address that is not excluded gets the configured segment size, one event with its
  addresses, ports, sequence and acknowledgement numbers, a fresh counter and the write callback; every
  other established connection is left alone and no other connection's counter is touched.
\<close>

theorem sockops_established:
  assumes "ConfigMap m = Some conf" and "cEnabled conf \<noteq> 0" and "md_Op ctx = ActiveEstablishedCb u"
  defines "port \<equiv> ucast (Ntohl (RemotePort ctx)) :: u16"
  shows "(if ExcludeIps m (RemoteIp4 ctx) = None \<and> TargetPorts m port \<noteq> None
    then fst (GecitSockops u ctx m) = [SetMaxSeg (ucast (cMSS conf)),
          OutputEvent \<lparr>evSrcIP = LocalIp4 ctx, evDstIP = RemoteIp4 ctx, evSrcPort = ucast (LocalPort ctx),
            evDstPort = port, evSeq = SndNxt ctx, evAck = RcvNxt ctx\<rparr>,
          CbFlagsSet (CbFlags ctx OR WriteHdrOptCbFlag u)] \<and>
        Connections (snd (GecitSockops u ctx m)) (md_cookie ctx) = Some \<lparr>BytesSent = 0, MssRestored = 0\<rparr>
    else GecitSockops u ctx m = ([], m)) \<and>
    (\<forall>k. k = md_cookie ctx \<or> Connections (snd (GecitSockops u ctx m)) k = Connections m k)"
  unfolding GecitSockops_established [OF assms(1-3)] port_def
  by (cases "TargetPorts m (ucast (Ntohl (RemotePort ctx)))") (simp_all add: handleEstablished_def Let_def)

definition sample_uapi :: uapi where
  "sample_uapi = \<lparr>ActiveEstablishedCb = 4, HdrOptLenCb = 14, WriteHdrOptCb = 15, WriteHdrOptCbFlag = 64\<rparr>"

definition sample_maps :: maps where
  "sample_maps = \<lparr>ConfigMap = Some \<lparr>cMSS = 88, cRestoreMSS = 0, cRestoreAfterBytes = 600, cEnabled = 1\<rparr>,
     TargetPorts = (\<lambda>p. if p = 443 then Some 1 else None), ExcludeIps = (\<lambda>_. None), Connections = (\<lambda>_. None)\<rparr>"

definition sample_ctx :: SockOpsMd where
  "sample_ctx = \<lparr>md_Op = 4, LocalIp4 = 0x0100000A, RemoteIp4 = 0x22D8B85D, LocalPort = 12345,
     RemotePort = 0xBB010000, SndNxt = 1000, RcvNxt = 2000, SkbLen = 0, CbFlags = 0, md_cookie = 9\<rparr>"

lemma sample_port: "ucast (Ntohl (RemotePort sample_ctx)) = (443 :: u16)"
  by (simp add: sample_ctx_def Ntohl_def get_be32_def)

theorem sockops_established_witness:
  "SetMaxSeg 88 \<in> set (fst (GecitSockops sample_uapi sample_ctx sample_maps))"
proof -
  have "ConfigMap sample_maps = Some \<lparr>cMSS = 88, cRestoreMSS = 0, cRestoreAfterBytes = 600, cEnabled = 1\<rparr>"
    "md_Op sample_ctx = ActiveEstablishedCb sample_uapi"
    by (simp_all add: sample_maps_def sample_ctx_def sample_uapi_def)
  from sockops_established [OF this(1) _ this(2)] show ?thesis
    unfolding sample_port by (simp add: sample_maps_def)
qed

text \<open>
  C40. The segment size is restored exactly once and at the right time: for a treated connection and any
  sequence of its segments below 4 GiB in total, nothing is changed while the volume is at most
  \<open>RestoreAfterBytes\<close>; at the first segment that passes it the normal size is set (1460 when none is
  configured), the write callback is switched off, and the connection is no longer tracked.
\<close>

theorem sockops_restores_once:
  assumes "uapi_ok u" and "ConfigMap m = Some conf" and "cEnabled conf \<noteq> 0"
    and "md_Op ctx = ActiveEstablishedCb u" and "ExcludeIps m (RemoteIp4 ctx) = None"
    and "TargetPorts m (ucast (Ntohl (RemotePort ctx))) \<noteq> None"
    and "segments_of u (md_cookie ctx) segs" and "sent_total segs < 2 ^ 32"
    and "run_ops u segs (snd (GecitSockops u ctx m)) = (effs, m')"
  shows "if sent_total segs \<le> unat (cRestoreAfterBytes conf)
    then effs = [] \<and> Connections m' (md_cookie ctx) \<noteq> None
    else Connections m' (md_cookie ctx) = None \<and>
      (\<exists>pre c post. segs = pre @ c # post \<and> sent_total pre \<le> unat (cRestoreAfterBytes conf) \<and>
        unat (cRestoreAfterBytes conf) < sent_total (pre @ [c]) \<and>
        effs = [SetMaxSeg (if cRestoreMSS conf \<noteq> 0 then ucast (cRestoreMSS conf) else 1460),
          CbFlagsSet (CbFlags c AND NOT (WriteHdrOptCbFlag u))])"
proof -
  let ?m = "snd (GecitSockops u ctx m)"
  have conf: "ConfigMap ?m = Some conf"
    by (simp add: ConfigMap_kept assms(2))
  have st: "Connections ?m (md_cookie ctx) = Some \<lparr>BytesSent = 0, MssRestored = 0\<rparr>"
    using assms(5,6) unfolding GecitSockops_established [OF assms(2-4)]
    by (cases "TargetPorts m (ucast (Ntohl (RemotePort ctx)))") (simp_all add: handleEstablished_def Let_def)
  have "unat (BytesSent \<lparr>BytesSent = 0, MssRestored = 0\<rparr>) + sent_total segs < 2 ^ 32"
    using assms(8) by simp
  from run_tracked [OF assms(1) conf assms(3,7) st _ this] show ?thesis
    unfolding assms(9) by (auto simp: restore_mss_def split: if_splits)
qed

theorem sockops_restores_once_witness:
  "\<exists>effs m'. run_ops sample_uapi [sample_ctx\<lparr>md_Op := 15, SkbLen := 500\<rparr>, sample_ctx\<lparr>md_Op := 15, SkbLen := 101\<rparr>]
      (snd (GecitSockops sample_uapi sample_ctx sample_maps)) = (effs, m') \<and> Connections m' 9 = None"
proof -
  let ?segs = "[sample_ctx\<lparr>md_Op := 15, SkbLen := 500\<rparr>, sample_ctx\<lparr>md_Op := 15, SkbLen := 101\<rparr>]"
  have a: "uapi_ok sample_uapi"
    by (simp add: uapi_ok_def sample_uapi_def)
  have b: "ConfigMap sample_maps = Some \<lparr>cMSS = 88, cRestoreMSS = 0, cRestoreAfterBytes = 600, cEnabled = 1\<rparr>"
    "md_Op sample_ctx = ActiveEstablishedCb sample_uapi" "ExcludeIps sample_maps (RemoteIp4 sample_ctx) = None"
    "TargetPorts sample_maps (ucast (Ntohl (RemotePort sample_ctx))) \<noteq> None"
    unfolding sample_port by (simp_all add: sample_maps_def sample_ctx_def sample_uapi_def)
  have c: "segments_of sample_uapi (md_cookie sample_ctx) ?segs" "sent_total ?segs < 2 ^ 32"
    by (simp_all add: segments_of_def sample_uapi_def sample_ctx_def)
  obtain effs m' where r: "run_ops sample_uapi ?segs (snd (GecitSockops sample_uapi sample_ctx sample_maps)) = (effs, m')"
    by fastforce
  from sockops_restores_once [OF a b(1) _ b(2-4) c r] r show ?thesis
    by (auto simp: sample_ctx_def)
qed

end
