(* ===== verification/EbpfManager.thy ===== *)
theory EbpfManager
  imports Sockops FakeWire DnsServer Lifecycle
begin

text \<open>
  The user side of the eBPF engine (pkg/ebpf/manager.go, config.go and features.go): \<open>NewManager\<close>, the
  filling of the kernel's maps, \<open>Start\<close> with every error path, \<open>Stop\<close>, and the goroutine
  \<open>readEvents\<close> with \<open>injectFake\<close>. The kernel's maps are those of the sock_ops program (theory
  Sockops). Calls into cilium/ebpf and the system are effects with their results as arguments; the
  binary order is the little endian one of both targets. What is proved: what the program treats after
  a start, the way of an event from the kernel to a decoy on the wire, the release of every resource,
  and that no fake is ever sent on a closed socket, for all interleavings of \<open>Stop\<close> and the goroutine.
\<close>

subsection \<open>State\<close>

record EbpfConfig =
  eMSS :: int
  eRestoreMSS :: int
  eRestoreAfterBytes :: int
  ePorts :: "u16 list"
  eExcludeIPs :: "ip list"
  eCgroupPath :: string
  eFakeTTL :: int

text \<open>Each field that is a pointer or an interface is a flag (not nil), the raw socket an option.\<close>

record Manager =
  mgr_objs :: bool
  mgr_link :: bool
  mgr_reader :: bool
  mgr_rawSock :: "RawSocket option"
  mgr_cancel :: bool
  mgr_cfg :: EbpfConfig

definition NewManager :: "EbpfConfig \<Rightarrow> Manager" where
  "NewManager c =
     (let c = (if eMSS c = 0 then c\<lparr>eMSS := 40\<rparr> else c);
          c = (if eRestoreAfterBytes c = 0 then c\<lparr>eRestoreAfterBytes := 600\<rparr> else c);
          c = (if eCgroupPath c = [] then c\<lparr>eCgroupPath := ''/sys/fs/cgroup''\<rparr> else c);
          c = (if length (ePorts c) = 0 then c\<lparr>ePorts := [443]\<rparr> else c);
          c = (if eFakeTTL c = 0 then c\<lparr>eFakeTTL := 8\<rparr> else c)
      in \<lparr>mgr_objs = False, mgr_link = False, mgr_reader = False, mgr_rawSock = None, mgr_cancel = False, mgr_cfg = c\<rparr>)"

subsection \<open>The kernel's maps\<close>

text \<open>
  A freshly loaded object has a zeroed array \<open>ConfigMap\<close> and empty hash maps. An update can fail; its
  result is an argument per key.
\<close>

definition loaded_maps :: maps where
  "loaded_maps = \<lparr>ConfigMap = Some \<lparr>cMSS = 0, cRestoreMSS = 0, cRestoreAfterBytes = 0, cEnabled = 0\<rparr>,
     TargetPorts = (\<lambda>_. None), ExcludeIps = (\<lambda>_. None), Connections = (\<lambda>_. None)\<rparr>"

definition kernel_config :: "EbpfConfig \<Rightarrow> byte \<Rightarrow> BpfConfig" where
  "kernel_config c e = \<lparr>cMSS = of_int (eMSS c), cRestoreMSS = of_int (eRestoreMSS c),
     cRestoreAfterBytes = of_int (eRestoreAfterBytes c), cEnabled = e\<rparr>"

definition pushConfig :: "string err \<Rightarrow> EbpfConfig \<Rightarrow> maps \<Rightarrow> string err \<times> maps" where
  "pushConfig upd c k =
     (case upd of
        Some err \<Rightarrow> (Some err, k)
      | None \<Rightarrow> (None, k\<lparr>ConfigMap := Some (kernel_config c 1)\<rparr>))"

fun push_ports :: "(u16 \<Rightarrow> string err) \<Rightarrow> u16 list \<Rightarrow> maps \<Rightarrow> string err \<times> maps" where
  "push_ports upd [] k = (None, k)"
| "push_ports upd (port # ports) k =
     (case upd port of
        Some err \<Rightarrow> (Some err, k)
      | None \<Rightarrow> push_ports upd ports (k\<lparr>TargetPorts := (TargetPorts k)(port := Some 1)\<rparr>))"

definition pushTargetPorts :: "(u16 \<Rightarrow> string err) \<Rightarrow> EbpfConfig \<Rightarrow> maps \<Rightarrow> string err \<times> maps" where
  "pushTargetPorts upd c k = push_ports upd (ePorts c) k"

text \<open>\<open>uint32(ip4[0]) | uint32(ip4[1])<<8 | uint32(ip4[2])<<16 | uint32(ip4[3])<<24\<close>.\<close>

definition exclude_key :: "ip \<Rightarrow> u32" where
  "exclude_key ip4 =
     (ucast (ip4 ! 0) OR push_bit 8 (ucast (ip4 ! 1)) OR push_bit 16 (ucast (ip4 ! 2)) OR push_bit 24 (ucast (ip4 ! 3)))"

fun push_excludes :: "(u32 \<Rightarrow> string err) \<Rightarrow> ip list \<Rightarrow> maps \<Rightarrow> string err \<times> maps" where
  "push_excludes upd [] k = (None, k)"
| "push_excludes upd (a # as) k =
     (let ip4 = to4 a in
      if ip4 = [] then push_excludes upd as k
      else
        let key = exclude_key ip4 in
        (case upd key of
           Some err \<Rightarrow> (Some err, k)
         | None \<Rightarrow> push_excludes upd as (k\<lparr>ExcludeIps := (ExcludeIps k)(key := Some 1)\<rparr>)))"

definition pushExcludeIPs :: "(u32 \<Rightarrow> string err) \<Rightarrow> EbpfConfig \<Rightarrow> maps \<Rightarrow> string err \<times> maps" where
  "pushExcludeIPs upd c k = push_excludes upd (eExcludeIPs c) k"

text \<open>\<open>UpdateEnabled\<close> panics (\<open>None\<close>) when the objects are not loaded.\<close>

definition UpdateEnabled :: "string err \<Rightarrow> bool \<Rightarrow> Manager \<Rightarrow> maps \<Rightarrow> (string err \<times> maps) option" where
  "UpdateEnabled upd enabled m k =
     (if \<not> mgr_objs m then None
      else
        let e = (if enabled then 1 else 0) in
        (case upd of
           Some err \<Rightarrow> Some (Some err, k)
         | None \<Rightarrow> Some (None, k\<lparr>ConfigMap := Some (kernel_config (mgr_cfg m) e)\<rparr>)))"

subsection \<open>Start and Stop\<close>

datatype mgr_effect =
    LoadObjs
  | AttachCgroup string bool
  | OpenReader
  | OpenSock
  | SpawnReader
  | CancelReader
  | CloseReader
  | WaitReader
  | CloseSock
  | CloseLink
  | CloseObjs

datatype mgr_error =
    NoSockOps
  | NoSetsockopt
  | LoadSpec string
  | LoadObjects string
  | AttachError string
  | PushConfigError string
  | PushPortsError string
  | PushExcludeError string
  | ReaderError string
  | RawSocketError string

text \<open>
  The flag of \<open>AttachCgroup\<close> tells whether the attachment was accepted; the other effects are listed
  only when they succeed. The record holds the results of the calls of one \<open>Start\<close>: \<open>have_sockops\<close> and \<open>have_setsockopt\<close> are the probes of
  features.go.
\<close>

record ebpf_env =
  have_sockops :: bool
  have_setsockopt :: bool
  spec_result :: "string err"
  load_result :: "string err"
  attach_result :: "string err"
  config_update :: "string err"
  port_update :: "u16 \<Rightarrow> string err"
  exclude_update :: "u32 \<Rightarrow> string err"
  reader_result :: "string err"
  sock_result :: "string + RawSocket"

definition StopManager :: "Manager \<Rightarrow> mgr_effect list \<times> Manager" where
  "StopManager m =
     (let effs = (if mgr_cancel m then [CancelReader] else []);
          effs = effs @ (if mgr_reader m then [CloseReader] else []);
          effs = effs @ [WaitReader];
          (effs, m) = (if mgr_rawSock m \<noteq> None then (effs @ [CloseSock], m\<lparr>mgr_rawSock := None\<rparr>) else (effs, m));
          (effs, m) = (if mgr_link m then (effs @ [CloseLink], m\<lparr>mgr_link := False\<rparr>) else (effs, m));
          (effs, m) = (if mgr_objs m then (effs @ [CloseObjs], m\<lparr>mgr_objs := False\<rparr>) else (effs, m))
      in (effs, m))"

text \<open>\<open>m.Stop()\<close> followed by the return of an error, as five branches of \<open>Start\<close> do.\<close>

definition stop_and_fail ::
  "mgr_error \<Rightarrow> mgr_effect list \<Rightarrow> Manager \<Rightarrow> maps \<Rightarrow> mgr_error err \<times> mgr_effect list \<times> Manager \<times> maps" where
  "stop_and_fail err effs m k = (let (effs', m) = StopManager m in (Some err, effs @ effs', m, k))"

text \<open>The first half of \<open>Start\<close>: probing, loading, attaching; the second half: maps, reader, socket.\<close>

definition start_attached ::
  "ebpf_env \<Rightarrow> Manager \<Rightarrow> maps \<Rightarrow> mgr_effect list \<Rightarrow> mgr_error err \<times> mgr_effect list \<times> Manager \<times> maps" where
  "start_attached env m k effs =
     (let (err, k) = pushConfig (config_update env) (mgr_cfg m) k in
      case err of Some e \<Rightarrow> stop_and_fail (PushConfigError e) effs m k | None \<Rightarrow>
      (let (err, k) = pushTargetPorts (port_update env) (mgr_cfg m) k in
      case err of Some e \<Rightarrow> stop_and_fail (PushPortsError e) effs m k | None \<Rightarrow>
      (let (err, k) = pushExcludeIPs (exclude_update env) (mgr_cfg m) k in
      case err of Some e \<Rightarrow> stop_and_fail (PushExcludeError e) effs m k | None \<Rightarrow>
      (case reader_result env of Some e \<Rightarrow> stop_and_fail (ReaderError e) effs m k | None \<Rightarrow>
      (let m = m\<lparr>mgr_reader := True\<rparr>; effs = effs @ [OpenReader] in
      (case sock_result env of Inl e \<Rightarrow> stop_and_fail (RawSocketError e) effs m k | Inr rs \<Rightarrow>
      (let m = m\<lparr>mgr_rawSock := Some rs, mgr_cancel := True\<rparr>
       in (None, effs @ [OpenSock, SpawnReader], m, k))))))))"

definition StartManager ::
  "ebpf_env \<Rightarrow> Manager \<Rightarrow> maps \<Rightarrow> mgr_error err \<times> mgr_effect list \<times> Manager \<times> maps" where
  "StartManager env m k =
     (if \<not> have_sockops env then (Some NoSockOps, [], m, k)
      else if \<not> have_setsockopt env then (Some NoSetsockopt, [], m, k)
      else (case spec_result env of Some e \<Rightarrow> (Some (LoadSpec e), [], m, k) | None \<Rightarrow>
           (case load_result env of Some e \<Rightarrow> (Some (LoadObjects e), [], m, k) | None \<Rightarrow>
           (let m = m\<lparr>mgr_objs := True\<rparr>; k = loaded_maps;
                effs = [LoadObjs, AttachCgroup (eCgroupPath (mgr_cfg m)) (attach_result env = None)] in
           (case attach_result env of
              Some e \<Rightarrow> (Some (AttachError e), effs @ [CloseObjs], m\<lparr>mgr_objs := False\<rparr>, k)
            | None \<Rightarrow> start_attached env (m\<lparr>mgr_link := True\<rparr>) k effs)))))"

subsection \<open>The goroutine\<close>

text \<open>\<open>binary.NativeEndian.Uint32(sample[i:j])\<close> and \<open>uint32ToIP\<close>, little endian.\<close>

definition dec_le32 :: "bytes \<Rightarrow> u32" where
  "dec_le32 bs = get_be32 (bs ! 3) (bs ! 2) (bs ! 1) (bs ! 0)"

definition uint32ToIP :: "u32 \<Rightarrow> ip" where
  "uint32ToIP n = blit (replicate 4 0) 0 4 (le32 n)"

definition decode_event :: "bytes \<Rightarrow> ConnEvent option" where
  "decode_event sample =
     (if length sample < 20 then None
      else do {
        a \<leftarrow> go_slice sample 0 4;
        b \<leftarrow> go_slice sample 4 8;
        c \<leftarrow> go_slice sample 8 10;
        d \<leftarrow> go_slice sample 10 12;
        e \<leftarrow> go_slice sample 12 16;
        f \<leftarrow> go_slice sample 16 20;
        Some \<lparr>evSrcIP = dec_le32 a, evDstIP = dec_le32 b, evSrcPort = dec_le16 c, evDstPort = dec_le16 d,
          evSeq = dec_le32 e, evAck = dec_le32 f\<rparr>
      })"

text \<open>
  The state \<open>injectFake\<close> changes: the counter of the ClientHello generator and the DNS server's queue
  (\<open>None\<close> if \<open>GetDNSServer\<close> returns nil). A log line carries its destination; \<open>sent\<close> tells whether
  the system accepts a transmission.
\<close>

record inject_state =
  inj_counter :: u64
  inj_dns :: "Server option"

datatype inject_effect = SendPkt transmission | LogInjected string u32 u32 int | LogSendFailed

definition injectFake ::
  "(nat \<Rightarrow> nat \<Rightarrow> bytes option) \<Rightarrow> (transmission \<Rightarrow> bool) \<Rightarrow> Manager \<Rightarrow> ConnEvent \<Rightarrow> inject_state
   \<Rightarrow> (inject_effect list \<times> inject_state) option" where
  "injectFake rnd sent m evt s =
     (let conn = \<lparr>SrcIP = uint32ToIP (evSrcIP evt), DstIP = uint32ToIP (evDstIP evt), SrcPort = evSrcPort evt,
            DstPort = evDstPort evt, Seq = evSeq evt, Ack = evAck evt\<rparr>;
          (hello, counter) = RandomTLSClientHello rnd (inj_counter s);
          s = s\<lparr>inj_counter := counter\<rparr> in
      do {
        payload \<leftarrow> hello;
        sock \<leftarrow> mgr_rawSock m;
        let tx = SendFake sock conn payload (eFakeTTL (mgr_cfg m)) in
        if \<not> sent tx then Some ([SendPkt tx, LogSendFailed], s)
        else
          let dst = ip_string (DstIP conn) @ '':'' @ dec (unat (DstPort conn));
              (dst, s) =
                (case inj_dns s of
                   None \<Rightarrow> (dst, s)
                 | Some srv \<Rightarrow>
                     let (domain, srv) = PopDomain (ip_string (DstIP conn)) srv
                     in ((if domain \<noteq> [] then domain @ '':'' @ dec (unat (DstPort conn)) else dst),
                         s\<lparr>inj_dns := Some srv\<rparr>))
          in Some ([SendPkt tx, LogInjected dst (evSeq evt) (evAck evt) (eFakeTTL (mgr_cfg m))], s)
      })"

text \<open>The loop over what \<open>reader.Read\<close> returns: a sample, or an error, which ends the goroutine.\<close>

fun readEvents ::
  "(nat \<Rightarrow> nat \<Rightarrow> bytes option) \<Rightarrow> (transmission \<Rightarrow> bool) \<Rightarrow> Manager \<Rightarrow> bytes option list \<Rightarrow> inject_state
   \<Rightarrow> (inject_effect list \<times> inject_state) option" where
  "readEvents rnd sent m [] s = Some ([], s)"
| "readEvents rnd sent m (None # rs) s = Some ([], s)"
| "readEvents rnd sent m (Some sample # rs) s =
     (case decode_event sample of
        None \<Rightarrow> readEvents rnd sent m rs s
      | Some evt \<Rightarrow> do {
          (effs, s) \<leftarrow> injectFake rnd sent m evt s;
          (effs', s) \<leftarrow> readEvents rnd sent m rs s;
          Some (effs @ effs', s)
        })"

subsection \<open>Bytes of an event\<close>

text \<open>The layout of \<open>ConnEvent\<close> in the kernel's record: five little endian fields, 20 bytes.\<close>

definition event_record :: "ConnEvent \<Rightarrow> bytes" where
  "event_record e = le32 (evSrcIP e) @ le32 (evDstIP e) @ le16 (evSrcPort e) @ le16 (evDstPort e) @
     le32 (evSeq e) @ le32 (evAck e)"

lemma dec_le32_le32 [simp]: "dec_le32 (le32 v) = v"
  by (simp add: dec_le32_def le32_def)

lemma uint32ToIP_eq [simp]: "uint32ToIP n = le32 n"
  by (simp add: uint32ToIP_def blit_def)

lemma decode_event_record: "decode_event (event_record e @ pad) = Some e"
  by (simp add: decode_event_def event_record_def le.get_put)

lemma exclude_key_le32 [simp]: "exclude_key (le32 n) = n"
proof -
  have "exclude_key (le32 n) = get_be32 (ucast (drop_bit 24 n)) (ucast (drop_bit 16 n)) (ucast (drop_bit 8 n)) (ucast n)"
    by (simp add: exclude_key_def le32_def get_be32_def ac_simps)
  then show ?thesis by simp
qed

lemma le32_exclude_key: "length a = 4 \<Longrightarrow> le32 (exclude_key a) = a"
proof -
  assume "length a = 4"
  then obtain p q r s where a: "a = [p, q, r, s]"
    by (auto simp: numeral_eq_Suc length_Suc_conv)
  show ?thesis
    unfolding a le32_def exclude_key_def
    by (simp, intro conjI; rule bit_word_eqI) (auto simp: bit_simps dest: bit_imp_le_length)
qed

lemma exclude_key_eq: "length a = 4 \<Longrightarrow> exclude_key a = n \<longleftrightarrow> a = uint32ToIP n"
  using le32_exclude_key by (metis exclude_key_le32 uint32ToIP_eq)

subsection \<open>What a start puts into the kernel\<close>

lemma push_ports_ok:
  "push_ports upd ports k = (None, k') \<Longrightarrow>
   TargetPorts k' p = (if p \<in> set ports then Some 1 else TargetPorts k p) \<and>
   ConfigMap k' = ConfigMap k \<and> ExcludeIps k' = ExcludeIps k"
  by (induction upd ports k rule: push_ports.induct) (auto split: option.splits)

lemma push_excludes_ok:
  "push_excludes upd as k = (None, k') \<Longrightarrow>
   ExcludeIps k' n = (if \<exists>a \<in> set as. to4 a = uint32ToIP n then Some 1 else ExcludeIps k n) \<and>
   ConfigMap k' = ConfigMap k \<and> TargetPorts k' = TargetPorts k"
proof (induction upd as k rule: push_excludes.induct)
  case (2 upd a as k)
  show ?case
  proof (cases "to4 a = []")
    case True
    have "to4 a \<noteq> le32 n"
      using True by (simp add: le32_def)
    then show ?thesis
      using 2 True by simp
  next
    case False
    then have key: "to4 a = uint32ToIP n \<longleftrightarrow> exclude_key (to4 a) = n"
      using exclude_key_eq [OF length_to4] by blast
    have upd: "upd (exclude_key (to4 a)) = None"
      using "2.prems" False by (simp add: Let_def split: option.splits)
    from "2.IH"(2) [OF refl False refl upd] "2.prems" False upd show ?thesis
      by (simp add: key del: uint32ToIP_eq)
  qed
qed simp

lemma stop_and_fail_err [simp]: "fst (stop_and_fail err effs m k) = Some err"
  by (simp add: stop_and_fail_def split_def Let_def)

lemma start_attached_ok:
  assumes "start_attached env m k effs = (None, effs', m', k')"
  obtains k2 rs where "push_ports (port_update env) (ePorts (mgr_cfg m)) (k\<lparr>ConfigMap := Some (kernel_config (mgr_cfg m) 1)\<rparr>) = (None, k2)"
    and "push_excludes (exclude_update env) (eExcludeIPs (mgr_cfg m)) k2 = (None, k')"
    and "m' = m\<lparr>mgr_reader := True, mgr_rawSock := Some rs, mgr_cancel := True\<rparr>"
    and "effs' = effs @ [OpenReader, OpenSock, SpawnReader]"
proof -
  have err: "stop_and_fail e f m1 k1 \<noteq> (None, effs', m', k')" for e f m1 k1
    using stop_and_fail_err [of e f m1 k1] by (metis fst_conv option.distinct(1))
  note defs = start_attached_def pushConfig_def pushTargetPorts_def pushExcludeIPs_def Let_def
  have cu: "config_update env = None"
    using assms by (cases "config_update env") (simp_all add: defs err)
  obtain e2 k2 where p2: "push_ports (port_update env) (ePorts (mgr_cfg m)) (k\<lparr>ConfigMap := Some (kernel_config (mgr_cfg m) 1)\<rparr>) = (e2, k2)"
    by fastforce
  have e2: "e2 = None"
    using assms by (cases e2) (simp_all add: defs cu p2 err)
  obtain e3 k3 where p3: "push_excludes (exclude_update env) (eExcludeIPs (mgr_cfg m)) k2 = (e3, k3)"
    by fastforce
  have e3: "e3 = None"
    using assms by (cases e3) (simp_all add: defs cu p2 e2 p3 err)
  have rr: "reader_result env = None"
    using assms by (cases "reader_result env") (simp_all add: defs cu p2 e2 p3 e3 err)
  obtain rs where rs: "sock_result env = Inr rs"
    using assms by (cases "sock_result env") (simp_all add: defs cu p2 e2 p3 e3 rr err)
  show ?thesis
    using assms by (intro that [of k2 rs]) (simp_all add: defs cu p2 e2 p3 e3 rr rs)
qed

lemma StartManager_success:
  assumes "StartManager env m k = (None, effs, m', k')"
  shows "mgr_cfg m' = mgr_cfg m" and "mgr_rawSock m' \<noteq> None" and "mgr_objs m'"
    and "ConfigMap k' = Some (kernel_config (mgr_cfg m) 1)"
    and "TargetPorts k' p = (if p \<in> set (ePorts (mgr_cfg m)) then Some 1 else None)"
    and "ExcludeIps k' n = (if \<exists>a \<in> set (eExcludeIPs (mgr_cfg m)). to4 a = uint32ToIP n then Some 1 else None)"
    and "mgr_reader m'"
proof -
  let ?c = "mgr_cfg m"
  obtain effs0 where "start_attached env (m\<lparr>mgr_objs := True, mgr_link := True\<rparr>) loaded_maps effs0 = (None, effs, m', k')"
    using assms by (auto simp: StartManager_def Let_def split: if_splits option.splits)
  then obtain k2 rs where p: "push_ports (port_update env) (ePorts ?c) (loaded_maps\<lparr>ConfigMap := Some (kernel_config ?c 1)\<rparr>) = (None, k2)"
    "push_excludes (exclude_update env) (eExcludeIPs ?c) k2 = (None, k')"
    "m' = m\<lparr>mgr_objs := True, mgr_link := True, mgr_reader := True, mgr_rawSock := Some rs, mgr_cancel := True\<rparr>"
    by (rule start_attached_ok) simp
  then show "mgr_cfg m' = ?c" "mgr_rawSock m' \<noteq> None" "mgr_objs m'" "mgr_reader m'"
    by simp_all
  note q2 = push_ports_ok [OF p(1)] and q3 = push_excludes_ok [OF p(2)]
  show "ConfigMap k' = Some (kernel_config ?c 1)"
    using q2 q3 by simp
  show "TargetPorts k' p = (if p \<in> set (ePorts ?c) then Some 1 else None)"
    using q2 [of p] q3 by (simp add: loaded_maps_def)
  show "ExcludeIps k' n = (if \<exists>a \<in> set (eExcludeIPs ?c). to4 a = uint32ToIP n then Some 1 else None)"
    using q2 q3 [of n] by (simp add: loaded_maps_def)
qed

subsection \<open>Resources\<close>

datatype mgr_resource = Objs | CgroupLink | PerfReader | RawSock | Goroutine

fun mgr_opens :: "mgr_effect \<Rightarrow> mgr_resource option" where
  "mgr_opens LoadObjs = Some Objs"
| "mgr_opens (AttachCgroup path ok) = (if ok then Some CgroupLink else None)"
| "mgr_opens OpenReader = Some PerfReader"
| "mgr_opens OpenSock = Some RawSock"
| "mgr_opens SpawnReader = Some Goroutine"
| "mgr_opens _ = None"

fun mgr_closes :: "mgr_effect \<Rightarrow> mgr_resource option" where
  "mgr_closes CloseObjs = Some Objs"
| "mgr_closes CloseLink = Some CgroupLink"
| "mgr_closes CloseReader = Some PerfReader"
| "mgr_closes CloseSock = Some RawSock"
| "mgr_closes WaitReader = Some Goroutine"
| "mgr_closes _ = None"

text \<open>
  What a manager holds. \<open>Stop\<close> does not clear \<open>m.reader\<close>, so the reader is open only while the
  objects are loaded too; the goroutine lives from the moment the socket is open.
\<close>

definition mgr_held :: "Manager \<Rightarrow> mgr_resource set" where
  "mgr_held m = {r. case r of Objs \<Rightarrow> mgr_objs m | CgroupLink \<Rightarrow> mgr_link m
     | PerfReader \<Rightarrow> mgr_reader m \<and> mgr_objs m | RawSock \<Rightarrow> mgr_rawSock m \<noteq> None | Goroutine \<Rightarrow> mgr_rawSock m \<noteq> None}"

abbreviation mgr_track :: "mgr_effect list \<Rightarrow> mgr_resource set \<Rightarrow> mgr_resource set option" where
  "mgr_track \<equiv> track mgr_opens mgr_closes"

lemma mgr_held_empty: "mgr_held m = {} \<longleftrightarrow> \<not> mgr_objs m \<and> \<not> mgr_link m \<and> mgr_rawSock m = None"
  by (auto simp: mgr_held_def set_eq_iff split: mgr_resource.splits)

lemma mgr_held_empty': "{} = mgr_held m \<longleftrightarrow> \<not> mgr_objs m \<and> \<not> mgr_link m \<and> mgr_rawSock m = None"
  using mgr_held_empty by metis

lemma StopManager_eq:
  "StopManager m =
     ((if mgr_cancel m then [CancelReader] else []) @ (if mgr_reader m then [CloseReader] else []) @ [WaitReader] @
      (if mgr_rawSock m \<noteq> None then [CloseSock] else []) @ (if mgr_link m then [CloseLink] else []) @
      (if mgr_objs m then [CloseObjs] else []),
      m\<lparr>mgr_rawSock := None, mgr_link := False, mgr_objs := False\<rparr>)"
  by (simp add: StopManager_def)

lemma StopManager_track:
  assumes "StopManager m = (effs, m')" and "A \<subseteq> mgr_held m"
  shows "mgr_track effs A = Some {} \<and> mgr_held m' = {}"
proof -
  have m': "m' = m\<lparr>mgr_rawSock := None, mgr_link := False, mgr_objs := False\<rparr>"
    and effs: "set effs = (if mgr_cancel m then {CancelReader} else {}) \<union> (if mgr_reader m then {CloseReader} else {}) \<union>
      {WaitReader} \<union> (if mgr_rawSock m \<noteq> None then {CloseSock} else {}) \<union> (if mgr_link m then {CloseLink} else {}) \<union>
      (if mgr_objs m then {CloseObjs} else {})"
    using assms(1) by (auto simp: StopManager_eq)
  have "\<exists>e \<in> set effs. mgr_closes e = Some r" if "r \<in> A" for r
    using assms(2) that unfolding effs by (cases r) (auto simp: mgr_held_def)
  then have "{r \<in> A. \<forall>e \<in> set effs. mgr_closes e \<noteq> Some r} = {}"
    by auto
  moreover have "\<forall>e \<in> set effs. mgr_opens e = None"
    unfolding effs by (simp split: if_splits)
  ultimately show ?thesis
    by (simp add: track_closing m' mgr_held_empty)
qed

lemma stop_and_fail_track:
  assumes "mgr_track effs {} = Some A" and "A \<subseteq> mgr_held m" and "stop_and_fail e effs m k = (err, effs', m', k')"
  shows "mgr_track effs' {} = Some {} \<and> mgr_held m' = {}"
proof -
  obtain es m1 where st: "StopManager m = (es, m1)" by fastforce
  then show ?thesis
    using assms StopManager_track [OF st assms(2)]
    by (auto simp: stop_and_fail_def track_append_Some)
qed

lemma start_attached_track:
  assumes "mgr_track effs {} = Some {Objs, CgroupLink}" and "mgr_objs m" and "mgr_link m"
    and "start_attached env m k effs = (err, effs', m', k')"
  shows "mgr_track effs' {} = Some (mgr_held m') \<and> (err \<noteq> None \<longrightarrow> mgr_held m' = {})"
proof (cases err)
  case None
  then obtain rs where "m' = m\<lparr>mgr_reader := True, mgr_rawSock := Some rs, mgr_cancel := True\<rparr>"
    "effs' = effs @ [OpenReader, OpenSock, SpawnReader]"
    using assms(4) by (auto elim: start_attached_ok)
  moreover have "{Goroutine, RawSock, PerfReader, Objs, CgroupLink} = mgr_held m'"
    using assms(2,3) calculation(1) mgr_resource.exhaust by (auto simp: mgr_held_def split: mgr_resource.splits)
  ultimately show ?thesis
    using None assms(1) by (simp add: track_append_Some insert_commute)
next
  case (Some e)
  have sub: "{Objs, CgroupLink} \<subseteq> mgr_held m" "{PerfReader, Objs, CgroupLink} \<subseteq> mgr_held (m\<lparr>mgr_reader := True\<rparr>)"
    using assms(2,3) by (simp_all add: mgr_held_def)
  have reader: "mgr_track (effs @ [OpenReader]) {} = Some {PerfReader, Objs, CgroupLink}"
    using assms(1) by (simp add: track_append_Some)
  have "\<exists>e' k1. stop_and_fail e' effs m k1 = (err, effs', m', k') \<or>
      stop_and_fail e' (effs @ [OpenReader]) (m\<lparr>mgr_reader := True\<rparr>) k1 = (err, effs', m', k')"
    using assms(4) Some
    by (simp add: start_attached_def Let_def split: prod.splits option.splits sum.splits; blast)
  then show ?thesis
    using stop_and_fail_track [OF assms(1) sub(1)] stop_and_fail_track [OF reader sub(2)] by metis
qed

lemma StartManager_track:
  assumes "mgr_held m = {}" and "StartManager env m k = (err, effs, m', k')"
  shows "mgr_track effs {} = Some (mgr_held m') \<and> (err \<noteq> None \<longrightarrow> mgr_held m' = {})"
proof (cases "have_sockops env \<and> have_setsockopt env \<and> spec_result env = None \<and> load_result env = None \<and> attach_result env = None")
  case True
  let ?m = "m\<lparr>mgr_objs := True, mgr_link := True\<rparr>"
  have "start_attached env ?m loaded_maps [LoadObjs, AttachCgroup (eCgroupPath (mgr_cfg m)) True] = (err, effs, m', k')"
    using assms(2) True by (simp add: StartManager_def)
  then show ?thesis
    by (intro start_attached_track [of _ ?m]) (simp_all add: insert_commute)
next
  case False
  then show ?thesis
    using assms
    by (auto simp: StartManager_def mgr_held_empty mgr_held_empty' Let_def split: if_splits option.splits)
qed

interpretation manager: strict_start_stop mgr_opens mgr_closes "\<lambda>(m, k). mgr_held m"
  "\<lambda>env (m, k). case StartManager env m k of (err, effs, m, k) \<Rightarrow> (err, effs, (m, k))"
  "\<lambda>(_ :: unit) (m, k). case StopManager m of (effs, m) \<Rightarrow> (effs, (m, k))"
proof unfold_locales
  show "mgr_track effs {} = Some (case s' of (m, k) \<Rightarrow> mgr_held m)"
    if "(case s of (m, k) \<Rightarrow> mgr_held m) = {}"
      "(case s of (m, k) \<Rightarrow> case StartManager env m k of (err, effs, m, k) \<Rightarrow> (err, effs, (m, k))) = (err, effs, s')"
    for s env err effs s'
    using that StartManager_track [of "fst s" env "snd s" err effs "fst s'" "snd s'"]
    by (auto split: prod.splits)
  show "(case s' of (m, k) \<Rightarrow> mgr_held m) = {}"
    if "(case s of (m, k) \<Rightarrow> mgr_held m) = {}"
      "(case s of (m, k) \<Rightarrow> case StartManager env m k of (err, effs, m, k) \<Rightarrow> (err, effs, (m, k))) = (Some err, effs, s')"
    for s env err effs s'
    using that StartManager_track [of "fst s" env "snd s" "Some err" effs "fst s'" "snd s'"]
    by (auto split: prod.splits)
  show "mgr_track effs (case s of (m, k) \<Rightarrow> mgr_held m) = Some {} \<and> (case s' of (m, k) \<Rightarrow> mgr_held m) = {}"
    if "(case s of (m, k) \<Rightarrow> case StopManager m of (effs, m) \<Rightarrow> (effs, (m, k))) = (effs, s')" for s effs s'
    using that StopManager_track [of "fst s" effs "fst s'", OF _ subset_refl] by (auto split: prod.splits)
qed

subsection \<open>Stop and the goroutine, interleaved\<close>

text \<open>
  \<open>Stop\<close> runs its effects in order while the goroutine reads and injects; \<open>wg.Wait\<close> waits for it.
  The goroutine is at \<open>reader.Read\<close>, in \<open>injectFake\<close>, or gone. \<open>reader.Read\<close> blocks until the kernel
  has a record (\<open>run_events\<close> are still to come, each long enough for an event or not) or the reader is
  closed; \<open>run_breaks\<close> says whether a read may also fail on an open reader.
\<close>

datatype reader_pc = AtRead | InInject | ReaderGone

record stop_run =
  run_todo :: "mgr_effect list"
  run_pc :: reader_pc
  run_reader_open :: bool
  run_sock_open :: bool
  run_events :: nat
  run_breaks :: bool

inductive stop_step :: "stop_run \<Rightarrow> stop_run \<Rightarrow> bool" where
  read_event: "run_pc s = AtRead \<Longrightarrow> run_reader_open s \<Longrightarrow> run_events s = Suc n \<Longrightarrow>
    stop_step s (s\<lparr>run_pc := InInject, run_events := n\<rparr>)"
| read_short: "run_pc s = AtRead \<Longrightarrow> run_reader_open s \<Longrightarrow> run_events s = Suc n \<Longrightarrow> stop_step s (s\<lparr>run_events := n\<rparr>)"
| read_closed: "run_pc s = AtRead \<Longrightarrow> \<not> run_reader_open s \<Longrightarrow> stop_step s (s\<lparr>run_pc := ReaderGone\<rparr>)"
| read_breaks: "run_pc s = AtRead \<Longrightarrow> run_breaks s \<Longrightarrow> stop_step s (s\<lparr>run_pc := ReaderGone\<rparr>)"
| injected: "run_pc s = InInject \<Longrightarrow> stop_step s (s\<lparr>run_pc := AtRead\<rparr>)"
| stop_effect: "run_todo s = e # es \<Longrightarrow> (e = WaitReader \<Longrightarrow> run_pc s = ReaderGone) \<Longrightarrow>
    stop_step s (s\<lparr>run_todo := es, run_reader_open := (run_reader_open s \<and> e \<noteq> CloseReader),
      run_sock_open := (run_sock_open s \<and> e \<noteq> CloseSock)\<rparr>)"

inductive_cases stop_stepE: "stop_step s s'"

definition stop_begin :: "Manager \<Rightarrow> nat \<Rightarrow> bool \<Rightarrow> stop_run" where
  "stop_begin m n broken = \<lparr>run_todo = fst (StopManager m), run_pc = AtRead, run_reader_open = True,
     run_sock_open = True, run_events = n, run_breaks = broken\<rparr>"

text \<open>What \<open>Stop\<close> still has to do before \<open>wg.Wait\<close>.\<close>

abbreviation before_wait :: "stop_run \<Rightarrow> mgr_effect set" where
  "before_wait s \<equiv> set (takeWhile (\<lambda>e. e \<noteq> WaitReader) (run_todo s))"

definition stop_inv :: "stop_run \<Rightarrow> bool" where
  "stop_inv s \<longleftrightarrow>
     (run_pc s \<noteq> ReaderGone \<longrightarrow> WaitReader \<in> set (run_todo s) \<and> run_sock_open s \<and> CloseSock \<notin> before_wait s) \<and>
     (run_reader_open s \<longrightarrow> CloseReader \<in> before_wait s) \<and>
     (run_sock_open s \<longrightarrow> CloseSock \<in> set (run_todo s))"

lemma stop_inv_begin: "mgr_reader m \<Longrightarrow> mgr_rawSock m \<noteq> None \<Longrightarrow> stop_inv (stop_begin m n broken)"
  by (simp add: stop_inv_def stop_begin_def StopManager_eq)

lemma stop_inv_step: "stop_step s s' \<Longrightarrow> stop_inv s \<Longrightarrow> stop_inv s'"
proof (induction rule: stop_step.induct)
  case (stop_effect s e es)
  then show ?case
    by (cases "e = WaitReader") (auto simp: stop_inv_def)
qed (auto simp: stop_inv_def)

lemma stop_inv_reachable: "(stop_step ^^ j) s s' \<Longrightarrow> stop_inv s \<Longrightarrow> stop_inv s'"
  by (induction j arbitrary: s') (auto dest: stop_inv_step)

text \<open>Every step brings the end nearer, and until \<open>Stop\<close> is done some step is possible.\<close>

definition stop_measure :: "stop_run \<Rightarrow> nat" where
  "stop_measure s = length (run_todo s) + 2 * run_events s +
     (case run_pc s of InInject \<Rightarrow> 2 | AtRead \<Rightarrow> 1 | ReaderGone \<Rightarrow> 0)"

lemma stop_measure_step: "stop_step s s' \<Longrightarrow> stop_measure s' < stop_measure s"
  by (induction rule: stop_step.induct) (auto simp: stop_measure_def)

lemma stop_bounded: "(stop_step ^^ j) s s' \<Longrightarrow> j + stop_measure s' \<le> stop_measure s"
  by (induction j arbitrary: s') (fastforce dest: stop_measure_step)+

lemma stop_measure_begin: "stop_measure (stop_begin m n broken) \<le> 2 * n + 7"
  by (simp add: stop_measure_def stop_begin_def StopManager_eq)

lemma stop_progress:
  assumes "stop_inv s" and "run_todo s \<noteq> []"
  shows "\<exists>s'. stop_step s s'"
proof (cases "hd (run_todo s) = WaitReader")
  case False
  with assms(2) show ?thesis
    by (metis list.collapse stop_effect)
next
  case wait: True
  then have closed: "\<not> run_reader_open s"
    using assms by (cases "run_todo s") (auto simp: stop_inv_def)
  show ?thesis
  proof (cases "run_pc s")
    case ReaderGone
    with assms(2) show ?thesis
      by (metis list.collapse stop_effect)
  qed (use closed in \<open>auto intro: read_closed injected\<close>)
qed

subsection \<open>Events on the wire\<close>

lemma output_event:
  assumes "OutputEvent evt \<in> set (fst (GecitSockops u ctx k))"
  shows "evt = \<lparr>evSrcIP = LocalIp4 ctx, evDstIP = RemoteIp4 ctx, evSrcPort = ucast (LocalPort ctx),
    evDstPort = ucast (Ntohl (RemotePort ctx)), evSeq = SndNxt ctx, evAck = RcvNxt ctx\<rparr>"
  using assms
  by (auto simp: GecitSockops_def handleEstablished_def handleHdrOptLen_def handleWriteHdrOpt_def Let_def
      split: option.splits if_splits)

text \<open>The connection an event is about.\<close>

definition event_conn :: "ConnEvent \<Rightarrow> ConnInfo" where
  "event_conn evt = \<lparr>SrcIP = uint32ToIP (evSrcIP evt), DstIP = uint32ToIP (evDstIP evt), SrcPort = evSrcPort evt,
     DstPort = evDstPort evt, Seq = evSeq evt, Ack = evAck evt\<rparr>"

lemma event_conn_v4: "v4_conn (event_conn evt)"
  by (simp add: v4_conn_def event_conn_def) (simp add: le32_def)

text \<open>A sample the kernel delivers for a socket: the record of an event, with any padding.\<close>

definition kernel_sample :: "SockOpsMd \<Rightarrow> bytes \<Rightarrow> bool" where
  "kernel_sample ctx x \<longleftrightarrow>
     (\<exists>u k evt pad. OutputEvent evt \<in> set (fst (GecitSockops u ctx k)) \<and> x = event_record evt @ pad)"

lemma kernel_sample_evt:
  assumes "kernel_sample ctx (event_record evt @ pad)"
  shows "evt = \<lparr>evSrcIP = LocalIp4 ctx, evDstIP = RemoteIp4 ctx, evSrcPort = ucast (LocalPort ctx),
    evDstPort = ucast (Ntohl (RemotePort ctx)), evSeq = SndNxt ctx, evAck = RcvNxt ctx\<rparr>"
proof -
  obtain u k e p where e: "OutputEvent e \<in> set (fst (GecitSockops u ctx k))" "event_record evt @ pad = event_record e @ p"
    using assms by (auto simp: kernel_sample_def)
  have "Some evt = decode_event (event_record evt @ pad)"
    by (rule decode_event_record [symmetric])
  also have "\<dots> = Some e"
    unfolding e(2) by (rule decode_event_record)
  finally show ?thesis
    using output_event [OF e(1)] by simp
qed

text \<open>The packets handed to the socket, in order.\<close>

definition sends :: "inject_effect list \<Rightarrow> transmission list" where
  "sends effs = List.map_filter (\<lambda>e. case e of SendPkt tx \<Rightarrow> Some tx | _ \<Rightarrow> None) effs"

lemma injectFake_decoy:
  assumes "rand_ok rnd" and "unat (inj_counter s) < 2 ^ 63" and "mgr_rawSock m = Some (platformRawSocket Linux)"
  obtains tx log s' where "injectFake rnd sent m evt s = Some ([SendPkt tx, log], s')"
    and "decoy_on Linux (event_conn evt) (eFakeTTL (mgr_cfg m)) tx" and "\<forall>t. log \<noteq> SendPkt t"
    and "sent_addr tx = to4 (DstIP (event_conn evt))" and "inj_counter s' = inj_counter s + 1"
proof -
  obtain pkt host where h: "RandomTLSClientHello rnd (inj_counter s) = (Some pkt, inj_counter s + 1)"
    "length pkt \<le> 65495" "host \<in> decoy_hosts" "ParseSNI pkt = Some host"
    by (rule random_hello [OF assms(1,2)])
  let ?tx = "SendFake (platformRawSocket Linux) (event_conn evt) pkt (eFakeTTL (mgr_cfg m))"
  have d: "decoy_on Linux (event_conn evt) (eFakeTTL (mgr_cfg m)) ?tx"
    using decoy_on_SendFake [OF event_conn_v4 h(2,4,3), of "platformRawSocket Linux"] by simp
  have a: "sent_addr ?tx = to4 (DstIP (event_conn evt))"
    by (rule sent_addr_SendFake [OF event_conn_v4])
  have "\<exists>log s'. injectFake rnd sent m evt s = Some ([SendPkt ?tx, log], s') \<and> (\<forall>t. log \<noteq> SendPkt t) \<and>
      inj_counter s' = inj_counter s + 1"
    using h(1) assms(3) unfolding injectFake_def event_conn_def [symmetric]
    by (cases "sent ?tx"; cases "inj_dns s") (simp_all add: Let_def split_def)
  with d a that show ?thesis by blast
qed

subsection \<open>Properties\<close>

text \<open>
  C3. From the kernel to the wire, for IPv4: let the reader deliver any sequence of samples, each the
  record of an event that the sock_ops program emits for some socket (with any padding behind it) or
  too short for an event, until a read fails. Then the goroutine, with a socket and fewer than
  \<open>2 ^ 63\<close> ClientHellos built so far, sends exactly one packet for each event, in their order and none
  afterwards. A receiver parses each as a valid TCP segment from the local to the remote IPv4 address and
  port that the program read from its socket, with the next sequence number, the expected
  acknowledgement, the configured TTL and the server name of a decoy host. (For an IPv6 socket these
  addresses are not the peer's; the program does not look at the family.)
\<close>

theorem ebpf_event_to_wire:
  assumes "rand_ok rnd" and "unat (inj_counter s) + length samples < 2 ^ 63"
    and "mgr_rawSock m = Some (platformRawSocket Linux)"
    and "\<forall>x \<in> set samples. length x < 20 \<or> (\<exists>ctx. kernel_sample ctx x)"
  shows "\<exists>effs s'. readEvents rnd sent m (map Some samples @ None # later) s = Some (effs, s') \<and>
    list_all2 (\<lambda>x tx. \<forall>ctx. kernel_sample ctx x \<longrightarrow>
        sent_addr tx = uint32ToIP (RemoteIp4 ctx) \<and>
        decoy_on Linux \<lparr>SrcIP = uint32ToIP (LocalIp4 ctx), DstIP = uint32ToIP (RemoteIp4 ctx),
          SrcPort = ucast (LocalPort ctx), DstPort = ucast (Ntohl (RemotePort ctx)),
          Seq = SndNxt ctx, Ack = RcvNxt ctx\<rparr> (eFakeTTL (mgr_cfg m)) tx)
      (filter (\<lambda>x. 20 \<le> length x) samples) (sends effs)"
  using assms(2,4)
proof (induction samples arbitrary: s)
  case (Cons x xs)
  show ?case
  proof (cases "length x < 20")
    case True
    with Cons.IH [of s] Cons.prems show ?thesis
      by (simp add: decode_event_def)
  next
    case False
    then obtain ctx where "kernel_sample ctx x"
      using Cons.prems(2) by auto
    then obtain evt pad where x: "x = event_record evt @ pad"
      by (auto simp: kernel_sample_def)
    have c: "unat (inj_counter s) < 2 ^ 63"
      using Cons.prems(1) by simp
    obtain tx log s1 where i: "injectFake rnd sent m evt s = Some ([SendPkt tx, log], s1)"
      "decoy_on Linux (event_conn evt) (eFakeTTL (mgr_cfg m)) tx" "\<forall>t. log \<noteq> SendPkt t"
      "sent_addr tx = to4 (DstIP (event_conn evt))" "inj_counter s1 = inj_counter s + 1"
      by (rule injectFake_decoy [OF assms(1) c assms(3)])
    have "unat (inj_counter s1) + length xs < 2 ^ 63"
      using Cons.prems(1) unfolding i(5) by (simp add: unat_plus_if')
    then obtain effs s' where r: "readEvents rnd sent m (map Some xs @ None # later) s1 = Some (effs, s')"
      and all: "list_all2 (\<lambda>x tx. \<forall>ctx. kernel_sample ctx x \<longrightarrow> sent_addr tx = uint32ToIP (RemoteIp4 ctx) \<and>
        decoy_on Linux \<lparr>SrcIP = uint32ToIP (LocalIp4 ctx), DstIP = uint32ToIP (RemoteIp4 ctx),
          SrcPort = ucast (LocalPort ctx), DstPort = ucast (Ntohl (RemotePort ctx)),
          Seq = SndNxt ctx, Ack = RcvNxt ctx\<rparr> (eFakeTTL (mgr_cfg m)) tx)
        (filter (\<lambda>x. 20 \<le> length x) xs) (sends effs)"
      using Cons.IH [of s1] Cons.prems(2) by auto
    have "sent_addr tx = uint32ToIP (RemoteIp4 ctx') \<and>
        decoy_on Linux \<lparr>SrcIP = uint32ToIP (LocalIp4 ctx'), DstIP = uint32ToIP (RemoteIp4 ctx'),
          SrcPort = ucast (LocalPort ctx'), DstPort = ucast (Ntohl (RemotePort ctx')),
          Seq = SndNxt ctx', Ack = RcvNxt ctx'\<rparr> (eFakeTTL (mgr_cfg m)) tx" if "kernel_sample ctx' x" for ctx'
      using kernel_sample_evt [OF that [unfolded x]] i(2,4) by (simp add: event_conn_def)
    with r all i(1,3) False show ?thesis
      unfolding x by (simp add: decode_event_record sends_def split: inject_effect.split)
  qed
qed (simp add: sends_def)

definition sample_manager :: Manager where
  "sample_manager = \<lparr>mgr_objs = True, mgr_link = True, mgr_reader = True, mgr_rawSock = Some (platformRawSocket Linux),
     mgr_cancel = True, mgr_cfg = \<lparr>eMSS = 88, eRestoreMSS = 0, eRestoreAfterBytes = 600, ePorts = [443],
       eExcludeIPs = [], eCgroupPath = ''/sys/fs/cgroup'', eFakeTTL = 8\<rparr>\<rparr>"

definition sample_evt :: ConnEvent where
  "sample_evt = \<lparr>evSrcIP = 0x0100000A, evDstIP = 0x22D8B85D, evSrcPort = 12345, evDstPort = 443, evSeq = 1000, evAck = 2000\<rparr>"

lemma sample_event: "OutputEvent sample_evt \<in> set (fst (GecitSockops sample_uapi sample_ctx sample_maps))"
proof -
  have "GecitSockops sample_uapi sample_ctx sample_maps =
      handleEstablished sample_uapi sample_ctx \<lparr>cMSS = 88, cRestoreMSS = 0, cRestoreAfterBytes = 600, cEnabled = 1\<rparr> sample_maps"
    by (rule GecitSockops_established) (simp_all add: sample_maps_def sample_ctx_def sample_uapi_def)
  then show ?thesis
    unfolding handleEstablished_def sample_port sample_evt_def
    by (simp add: sample_maps_def) (simp add: sample_ctx_def)
qed

theorem ebpf_event_to_wire_witness:
  "\<exists>effs s' t1 t2. readEvents (\<lambda>k n. None) (\<lambda>_. True) sample_manager
     (map Some [event_record sample_evt @ [0, 0, 0, 0], [1, 2, 3], event_record sample_evt] @ [None])
     \<lparr>inj_counter = 0, inj_dns = None\<rparr> = Some (effs, s') \<and>
     sends effs = [t1, t2] \<and> sent_addr t1 = [0x5D, 0xB8, 0xD8, 0x22] \<and> sent_addr t2 = [0x5D, 0xB8, 0xD8, 0x22]"
proof -
  let ?xs = "[event_record sample_evt @ [0, 0, 0, 0], [1, 2, 3], event_record sample_evt]"
  have ip: "uint32ToIP (RemoteIp4 sample_ctx) = [0x5D, 0xB8, 0xD8, 0x22]"
    by (simp add: sample_ctx_def le32_def)
  have k: "kernel_sample sample_ctx (event_record sample_evt @ pad)" for pad
    using sample_event by (auto simp: kernel_sample_def)
  have len: "filter (\<lambda>x. 20 \<le> length x) ?xs = [event_record sample_evt @ [0, 0, 0, 0], event_record sample_evt]"
    by (simp add: event_record_def)
  have ok: "\<forall>x \<in> set ?xs. length x < 20 \<or> (\<exists>ctx. kernel_sample ctx x)"
    using k [of "[0, 0, 0, 0]"] k [of "[]"] by auto
  show ?thesis
    using ebpf_event_to_wire [OF rand_ok_None _ _ ok, of "\<lparr>inj_counter = 0, inj_dns = None\<rparr>" sample_manager "\<lambda>_. True" "[]"]
      k [of "[0, 0, 0, 0]"] k [of "[]"] ip
    unfolding len by (auto simp: sample_manager_def list_all2_Cons1)
qed

text \<open>
  C18. After a successful \<open>Start\<close> the kernel treats an established connection exactly if its port is
  configured and its address is none of the excluded ones (in four byte or IPv4-mapped form), and a
  treated one gets the configured segment size, which is cut to 16 bits. \<open>UpdateEnabled(false)\<close> then
  switches every callback off.
\<close>

theorem manager_treats:
  assumes "StartManager env m k = (None, effs, m', k')" and "md_Op ctx = ActiveEstablishedCb u"
  shows "(if ucast (Ntohl (RemotePort ctx)) \<in> set (ePorts (mgr_cfg m)) \<and>
        (\<forall>a \<in> set (eExcludeIPs (mgr_cfg m)). to4 a \<noteq> uint32ToIP (RemoteIp4 ctx))
     then SetMaxSeg (ucast (of_int (eMSS (mgr_cfg m)) :: u16)) \<in> set (fst (GecitSockops u ctx k')) \<and>
       (\<exists>evt. OutputEvent evt \<in> set (fst (GecitSockops u ctx k')))
     else GecitSockops u ctx k' = ([], k')) \<and>
    (\<exists>k''. UpdateEnabled None False m' k' = Some (None, k'') \<and> (\<forall>ctx'. GecitSockops u ctx' k'' = ([], k'')))"
proof -
  note st = StartManager_success [OF assms(1)]
  have "if ucast (Ntohl (RemotePort ctx)) \<in> set (ePorts (mgr_cfg m)) \<and>
        (\<forall>a \<in> set (eExcludeIPs (mgr_cfg m)). to4 a \<noteq> uint32ToIP (RemoteIp4 ctx))
     then SetMaxSeg (ucast (of_int (eMSS (mgr_cfg m)) :: u16)) \<in> set (fst (GecitSockops u ctx k')) \<and>
       (\<exists>evt. OutputEvent evt \<in> set (fst (GecitSockops u ctx k')))
     else GecitSockops u ctx k' = ([], k')"
    using GecitSockops_established [OF st(4), of ctx u] assms(2) st(5,6)
    by (simp add: handleEstablished_def kernel_config_def Let_def del: uint32ToIP_eq)
  moreover have "\<exists>k''. UpdateEnabled None False m' k' = Some (None, k'') \<and> (\<forall>ctx'. GecitSockops u ctx' k'' = ([], k''))"
    using st(3) by (simp add: UpdateEnabled_def GecitSockops_def kernel_config_def)
  ultimately show ?thesis by blast
qed

definition all_accepted :: ebpf_env where
  "all_accepted = \<lparr>have_sockops = True, have_setsockopt = True, spec_result = None, load_result = None,
     attach_result = None, config_update = None, port_update = (\<lambda>_. None), exclude_update = (\<lambda>_. None),
     reader_result = None, sock_result = Inr (platformRawSocket Linux)\<rparr>"

lemma sample_start:
  "\<exists>effs m' k'. StartManager all_accepted (NewManager c) k = (None, effs, m', k')"
proof -
  have ports: "\<exists>k'. push_ports (\<lambda>_. None) ps k = (None, k')" for ps k
    by (induction ps arbitrary: k) auto
  have excl: "\<exists>k'. push_excludes (\<lambda>_. None) as k = (None, k')" for as k
    by (induction as arbitrary: k) (auto simp: Let_def)
  let ?c = "mgr_cfg (NewManager c)" and ?k = "loaded_maps\<lparr>ConfigMap := Some (kernel_config (mgr_cfg (NewManager c)) 1)\<rparr>"
  obtain k2 k3 where "push_ports (\<lambda>_. None) (ePorts ?c) ?k = (None, k2)"
    "push_excludes (\<lambda>_. None) (eExcludeIPs ?c) k2 = (None, k3)"
    using ports excl by blast
  then show ?thesis
    by (simp add: StartManager_def all_accepted_def start_attached_def pushConfig_def pushTargetPorts_def
        pushExcludeIPs_def Let_def)
qed

theorem manager_treats_witness:
  "\<exists>effs m k. StartManager all_accepted (NewManager (mgr_cfg sample_manager\<lparr>eExcludeIPs := [[1, 1, 1, 1]]\<rparr>)) loaded_maps
      = (None, effs, m, k) \<and> SetMaxSeg 88 \<in> set (fst (GecitSockops sample_uapi sample_ctx k))"
proof -
  let ?m = "NewManager (mgr_cfg sample_manager\<lparr>eExcludeIPs := [[1, 1, 1, 1]]\<rparr>)"
  obtain effs m k where st: "StartManager all_accepted ?m loaded_maps = (None, effs, m, k)"
    using sample_start by blast
  have c: "mgr_cfg ?m = mgr_cfg sample_manager\<lparr>eExcludeIPs := [[1, 1, 1, 1]]\<rparr>"
    by (simp add: NewManager_def sample_manager_def)
  have "uint32ToIP (RemoteIp4 sample_ctx) = [0x5D, 0xB8, 0xD8, 0x22]" "md_Op sample_ctx = ActiveEstablishedCb sample_uapi"
    by (simp_all add: sample_ctx_def sample_uapi_def le32_def)
  with manager_treats [OF st, of sample_ctx sample_uapi] st show ?thesis
    unfolding c sample_port by (simp add: sample_manager_def to4_def)
qed

text \<open>
  The exclusions come last: \<open>Start\<close> attaches the program, enables it and adds the ports before it
  adds the excluded addresses. In between, a connection to an excluded address (a DoH upstream) on a
  configured port is treated like any other, which only ends when the exclusions are in.
\<close>

theorem exclusions_installed_last:
  assumes "md_Op ctx = ActiveEstablishedCb u" and "ucast (Ntohl (RemotePort ctx)) \<in> set (ePorts c)"
    and "a \<in> set (eExcludeIPs c)" and "to4 a = uint32ToIP (RemoteIp4 ctx)"
    and "pushConfig None c loaded_maps = (None, k1)" and "pushTargetPorts p_upd c k1 = (None, k2)"
    and "pushExcludeIPs x_upd c k2 = (None, k3)"
  shows "GecitSockops u ctx k1 = ([], k1) \<and>
    (\<exists>evt. OutputEvent evt \<in> set (fst (GecitSockops u ctx k2))) \<and>
    GecitSockops u ctx k3 = ([], k3)"
proof -
  let ?p = "ucast (Ntohl (RemotePort ctx)) :: u16" and ?n = "RemoteIp4 ctx"
  have k1: "ConfigMap k1 = Some (kernel_config c 1)" "TargetPorts k1 = (\<lambda>_. None)" "ExcludeIps k1 = (\<lambda>_. None)"
    using assms(5) by (auto simp: pushConfig_def loaded_maps_def)
  have k2: "ConfigMap k2 = Some (kernel_config c 1)" "TargetPorts k2 ?p = Some 1" "ExcludeIps k2 = (\<lambda>_. None)"
    using push_ports_ok [OF assms(6) [unfolded pushTargetPorts_def], of ?p] assms(2) k1 by simp_all
  have k3: "ConfigMap k3 = Some (kernel_config c 1)" "ExcludeIps k3 ?n = Some 1"
    using push_excludes_ok [OF assms(7) [unfolded pushExcludeIPs_def], of ?n] assms(3,4) k2 by auto
  have on: "cEnabled (kernel_config c 1) \<noteq> 0"
    by (simp add: kernel_config_def)
  show ?thesis
    unfolding GecitSockops_established [OF k1(1) on assms(1)] GecitSockops_established [OF k2(1) on assms(1)]
      GecitSockops_established [OF k3(1) on assms(1)]
    by (simp add: handleEstablished_def Let_def k1 k2 k3)
qed

theorem exclusions_installed_last_witness:
  "\<exists>k evt. pushTargetPorts (\<lambda>_. None) (mgr_cfg sample_manager\<lparr>eExcludeIPs := [[0x5D, 0xB8, 0xD8, 0x22]]\<rparr>)
      (snd (pushConfig None (mgr_cfg sample_manager) loaded_maps)) = (None, k) \<and>
     OutputEvent evt \<in> set (fst (GecitSockops sample_uapi sample_ctx k))"
proof -
  let ?c = "mgr_cfg sample_manager\<lparr>eExcludeIPs := [[0x5D, 0xB8, 0xD8, 0x22]]\<rparr>"
  have kc: "kernel_config ?c 1 = kernel_config (mgr_cfg sample_manager) 1"
    by (simp add: kernel_config_def)
  obtain k1 k2 k3 where k: "pushConfig None ?c loaded_maps = (None, k1)"
    "pushTargetPorts (\<lambda>_. None) ?c k1 = (None, k2)" "pushExcludeIPs (\<lambda>_. None) ?c k2 = (None, k3)"
    by (simp add: pushConfig_def pushTargetPorts_def pushExcludeIPs_def sample_manager_def to4_def Let_def)
  have m: "md_Op sample_ctx = ActiveEstablishedCb sample_uapi"
    "[0x5D, 0xB8, 0xD8, 0x22] \<in> set (eExcludeIPs ?c)" "to4 [0x5D, 0xB8, 0xD8, 0x22] = uint32ToIP (RemoteIp4 sample_ctx)"
    "ucast (Ntohl (RemotePort sample_ctx)) \<in> set (ePorts ?c)"
    unfolding sample_port by (simp_all add: sample_ctx_def sample_uapi_def le32_def to4_def sample_manager_def)
  have "snd (pushConfig None (mgr_cfg sample_manager) loaded_maps) = k1"
    using k(1) kc by (simp add: pushConfig_def)
  with exclusions_installed_last [OF m(1,4,2,3) k] k(2) show ?thesis by blast
qed

text \<open>
  C20. The manager releases what it acquires: over any number of sessions (a \<open>Start\<close> with any results of
  its calls, then \<open>Stop\<close>) nothing is opened twice, and in the end every kernel object, link, reader,
  socket and goroutine is closed; a \<open>Start\<close> that fails has already closed everything itself.
\<close>

theorem manager_releases:
  assumes "manager.sessions xs (NewManager c, k) = (effs, s')"
  shows "mgr_track effs {} = Some {} \<and>
    (\<forall>env err effs' m' k'. StartManager env (NewManager c) k = (Some err, effs', m', k') \<longrightarrow>
       mgr_track effs' {} = Some {} \<and> mgr_held m' = {})"
proof -
  have new: "mgr_held (NewManager c) = {}"
    by (simp add: NewManager_def Let_def mgr_held_empty)
  show ?thesis
    using manager.sessions_released [of "(NewManager c, k)" xs effs s'] assms new
      StartManager_track [OF new] by fastforce
qed

theorem manager_releases_witness:
  "\<exists>effs s'. manager.sessions [(all_accepted\<lparr>sock_result := Inl ''denied''\<rparr>, ()), (all_accepted, ())]
     (NewManager (mgr_cfg sample_manager), loaded_maps) = (effs, s') \<and> mgr_track effs {} = Some {}"
proof -
  obtain effs s' where r: "manager.sessions [(all_accepted\<lparr>sock_result := Inl ''denied''\<rparr>, ()), (all_accepted, ())]
     (NewManager (mgr_cfg sample_manager), loaded_maps) = (effs, s')" by (meson surj_pair)
  from manager_releases [OF r] r show ?thesis by blast
qed

text \<open>
  C19. Let a manager be started, and \<open>Stop\<close> called while the kernel has \<open>n\<close> more records for the
  goroutine, whose \<open>Read\<close> returns only with a record or once the reader is closed (on an open reader
  it fails only if \<open>broken\<close>). Then in every interleaving no fake is sent on a closed socket; some step
  is possible until \<open>Stop\<close> is done, and at most \<open>2 * n + 7\<close> steps are possible in all, so
  \<open>Stop\<close> ends; when it has ended the goroutine is gone and the reader and the socket are closed.
\<close>

theorem stop_waits_for_reader:
  assumes "StartManager env m0 k0 = (None, effs, m, k)" and "(stop_step ^^ j) (stop_begin m n broken) s"
  shows "(run_pc s = InInject \<longrightarrow> run_sock_open s) \<and> (run_todo s \<noteq> [] \<longrightarrow> (\<exists>s'. stop_step s s')) \<and>
    j \<le> 2 * n + 7 \<and>
    (run_todo s = [] \<longrightarrow> run_pc s = ReaderGone \<and> \<not> run_reader_open s \<and> \<not> run_sock_open s)"
proof -
  have inv: "stop_inv s"
    by (rule stop_inv_reachable [OF assms(2) stop_inv_begin])
      (use StartManager_success [OF assms(1)] in simp_all)
  have "j \<le> 2 * n + 7"
    using stop_bounded [OF assms(2)] stop_measure_begin [of m n broken] by linarith
  with inv stop_progress [OF inv] show ?thesis
    by (auto simp: stop_inv_def)
qed

theorem stop_waits_for_reader_witness:
  "\<exists>effs m k s. StartManager all_accepted (NewManager (mgr_cfg sample_manager)) loaded_maps = (None, effs, m, k) \<and>
     (stop_step ^^ 1) (stop_begin m 1 False) s \<and> run_pc s = InInject \<and> run_sock_open s \<and> (\<exists>s'. stop_step s s')"
proof -
  obtain effs m k where st: "StartManager all_accepted (NewManager (mgr_cfg sample_manager)) loaded_maps = (None, effs, m, k)"
    using sample_start by blast
  let ?s = "(stop_begin m 1 False)\<lparr>run_pc := InInject, run_events := 0\<rparr>"
  have "stop_step (stop_begin m 1 False) ?s"
    by (rule read_event) (simp_all add: stop_begin_def)
  then have r: "(stop_step ^^ 1) (stop_begin m 1 False) ?s"
    by (simp add: eq_OO)
  have "run_todo ?s \<noteq> []"
    by (simp add: stop_begin_def StopManager_eq)
  with stop_waits_for_reader [OF st r] st r show ?thesis
    by (intro exI [of _ effs] exI [of _ m] exI [of _ k] exI [of _ ?s]) simp
qed

end
