(* ===== verification/ResolvConf.thy ===== *)
theory ResolvConf
  imports GoStrings
begin

text \<open>
  Package dns on Linux (pkg/dns/system_linux.go): \<open>SetSystemDNS\<close> rewrites resolv.conf so that the
  local server is the only name server, \<open>RestoreSystemDNS\<close> undoes it and \<open>SystemDNSNeedsRestore\<close>
  detects what is left of it. The file is its content, or \<open>None\<close> when it cannot be read; writing is a
  parameter that returns the error and the content left behind. What is proved: one set followed by
  one restore gives the original lines back and removes every trace, while two sets in a row lose the
  original name servers.
\<close>

subsection \<open>The operations\<close>

text \<open>The marker line; its dash is U+2014, three bytes of UTF-8.\<close>

definition marker :: string where
  "marker = ''# gecit: DoH DNS active '' @ [CHR 0xE2, CHR 0x80, CHR 0x94] @ '' original lines commented below''"

datatype dns_error = ReadError | WriteError string

text \<open>The loops over the lines, and the text written: \<open>strings.Join(lines, "\n") + "\n"\<close>.\<close>

fun set_lines :: "string list \<Rightarrow> string list" where
  "set_lines [] = []"
| "set_lines (line # ls) =
     (let trimmed = trim_space line in
      if trimmed = [] \<or> has_prefix trimmed ''# gecit'' then set_lines ls
      else if has_prefix trimmed ''nameserver'' then (''# gecit-saved: '' @ trimmed) # set_lines ls
      else line # set_lines ls)"

fun restore_lines :: "string list \<Rightarrow> string list" where
  "restore_lines [] = []"
| "restore_lines (line # ls) =
     (let trimmed = trim_space line in
      if has_prefix trimmed ''# gecit-saved: '' then trim_prefix ''# gecit-saved: '' trimmed # restore_lines ls
      else if has_prefix trimmed ''# gecit'' then restore_lines ls
      else if trimmed = ''nameserver 127.0.0.1'' then restore_lines ls
      else if trimmed \<noteq> [] then line # restore_lines ls
      else restore_lines ls)"

definition file_text :: "string list \<Rightarrow> string" where
  "file_text ls = join_with [nl] ls @ [nl]"

definition set_text :: "string \<Rightarrow> string" where
  "set_text orig = file_text ([marker, ''nameserver 127.0.0.1''] @ set_lines (split_on nl orig))"

fun has_gecit_line :: "string list \<Rightarrow> bool" where
  "has_gecit_line [] = False"
| "has_gecit_line (line # ls) =
     (let trimmed = trim_space line in
      if has_prefix trimmed ''# gecit:'' \<or> has_prefix trimmed ''# gecit-saved: '' then True
      else has_gecit_line ls)"

definition hasGecitDNSState :: "string \<Rightarrow> bool" where
  "hasGecitDNSState data = has_gecit_line (split_on nl data)"

definition restore_text :: "string \<Rightarrow> string" where
  "restore_text data =
     (let lines = restore_lines (split_on nl data);
          lines = (if length lines = 0 then [''nameserver 8.8.8.8''] else lines)
      in file_text lines)"

type_synonym writer = "string \<Rightarrow> string option \<times> string"

definition do_write :: "writer \<Rightarrow> string \<Rightarrow> dns_error option \<times> string option" where
  "do_write w content = (case w content of (err, left_over) \<Rightarrow> (map_option WriteError err, Some left_over))"

definition SetSystemDNS :: "writer \<Rightarrow> string option \<Rightarrow> dns_error option \<times> string option" where
  "SetSystemDNS w file =
     (case file of
        None \<Rightarrow> (Some ReadError, None)
      | Some orig \<Rightarrow> do_write w (set_text orig))"

definition SystemDNSNeedsRestore :: "string option \<Rightarrow> bool" where
  "SystemDNSNeedsRestore file = (case file of None \<Rightarrow> False | Some data \<Rightarrow> hasGecitDNSState data)"

definition RestoreSystemDNS :: "writer \<Rightarrow> string option \<Rightarrow> dns_error option \<times> string option" where
  "RestoreSystemDNS w file =
     (case file of
        None \<Rightarrow> (Some ReadError, None)
      | Some data \<Rightarrow>
          if \<not> hasGecitDNSState data then (None, Some data)
          else do_write w (restore_text data))"

text \<open>\<open>os.WriteFile\<close> without an error leaves exactly the content.\<close>

definition write_ok :: writer where
  "write_ok content = (None, content)"

subsection \<open>Lemmas\<close>

definition is_gecit :: "string \<Rightarrow> bool" where
  "is_gecit line \<longleftrightarrow> has_prefix (trim_space line) ''# gecit''"

definition is_nameserver :: "string \<Rightarrow> bool" where
  "is_nameserver line \<longleftrightarrow> has_prefix (trim_space line) ''nameserver''"

definition blank :: "string \<Rightarrow> bool" where
  "blank line \<longleftrightarrow> trim_space line = []"

text \<open>What one set and one restore make of a file: the lines that say something, name servers trimmed.\<close>

definition tidy_lines :: "string list \<Rightarrow> string list" where
  "tidy_lines ls = map (\<lambda>l. if is_nameserver l then trim_space l else l) (filter (\<lambda>l. \<not> blank l \<and> \<not> is_gecit l) ls)"

lemma set_lines_eq:
  "set_lines ls = map (\<lambda>l. if is_nameserver l then ''# gecit-saved: '' @ trim_space l else l)
     (filter (\<lambda>l. \<not> blank l \<and> \<not> is_gecit l) ls)"
  by (induction ls) (simp_all add: Let_def is_nameserver_def is_gecit_def blank_def)

lemma has_gecit_line_iff:
  "has_gecit_line ls \<longleftrightarrow> (\<exists>l \<in> set ls. has_prefix (trim_space l) ''# gecit:'' \<or> has_prefix (trim_space l) ''# gecit-saved: '')"
  by (induction ls) (simp_all add: Let_def)

lemma saved_trimmed:
  assumes "trimmed t" and "t \<noteq> []"
  shows "trim_space (''# gecit-saved: '' @ t) = ''# gecit-saved: '' @ t"
proof (rule trim_space_id)
  have "trimmed (''# gecit-saved:'' @ CHR '' '' # t)"
    using assms by (intro trimmed_append) (simp_all add: visible_def)
  then show "trimmed (''# gecit-saved: '' @ t)" by simp
qed

lemma marker_trimmed: "trim_space marker = marker"
  by (intro trim_space_id trimmed_visible) (simp_all add: marker_def visible_def)

lemma ns_trimmed [simp]: "trim_space ''nameserver 127.0.0.1'' = ''nameserver 127.0.0.1''"
  by (intro trim_space_id trimmed_visible) (simp_all add: visible_def)

lemma not_prefix_both: "prefix ''nameserver'' x \<Longrightarrow> \<not> prefix ''# gecit'' x"
  by (cases x) auto

lemma restore_set_lines: "restore_lines (set_lines ls @ [[]]) = tidy_lines ls"
proof (induction ls)
  case (Cons l ls)
  consider "blank l" | "is_gecit l" | "is_nameserver l" "\<not> blank l" "\<not> is_gecit l"
    | "\<not> is_nameserver l" "\<not> blank l" "\<not> is_gecit l" by blast
  then show ?case
  proof cases
    case 3
    then have "trim_space (''# gecit-saved: '' @ trim_space l) = ''# gecit-saved: '' @ trim_space l"
      by (intro saved_trimmed) (simp_all add: blank_def)
    with 3 Cons show ?thesis
      by (simp add: set_lines_eq tidy_lines_def Let_def trim_prefix_def)
  next
    case 4
    have "\<not> prefix ''# gecit-saved: '' x" if "\<not> prefix ''# gecit'' x" for x
      using that prefix_order.trans [of "''# gecit''" "''# gecit-saved: ''" x] by auto
    moreover have "trim_space l \<noteq> ''nameserver 127.0.0.1''"
      using 4 by (auto simp: is_nameserver_def)
    ultimately show ?thesis
      using 4 Cons by (simp add: set_lines_eq tidy_lines_def Let_def blank_def is_gecit_def)
  qed (use Cons in \<open>simp_all add: set_lines_eq tidy_lines_def\<close>)
qed (simp add: tidy_lines_def)

lemma nl_not_marker: "nl \<notin> set marker"
  by (simp add: marker_def)

lemma nl_not_set_lines:
  assumes "l \<in> set (set_lines (split_on nl orig))"
  shows "nl \<notin> set l"
  using assms split_on_no_sep [of _ nl orig] set_trim_space
  by (fastforce simp: set_lines_eq)

lemma split_set_text:
  "split_on nl (set_text orig) = [marker, ''nameserver 127.0.0.1''] @ set_lines (split_on nl orig) @ [[]]"
  unfolding set_text_def file_text_def
  using nl_not_set_lines nl_not_marker by (subst split_file_lines) auto

lemma has_state_set_text: "hasGecitDNSState (set_text orig)"
  by (simp add: hasGecitDNSState_def split_set_text has_gecit_line_iff marker_trimmed) (simp add: marker_def)

lemma restore_set_text:
  "restore_text (set_text orig) =
     file_text (if tidy_lines (split_on nl orig) = [] then [''nameserver 8.8.8.8''] else tidy_lines (split_on nl orig))"
proof -
  have "prefix ''# gecit'' marker" "\<not> prefix ''# gecit-saved: '' marker"
    by (simp_all add: marker_def)
  then have "restore_lines (split_on nl (set_text orig)) = tidy_lines (split_on nl orig)"
    unfolding split_set_text using restore_set_lines [of "split_on nl orig"]
    by (simp add: marker_trimmed Let_def)
  then show ?thesis
    by (simp add: restore_text_def)
qed


lemma is_gecit_saved: "trimmed t \<Longrightarrow> t \<noteq> [] \<Longrightarrow> is_gecit (''# gecit-saved: '' @ t)"
  unfolding is_gecit_def by (subst saved_trimmed) simp_all

lemma tidy_of_set_lines: "tidy_lines (set_lines ls) = filter (\<lambda>l. \<not> blank l \<and> \<not> is_gecit l \<and> \<not> is_nameserver l) ls"
proof (induction ls)
  case (Cons l ls)
  have "is_gecit (''# gecit-saved: '' @ trim_space l)" if "\<not> blank l"
    using that by (intro is_gecit_saved) (simp_all add: blank_def)
  with Cons show ?case
    by (auto simp: set_lines_eq tidy_lines_def)
qed (simp add: tidy_lines_def)

lemma tidy_append [simp]: "tidy_lines (xs @ ys) = tidy_lines xs @ tidy_lines ys"
  by (simp add: tidy_lines_def)

lemma tidy_head: "tidy_lines [marker, ''nameserver 127.0.0.1''] = [''nameserver 127.0.0.1'']"
proof -
  have "is_gecit marker"
    by (simp add: is_gecit_def marker_trimmed) (simp add: marker_def)
  then show ?thesis
    by (simp add: tidy_lines_def blank_def is_gecit_def [of "''nameserver 127.0.0.1''"] is_nameserver_def)
qed

lemma tidy_clean:
  assumes "l \<in> set (tidy_lines ls)"
  shows "\<not> has_prefix (trim_space l) ''# gecit''" and "trim_space l \<noteq> []" and "(\<And>k. k \<in> set ls \<Longrightarrow> nl \<notin> set k) \<Longrightarrow> nl \<notin> set l"
  using assms set_trim_space by (fastforce simp: tidy_lines_def is_gecit_def blank_def split: if_splits)+

lemma file_text_clean:
  assumes "ls \<noteq> []" and "\<And>l. l \<in> set ls \<Longrightarrow> \<not> has_prefix (trim_space l) ''# gecit'' \<and> nl \<notin> set l"
  shows "\<not> hasGecitDNSState (file_text ls)"
proof -
  have "split_on nl (file_text ls) = ls @ [[]]"
    unfolding file_text_def using assms by (intro split_file_lines) auto
  moreover have "\<not> prefix ''# gecit-saved: '' x \<and> \<not> prefix ''# gecit:'' x" if "\<not> prefix ''# gecit'' x" for x
    using that prefix_order.trans [of "''# gecit''" "''# gecit-saved: ''" x]
      prefix_order.trans [of "''# gecit''" "''# gecit:''" x] by auto
  ultimately show ?thesis
    using assms(2) by (auto simp: hasGecitDNSState_def has_gecit_line_iff)
qed

subsection \<open>Properties\<close>

text \<open>
  One set and one restore give the file back: every line that says something is kept in order, as
  it was (a name server line without the white space around it), lines of gecit and blank lines are
  gone, and only a file that held nothing else gets the fallback name server.
\<close>

theorem Restore_undoes_Set:
  assumes "SetSystemDNS write_ok (Some orig) = (None, file)"
  shows "SystemDNSNeedsRestore file \<and>
    RestoreSystemDNS write_ok file = (None, Some (file_text
      (let kept = map (\<lambda>l. if has_prefix (trim_space l) ''nameserver'' then trim_space l else l)
         (filter (\<lambda>l. trim_space l \<noteq> [] \<and> \<not> has_prefix (trim_space l) ''# gecit'') (split_on nl orig))
       in if kept = [] then [''nameserver 8.8.8.8''] else kept)))"
proof -
  have f: "file = Some (set_text orig)"
    using assms by (simp add: SetSystemDNS_def do_write_def write_ok_def)
  have "tidy_lines (split_on nl orig) = map (\<lambda>l. if has_prefix (trim_space l) ''nameserver'' then trim_space l else l)
      (filter (\<lambda>l. trim_space l \<noteq> [] \<and> \<not> has_prefix (trim_space l) ''# gecit'') (split_on nl orig))"
    by (simp add: tidy_lines_def is_nameserver_def blank_def is_gecit_def)
  then show ?thesis
    unfolding f RestoreSystemDNS_def SystemDNSNeedsRestore_def option.case Let_def
    by (simp only: has_state_set_text do_write_def write_ok_def restore_set_text) simp
qed

theorem Restore_undoes_Set_witness:
  "\<exists>file text. SetSystemDNS write_ok (Some ''search lan'') = (None, file) \<and> SystemDNSNeedsRestore file \<and>
     RestoreSystemDNS write_ok file = (None, Some text)"
proof -
  obtain conf where f: "SetSystemDNS write_ok (Some ''search lan'') = (None, conf)"
    by (simp add: SetSystemDNS_def do_write_def write_ok_def)
  from Restore_undoes_Set [OF f] f show ?thesis by blast
qed

text \<open>
  Restoring is complete and idempotent: after a set, a restore leaves no line of gecit, so nothing
  needs restoring any more and a second restore changes nothing.
\<close>

theorem Restore_leaves_no_state:
  assumes "SetSystemDNS write_ok (Some orig) = (None, file)" and "RestoreSystemDNS write_ok file = (err, file')"
  shows "\<not> SystemDNSNeedsRestore file' \<and> RestoreSystemDNS write_ok file' = (None, file')"
proof -
  let ?ls = "if tidy_lines (split_on nl orig) = [] then [''nameserver 8.8.8.8''] else tidy_lines (split_on nl orig)"
  have "file = Some (set_text orig)"
    using assms(1) by (simp add: SetSystemDNS_def do_write_def write_ok_def)
  then have f': "file' = Some (file_text ?ls)"
    using assms(2) by (simp add: RestoreSystemDNS_def has_state_set_text do_write_def write_ok_def restore_set_text)
  have fallback: "trim_space ''nameserver 8.8.8.8'' = ''nameserver 8.8.8.8''"
    by (intro trim_space_id trimmed_visible) (simp_all add: visible_def)
  have "\<not> hasGecitDNSState (file_text ?ls)"
  proof (rule file_text_clean)
    fix l
    assume l: "l \<in> set ?ls"
    show "\<not> has_prefix (trim_space l) ''# gecit'' \<and> nl \<notin> set l"
    proof (cases "tidy_lines (split_on nl orig) = []")
      case True
      with l fallback show ?thesis by simp
    next
      case False
      with l have l': "l \<in> set (tidy_lines (split_on nl orig))" by simp
      show ?thesis
        using tidy_clean(1) [OF l'] tidy_clean(3) [OF l' split_on_no_sep [of _ nl orig]] by simp
    qed
  qed simp
  moreover define content where "content = file_text ?ls"
  ultimately have "\<not> hasGecitDNSState content"
    by (simp only: content_def not_False_eq_True)
  then show ?thesis
    unfolding f' content_def [symmetric] by (simp add: SystemDNSNeedsRestore_def RestoreSystemDNS_def)
qed

theorem Restore_leaves_no_state_witness:
  "\<exists>file err file'. SetSystemDNS write_ok (Some ''search lan'') = (None, file) \<and>
     RestoreSystemDNS write_ok file = (err, file') \<and> \<not> SystemDNSNeedsRestore file'"
proof -
  obtain conf where f: "SetSystemDNS write_ok (Some ''search lan'') = (None, conf)"
    by (simp add: SetSystemDNS_def do_write_def write_ok_def)
  obtain err conf' where r: "RestoreSystemDNS write_ok conf = (err, conf')" by fastforce
  from Restore_leaves_no_state [OF f r] f r show ?thesis by blast
qed

text \<open>
  C37. The saved lines do not survive a second set: after a crash and a new start, or two sets for any
  other reason, the restore yields the local server as the only name server and none of the original
  ones, since the second set drops the lines the first one saved.
\<close>

theorem Set_twice_loses_nameservers:
  assumes "SetSystemDNS write_ok (Some orig) = (None, file1)" and "SetSystemDNS write_ok file1 = (None, file2)"
  shows "RestoreSystemDNS write_ok file2 = (None, Some (file_text (''nameserver 127.0.0.1'' #
    filter (\<lambda>l. trim_space l \<noteq> [] \<and> \<not> has_prefix (trim_space l) ''# gecit'' \<and> \<not> has_prefix (trim_space l) ''nameserver'')
      (split_on nl orig))))"
proof -
  have f2: "file2 = Some (set_text (set_text orig))"
    using assms by (auto simp: SetSystemDNS_def do_write_def write_ok_def)
  have "tidy_lines [[]] = []"
    by (simp add: tidy_lines_def blank_def)
  then have "tidy_lines (split_on nl (set_text orig)) = ''nameserver 127.0.0.1'' #
      filter (\<lambda>l. \<not> blank l \<and> \<not> is_gecit l \<and> \<not> is_nameserver l) (split_on nl orig)"
    by (simp only: split_set_text tidy_append tidy_head tidy_of_set_lines) simp
  then have "restore_text (set_text (set_text orig)) = file_text (''nameserver 127.0.0.1'' #
      filter (\<lambda>l. \<not> blank l \<and> \<not> is_gecit l \<and> \<not> is_nameserver l) (split_on nl orig))"
    by (simp only: restore_set_text) simp
  then show ?thesis
    unfolding f2 RestoreSystemDNS_def option.case
    by (simp add: has_state_set_text do_write_def write_ok_def blank_def is_gecit_def is_nameserver_def)
qed

theorem Set_twice_loses_nameservers_witness:
  "\<exists>file1 file2. SetSystemDNS write_ok (Some ''nameserver 9.9.9.9'') = (None, file1) \<and>
     SetSystemDNS write_ok file1 = (None, file2) \<and>
     RestoreSystemDNS write_ok file2 = (None, Some (''nameserver 127.0.0.1'' @ [nl]))"
proof -
  obtain file1 where f1: "SetSystemDNS write_ok (Some ''nameserver 9.9.9.9'') = (None, file1)"
    by (simp add: SetSystemDNS_def do_write_def write_ok_def)
  then obtain file2 where f2: "SetSystemDNS write_ok file1 = (None, file2)"
    by (auto simp: SetSystemDNS_def do_write_def write_ok_def)
  have "trim_space ''nameserver 9.9.9.9'' = ''nameserver 9.9.9.9''"
    by (intro trim_space_id trimmed_visible) (simp_all add: visible_def)
  with Set_twice_loses_nameservers [OF f1 f2] f1 f2 show ?thesis
    by (auto simp: file_text_def)
qed

end
