(* ===== verification/CmdRun.thy ===== *)
theory CmdRun
  imports EbpfManager ResolvConf DnsServer
begin

text \<open>
  The command \<open>gecit run\<close> (cmd/gecit/app/run.go, run_linux.go) and the configuration of pkg/engine: the
  conversion of the flags, the detached restart, and the Linux engine that composes the DNS server,
  resolv.conf and the eBPF manager; the engine of macOS and Windows is in theory RunTun. The flag library,
  URL parsing, name lookup and the listening DNS server are parameters. What is proved: a failed or ended
  session leaves nothing running and resolv.conf as it was, the DoH upstreams given by address are never
  treated, and two conversions that do not do what they should: ports beyond 16 bits and the detached
  restart.
\<close>

subsection \<open>Configuration\<close>

record EngineConfig =
  ecMSS :: int
  ecRestoreMSS :: int
  ecRestoreAfterBytes :: int
  ecPorts :: "u16 list"
  ecInterface :: string
  ecCgroupPath :: string
  ecFakeTTL :: int
  ecDoHEnabled :: bool
  ecDoHUpstream :: string

definition DefaultEngineConfig :: EngineConfig where
  "DefaultEngineConfig = \<lparr>ecMSS = 88, ecRestoreMSS = 0, ecRestoreAfterBytes = 600, ecPorts = [443], ecInterface = [],
     ecCgroupPath = ''/sys/fs/cgroup'', ecFakeTTL = 8, ecDoHEnabled = True, ecDoHUpstream = ''cloudflare''\<rparr>"

text \<open>The values viper returns for the flags of the command.\<close>

record run_flags =
  v_mss :: int
  v_restore_mss :: int
  v_restore_after_bytes :: int
  v_ports :: "int list"
  v_interface :: string
  v_cgroup_path :: string
  v_fake_ttl :: int
  v_doh_enabled :: bool
  v_doh_upstream :: string

definition toUint16Slice :: "int list \<Rightarrow> u16 list" where
  "toUint16Slice ints = map (\<lambda>v. of_int v) ints"

definition run_config :: "run_flags \<Rightarrow> EngineConfig" where
  "run_config v = \<lparr>ecMSS = v_mss v, ecRestoreMSS = v_restore_mss v, ecRestoreAfterBytes = v_restore_after_bytes v,
     ecPorts = toUint16Slice (v_ports v), ecInterface = v_interface v, ecCgroupPath = v_cgroup_path v,
     ecFakeTTL = v_fake_ttl v, ecDoHEnabled = v_doh_enabled v, ecDoHUpstream = v_doh_upstream v\<rparr>"

text \<open>The arguments of the child that \<open>--detach\<close> starts.\<close>

fun childArgs :: "string list \<Rightarrow> string list" where
  "childArgs [] = []"
| "childArgs (arg # args) =
     (if arg \<noteq> ''--detach'' \<and> arg \<noteq> ''-d'' then arg # childArgs args else childArgs args)"

subsection \<open>The DoH upstreams\<close>

fun upstream_ips :: "net_env \<Rightarrow> (string \<Rightarrow> ip option) \<Rightarrow> string list \<Rightarrow> ip list" where
  "upstream_ips net parse_ip [] = []"
| "upstream_ips net parse_ip (u # us) =
     (let u = trim_space u;
          u = (case map_of Presets u of Some p \<Rightarrow> p | None \<Rightarrow> u) in
      (case url_Parse net u of
         None \<Rightarrow> upstream_ips net parse_ip us
       | Some parsed \<Rightarrow>
           let host = Hostname parsed in
           (case parse_ip host of
              Some ip \<Rightarrow> ip # upstream_ips net parse_ip us
            | None \<Rightarrow>
                (case LookupIP net host of
                   None \<Rightarrow> upstream_ips net parse_ip us
                 | Some resolved \<Rightarrow> filter (\<lambda>ip. to4 ip \<noteq> []) resolved @ upstream_ips net parse_ip us))))"

definition dohUpstreamIPs :: "net_env \<Rightarrow> (string \<Rightarrow> ip option) \<Rightarrow> string \<Rightarrow> ip list" where
  "dohUpstreamIPs net parse_ip upstream = upstream_ips net parse_ip (split_on CHR '','' upstream)"

subsection \<open>The Linux engine\<close>

text \<open>\<open>eng_dns_server\<close>: the field \<open>server\<close> of the DNS server is set, so \<open>Stop\<close> shuts it down.\<close>

record ebpfEngine =
  eng_mgr :: Manager
  eng_maps :: maps
  eng_dns_server :: bool
  eng_dohEnabled :: bool

definition newPlatformEngine :: "net_env \<Rightarrow> (string \<Rightarrow> ip option) \<Rightarrow> EngineConfig \<Rightarrow> ebpfEngine" where
  "newPlatformEngine net parse_ip c =
     (let upstream = (if ecDoHUpstream c = [] then ''cloudflare'' else ecDoHUpstream c) in
      \<lparr>eng_mgr = NewManager \<lparr>eMSS = ecMSS c, eRestoreMSS = ecRestoreMSS c, eRestoreAfterBytes = ecRestoreAfterBytes c,
         ePorts = ecPorts c, eExcludeIPs = dohUpstreamIPs net parse_ip upstream, eCgroupPath = ecCgroupPath c,
         eFakeTTL = ecFakeTTL c\<rparr>,
       eng_maps = loaded_maps, eng_dns_server = False, eng_dohEnabled = ecDoHEnabled c\<rparr>)"

datatype engine_eff = DnsListen | DnsShutdown | MgrEff mgr_effect

datatype run_error = DnsServerError string | SystemDnsError dns_error | ManagerError mgr_error

text \<open>\<open>dns.Stop\<close> shuts the server down if it was created.\<close>

definition dns_stop :: "ebpfEngine \<Rightarrow> engine_eff list" where
  "dns_stop e = (if eng_dns_server e then [DnsShutdown] else [])"

definition start_mgr :: "ebpf_env \<Rightarrow> writer \<Rightarrow> ebpfEngine \<Rightarrow> engine_eff list \<Rightarrow> string option
   \<Rightarrow> run_error err \<times> engine_eff list \<times> ebpfEngine \<times> string option" where
  "start_mgr env restore_w e effs conf =
     (let (err, meffs, m, k) = StartManager env (eng_mgr e) (eng_maps e);
          e = e\<lparr>eng_mgr := m, eng_maps := k\<rparr>;
          effs = effs @ map MgrEff meffs in
      (case err of
         None \<Rightarrow> (None, effs, e, conf)
       | Some x \<Rightarrow>
           if eng_dohEnabled e
           then (Some (ManagerError x), effs @ dns_stop e, e, snd (RestoreSystemDNS restore_w conf))
           else (Some (ManagerError x), effs, e, conf)))"

definition StartEbpf :: "string err \<Rightarrow> ebpf_env \<Rightarrow> writer \<Rightarrow> writer \<Rightarrow> ebpfEngine \<Rightarrow> string option
   \<Rightarrow> run_error err \<times> engine_eff list \<times> ebpfEngine \<times> string option" where
  "StartEbpf dns_result env set_w restore_w e conf =
     (if eng_dohEnabled e then
        let e = e\<lparr>eng_dns_server := True\<rparr> in
        (case dns_result of
           Some x \<Rightarrow> (Some (DnsServerError x), [], e, conf)
         | None \<Rightarrow>
             let (err, conf) = SetSystemDNS set_w conf in
             (case err of
                Some x \<Rightarrow> (Some (SystemDnsError x), [DnsListen] @ dns_stop e, e, conf)
              | None \<Rightarrow> start_mgr env restore_w e [DnsListen] conf))
      else start_mgr env restore_w e [] conf)"

definition StopEbpf :: "writer \<Rightarrow> ebpfEngine \<Rightarrow> string option \<Rightarrow> engine_eff list \<times> ebpfEngine \<times> string option" where
  "StopEbpf restore_w e conf =
     (let (effs, conf) =
            (if eng_dohEnabled e then (dns_stop e, snd (RestoreSystemDNS restore_w conf)) else ([], conf));
          (meffs, m) = StopManager (eng_mgr e)
      in (effs @ map MgrEff meffs, e\<lparr>eng_mgr := m\<rparr>, conf))"

subsection \<open>The command\<close>

text \<open>
  \<open>gecit run\<close> on Linux. With \<open>--detach\<close> the process starts its child and exits; otherwise it checks the
  privileges, starts the engine, waits for a signal and stops it.
\<close>

record run_host =
  rh_child :: "string list \<Rightarrow> string err"
  rh_privileges :: "string err"
  rh_net :: net_env
  rh_parse_ip :: "string \<Rightarrow> ip option"
  rh_dns :: "string err"
  rh_ebpf :: ebpf_env

datatype run_end = Exited | Returned "run_cmd_error option"
and run_cmd_error = ChildError string | PrivilegeError string | EngineError run_error

definition runEngine :: "run_host \<Rightarrow> writer \<Rightarrow> bool \<Rightarrow> string list \<Rightarrow> run_flags \<Rightarrow> string option
   \<Rightarrow> run_end \<times> engine_eff list \<times> string option" where
  "runEngine h w detach args v conf =
     (if detach then
        (case rh_child h (childArgs args) of
           Some x \<Rightarrow> (Returned (Some (ChildError x)), [], conf)
         | None \<Rightarrow> (Exited, [], conf))
      else
        (case rh_privileges h of
           Some x \<Rightarrow> (Returned (Some (PrivilegeError x)), [], conf)
         | None \<Rightarrow>
             let eng = newPlatformEngine (rh_net h) (rh_parse_ip h) (run_config v);
                 (err, effs, eng, conf) = StartEbpf (rh_dns h) (rh_ebpf h) w w eng conf in
             (case err of
                Some x \<Rightarrow> (Returned (Some (EngineError x)), effs, conf)
              | None \<Rightarrow>
                  let (effs', eng, conf) = StopEbpf w eng conf
                  in (Returned None, effs @ effs', conf))))"

subsection \<open>Resources of the Linux engine\<close>

datatype engine_resource = DnsListener | OfManager mgr_resource

fun eng_opens :: "engine_eff \<Rightarrow> engine_resource option" where
  "eng_opens DnsListen = Some DnsListener"
| "eng_opens DnsShutdown = None"
| "eng_opens (MgrEff e) = map_option OfManager (mgr_opens e)"

fun eng_closes :: "engine_eff \<Rightarrow> engine_resource option" where
  "eng_closes DnsListen = None"
| "eng_closes DnsShutdown = Some DnsListener"
| "eng_closes (MgrEff e) = map_option OfManager (mgr_closes e)"

abbreviation eng_track :: "engine_eff list \<Rightarrow> engine_resource set \<Rightarrow> engine_resource set option" where
  "eng_track \<equiv> track eng_opens eng_closes"

lemma eng_track_mgr:
  "B \<subseteq> {DnsListener} \<Longrightarrow> mgr_track es A = Some A' \<Longrightarrow>
   eng_track (map MgrEff es) (OfManager ` A \<union> B) = Some (OfManager ` A' \<union> B)"
proof (induction es arbitrary: A)
  case (Cons e es)
  have out: "OfManager r \<notin> B" for r
    using Cons.prems(1) by auto
  show ?case
  proof (cases "mgr_opens e")
    case (Some r)
    with Cons.prems(2) have r: "r \<notin> A" "mgr_track es (insert r A) = Some A'"
      by (auto split: if_splits)
    have "insert (OfManager r) (OfManager ` A \<union> B) = OfManager ` insert r A \<union> B"
      by auto
    moreover have "OfManager r \<notin> OfManager ` A \<union> B"
      using r(1) out by auto
    ultimately show ?thesis
      using Cons.IH [OF Cons.prems(1) r(2)] Some by simp
  next
    case None
    show ?thesis
    proof (cases "mgr_closes e")
      case c: None
      with None Cons show ?thesis by simp
    next
      case (Some r)
      have "OfManager ` A \<union> B - {OfManager r} = OfManager ` (A - {r}) \<union> B"
        using out by auto
      with None Some Cons show ?thesis by simp
    qed
  qed
qed simp

lemma eng_track_from_listening:
  "mgr_track es {} = Some A \<Longrightarrow> eng_track (map MgrEff es) {DnsListener} = Some (insert DnsListener (OfManager ` A))"
  using eng_track_mgr [of "{DnsListener}" es "{}" A] by simp

lemma eng_track_from_idle:
  "mgr_track es {} = Some A \<Longrightarrow> eng_track (map MgrEff es) {} = Some (OfManager ` A)"
  using eng_track_mgr [of "{}" es "{}" A] by simp

text \<open>What resolv.conf looks like after a set and a restore (theory ResolvConf).\<close>

definition restored :: "string \<Rightarrow> string" where
  "restored orig = file_text
     (let kept = tidy_lines (split_on nl orig) in if kept = [] then [''nameserver 8.8.8.8''] else kept)"

lemma restore_after_set: "RestoreSystemDNS write_ok (Some (set_text orig)) = (None, Some (restored orig))"
  by (simp add: RestoreSystemDNS_def has_state_set_text do_write_def write_ok_def restore_set_text restored_def Let_def)

lemma start_mgr_track:
  assumes "mgr_held (eng_mgr e) = {}" and "eng_dohEnabled e" and "eng_dns_server e"
    and "start_mgr env w e [DnsListen] conf = (err, effs, e', conf')"
  shows "eng_dohEnabled e'" and "eng_dns_server e'"
    and "err \<noteq> None \<Longrightarrow> eng_track effs {} = Some {} \<and> conf' = snd (RestoreSystemDNS w conf)"
    and "err = None \<Longrightarrow> eng_track effs {} = Some (insert DnsListener (OfManager ` mgr_held (eng_mgr e'))) \<and> conf' = conf"
proof -
  obtain merr meffs m k where st: "StartManager env (eng_mgr e) (eng_maps e) = (merr, meffs, m, k)"
    by (rule prod_cases4)
  note t = StartManager_track [OF assms(1) st]
  have listen: "eng_track ([DnsListen] @ map MgrEff meffs) {} = Some (insert DnsListener (OfManager ` mgr_held m))"
    using eng_track_from_listening [of meffs "mgr_held m"] t by simp
  show "eng_dohEnabled e'" "eng_dns_server e'"
    using assms(2-4) st by (auto simp: start_mgr_def Let_def split: option.splits)
  show "eng_track effs {} = Some {} \<and> conf' = snd (RestoreSystemDNS w conf)" if "err \<noteq> None"
  proof -
    from that have f: "merr \<noteq> None" "effs = ([DnsListen] @ map MgrEff meffs) @ [DnsShutdown]" "conf' = snd (RestoreSystemDNS w conf)"
      using assms(2-4) st by (auto simp: start_mgr_def dns_stop_def Let_def split: option.splits)
    moreover have "eng_track effs {} = Some {}"
      unfolding f(2) track_append_Some [OF listen] using t f(1) by simp
    ultimately show ?thesis by simp
  qed
  show "eng_track effs {} = Some (insert DnsListener (OfManager ` mgr_held (eng_mgr e'))) \<and> conf' = conf" if "err = None"
  proof -
    from that have "merr = None" "effs = [DnsListen] @ map MgrEff meffs" "conf' = conf" "eng_mgr e' = m"
      using assms(2,4) st by (auto simp: start_mgr_def Let_def split: option.splits)
    then show ?thesis using listen by simp
  qed
qed

text \<open>
  A session of the Linux engine with DoH, for any content of resolv.conf and any results of the writes: a
  \<open>Start\<close> that fails has closed every resource it opened, and after one that succeeds \<open>Stop\<close>
  closes everything.
\<close>

lemma ebpf_session_closed:
  assumes "mgr_held (eng_mgr e) = {}" and "eng_dohEnabled e"
    and "StartEbpf dns_result env set_w restore_w e conf = (err, effs, e1, conf1)"
    and "StopEbpf restore_w' e1 conf1 = (effs', e2, conf2)"
  shows "(err \<noteq> None \<longrightarrow> eng_track effs {} = Some {}) \<and>
    (err = None \<longrightarrow> eng_track (effs @ effs') {} = Some {} \<and> mgr_held (eng_mgr e2) = {} \<and>
       fst (SetSystemDNS set_w conf) = None \<and> conf1 = snd (SetSystemDNS set_w conf) \<and>
       conf2 = snd (RestoreSystemDNS restore_w' conf1))"
proof (cases "dns_result \<noteq> None \<or> fst (SetSystemDNS set_w conf) \<noteq> None")
  case True
  then show ?thesis
    using assms(2,3) by (auto simp: StartEbpf_def dns_stop_def Let_def split: option.splits prod.splits)
next
  case False
  let ?e = "e\<lparr>eng_dns_server := True\<rparr>"
  have m: "start_mgr env restore_w ?e [DnsListen] (snd (SetSystemDNS set_w conf)) = (err, effs, e1, conf1)"
    using assms(2,3) False by (auto simp: StartEbpf_def Let_def split: prod.splits)
  have held: "mgr_held (eng_mgr ?e) = {}"
    using assms(1) by simp
  note t = start_mgr_track [OF held _ _ m]
  show ?thesis
  proof (cases err)
    case (Some x)
    with t(3) assms(2) show ?thesis by simp
  next
    case ok: None
    obtain ms m2 where sm: "StopManager (eng_mgr e1) = (ms, m2)" by fastforce
    have t4: "eng_track effs {} = Some (insert DnsListener (OfManager ` mgr_held (eng_mgr e1)))" "conf1 = snd (SetSystemDNS set_w conf)"
      using t(4) ok assms(2) by simp_all
    have e1: "eng_dohEnabled e1" "eng_dns_server e1"
      using t(1,2) assms(2) by simp_all
    then have s: "effs' = [DnsShutdown] @ map MgrEff ms" "eng_mgr e2 = m2" "conf2 = snd (RestoreSystemDNS restore_w' conf1)"
      using assms(4) sm by (auto simp: StopEbpf_def dns_stop_def)
    note sm2 = StopManager_track [OF sm subset_refl]
    have "eng_track (map MgrEff ms) (OfManager ` mgr_held (eng_mgr e1) \<union> {}) = Some (OfManager ` {} \<union> {})"
      by (rule eng_track_mgr) (use sm2 in simp_all)
    moreover have "insert DnsListener (OfManager ` X) - {DnsListener} = OfManager ` X" for X
      by auto
    ultimately have "eng_track (effs @ effs') {} = Some {}"
      unfolding track_append_Some [OF t4(1)] s(1) by simp
    then show ?thesis
      using ok sm2 s t4(2) False by simp
  qed
qed

text \<open>What becomes of a readable resolv.conf if the writes succeed.\<close>

lemma ebpf_session_conf:
  assumes "mgr_held (eng_mgr e) = {}" and "eng_dohEnabled e"
    and "StartEbpf dns_result env write_ok write_ok e (Some orig) = (err, effs, e1, conf1)"
    and "StopEbpf write_ok e1 conf1 = (effs', e2, conf2)"
  shows "(err \<noteq> None \<longrightarrow> conf1 \<in> {Some orig, Some (restored orig)}) \<and>
    (err = None \<longrightarrow> SystemDNSNeedsRestore conf1 \<and> conf2 = Some (restored orig))"
proof -
  have set: "SetSystemDNS write_ok (Some orig) = (None, Some (set_text orig))"
    by (simp add: SetSystemDNS_def do_write_def write_ok_def)
  show ?thesis
  proof (cases err)
    case None
    with ebpf_session_closed [OF assms] show ?thesis
      by (simp add: set restore_after_set SystemDNSNeedsRestore_def has_state_set_text)
  next
    case (Some x)
    let ?e = "e\<lparr>eng_dns_server := True\<rparr>"
    have "conf1 = Some orig \<or> start_mgr env write_ok ?e [DnsListen] (Some (set_text orig)) = (err, effs, e1, conf1)"
      using assms(2,3) by (cases dns_result) (auto simp: StartEbpf_def set Let_def)
    then show ?thesis
      using start_mgr_track(3) [of ?e env write_ok "Some (set_text orig)" err effs e1 conf1] Some assms(1,2)
      by (auto simp: restore_after_set)
  qed
qed

definition sample_net :: net_env where
  "sample_net = \<lparr>url_Parse = (\<lambda>u. Some \<lparr>Hostname = take 7 (drop 8 u), Port = [], with_host = (\<lambda>h. ''https://'' @ h)\<rparr>),
     is_IP = (\<lambda>_. True), LookupIP = (\<lambda>_. None)\<rparr>"

definition sample_parse_ip :: "string \<Rightarrow> ip option" where
  "sample_parse_ip h = (if h = ''1.1.1.1'' then Some (replicate 10 0 @ [0xFF, 0xFF, 1, 1, 1, 1]) else None)"

lemma new_engine_idle: "mgr_held (eng_mgr (newPlatformEngine net parse_ip c)) = {}"
  by (simp add: newPlatformEngine_def NewManager_def Let_def mgr_held_empty)

lemma new_engine_doh: "eng_dohEnabled (newPlatformEngine net parse_ip DefaultEngineConfig)"
  by (simp add: newPlatformEngine_def DefaultEngineConfig_def Let_def)

text \<open>Without DoH the file and the listener are left alone.\<close>

lemma start_mgr_track_plain:
  assumes "mgr_held (eng_mgr e) = {}" and "\<not> eng_dohEnabled e"
    and "start_mgr env restore_w e [] conf = (err, effs, e', conf')"
  shows "eng_track effs {} = Some (OfManager ` mgr_held (eng_mgr e'))" and "err \<noteq> None \<Longrightarrow> mgr_held (eng_mgr e') = {}"
    and "\<not> eng_dohEnabled e'" and "conf' = conf"
proof -
  obtain merr meffs m k where st: "StartManager env (eng_mgr e) (eng_maps e) = (merr, meffs, m, k)"
    by (rule prod_cases4)
  have r: "effs = map MgrEff meffs" "eng_mgr e' = m" "\<not> eng_dohEnabled e'" "conf' = conf" "err = None \<longleftrightarrow> merr = None"
    using assms(2,3) st by (auto simp: start_mgr_def Let_def split: option.splits)
  note t = StartManager_track [OF assms(1) st]
  show "eng_track effs {} = Some (OfManager ` mgr_held (eng_mgr e'))"
    using eng_track_from_idle [of meffs "mgr_held m"] t r by simp
  show "err \<noteq> None \<Longrightarrow> mgr_held (eng_mgr e') = {}"
    using t r by simp
  show "\<not> eng_dohEnabled e'" "conf' = conf"
    using r by simp_all
qed

lemma ebpf_session_plain:
  assumes "mgr_held (eng_mgr e) = {}" and "\<not> eng_dohEnabled e"
    and "StartEbpf dns_result env w w e conf = (err, effs, e1, conf1)" and "StopEbpf w e1 conf1 = (effs', e2, conf2)"
  shows "conf1 = conf \<and> conf2 = conf \<and> (err \<noteq> None \<longrightarrow> eng_track effs {} = Some {}) \<and> eng_track (effs @ effs') {} = Some {}"
proof -
  have st: "start_mgr env w e [] conf = (err, effs, e1, conf1)"
    using assms(2,3) by (simp add: StartEbpf_def)
  note t = start_mgr_track_plain [OF assms(1,2) st]
  obtain ms m2 where sm: "StopManager (eng_mgr e1) = (ms, m2)" by fastforce
  have s: "effs' = map MgrEff ms" "conf2 = conf1"
    using assms(4) t(3) sm by (auto simp: StopEbpf_def)
  have "eng_track (map MgrEff ms) (OfManager ` mgr_held (eng_mgr e1) \<union> {}) = Some (OfManager ` {} \<union> {})"
    by (rule eng_track_mgr) (use StopManager_track [OF sm subset_refl] in simp_all)
  then show ?thesis
    unfolding s(1) track_append_Some [OF t(1)] using t s by simp
qed

lemma new_engine_doh_iff: "eng_dohEnabled (newPlatformEngine net parse_ip c) = ecDoHEnabled c"
  by (simp add: newPlatformEngine_def Let_def)

text \<open>A session of the command, without and with DoH.\<close>

lemma runEngine_cases:
  assumes "runEngine h w detach args v conf = (result, effs, conf')"
  obtains (skipped) "effs = []" "conf' = conf" "result \<noteq> Returned None"
  | (failed) err e1 eng conf1 e2 eng2 conf2 where
      "StartEbpf (rh_dns h) (rh_ebpf h) w w (newPlatformEngine (rh_net h) (rh_parse_ip h) (run_config v)) conf = (Some err, e1, eng, conf1)"
      "StopEbpf w eng conf1 = (e2, eng2, conf2)" "effs = e1" "conf' = conf1" "result \<noteq> Returned None"
  | (stopped) e1 eng conf1 e2 eng2 conf2 where
      "StartEbpf (rh_dns h) (rh_ebpf h) w w (newPlatformEngine (rh_net h) (rh_parse_ip h) (run_config v)) conf = (None, e1, eng, conf1)"
      "StopEbpf w eng conf1 = (e2, eng2, conf2)" "effs = e1 @ e2" "conf' = conf2" "result = Returned None"
proof (cases "detach \<or> rh_privileges h \<noteq> None")
  case True
  then have "effs = [] \<and> conf' = conf \<and> result \<noteq> Returned None"
    using assms by (auto simp: runEngine_def split: option.splits if_splits)
  then show ?thesis using skipped by blast
next
  case False
  let ?e = "newPlatformEngine (rh_net h) (rh_parse_ip h) (run_config v)"
  obtain err e1 eng conf1 where st: "StartEbpf (rh_dns h) (rh_ebpf h) w w ?e conf = (err, e1, eng, conf1)"
    by (rule prod_cases4)
  obtain e2 eng2 conf2 where sp: "StopEbpf w eng conf1 = (e2, eng2, conf2)"
    by (rule prod_cases3)
  show ?thesis
    using assms False st sp failed stopped by (cases err) (auto simp: runEngine_def Let_def)
qed

lemma runEngine_closed:
  assumes "runEngine h w detach args v conf = (result, effs, conf')"
  shows "eng_track effs {} = Some {} \<and> (\<not> v_doh_enabled v \<longrightarrow> conf' = conf)"
proof -
  have doh: "eng_dohEnabled (newPlatformEngine (rh_net h) (rh_parse_ip h) (run_config v)) = v_doh_enabled v"
    by (simp add: new_engine_doh_iff run_config_def)
  show ?thesis
    using assms
  proof (cases rule: runEngine_cases)
    case skipped
    then show ?thesis by simp
  next
    case (failed err e1 eng conf1 e2 eng2 conf2)
    with ebpf_session_closed [OF new_engine_idle _ failed(1,2)] ebpf_session_plain [OF new_engine_idle _ failed(1,2)] doh
    show ?thesis by (cases "v_doh_enabled v") auto
  next
    case (stopped e1 eng conf1 e2 eng2 conf2)
    with ebpf_session_closed [OF new_engine_idle _ stopped(1,2)] ebpf_session_plain [OF new_engine_idle _ stopped(1,2)] doh
    show ?thesis by (cases "v_doh_enabled v") auto
  qed
qed

lemma runEngine_conf:
  assumes "runEngine h write_ok detach args v (Some orig) = (result, effs, conf)"
  shows "conf \<in> {Some orig, Some (restored orig)} \<and> (result = Returned None \<and> v_doh_enabled v \<longrightarrow> conf = Some (restored orig))"
proof (cases "v_doh_enabled v")
  case False
  with runEngine_closed [OF assms] show ?thesis by simp
next
  case True
  have doh: "eng_dohEnabled (newPlatformEngine (rh_net h) (rh_parse_ip h) (run_config v))"
    using True by (simp add: new_engine_doh_iff run_config_def)
  show ?thesis
    using assms
  proof (cases rule: runEngine_cases)
    case skipped
    then show ?thesis by simp
  next
    case (failed err e1 eng conf1 e2 eng2 conf2)
    with ebpf_session_conf [OF new_engine_idle doh failed(1,2)] show ?thesis by auto
  next
    case (stopped e1 eng conf1 e2 eng2 conf2)
    with ebpf_session_conf [OF new_engine_idle doh stopped(1,2)] show ?thesis by auto
  qed
qed

subsection \<open>Properties\<close>

text \<open>
  C21. \<open>gecit run\<close> on Linux leaves nothing open, however it returns (refused privileges, a failure of the
  DNS server, of the change of resolv.conf, which may be unreadable or refuse a write, or of any step of the
  eBPF manager, or a signal), with DoH and without: every kernel object, socket, reader, goroutine and
  listener it opened is closed, and without DoH resolv.conf is untouched. If resolv.conf can be read and
  every write succeeds, it is in the end what it was or, once it has been rewritten, holds every original
  line that means something.
\<close>

theorem gecit_run_restores:
  assumes "runEngine h w detach args v conf = (result, effs, conf')"
  shows "eng_track effs {} = Some {} \<and> (\<not> v_doh_enabled v \<longrightarrow> conf' = conf) \<and>
    (\<forall>orig. w = write_ok \<and> conf = Some orig \<longrightarrow>
       conf' \<in> {Some orig, Some (restored orig)} \<and>
       (result = Returned None \<and> v_doh_enabled v \<longrightarrow> conf' = Some (restored orig)))"
  using runEngine_closed [OF assms] runEngine_conf assms by blast

definition sample_flags :: run_flags where
  "sample_flags = \<lparr>v_mss = 88, v_restore_mss = 0, v_restore_after_bytes = 600, v_ports = [443], v_interface = [],
     v_cgroup_path = ''/sys/fs/cgroup'', v_fake_ttl = 8, v_doh_enabled = True, v_doh_upstream = ''cloudflare''\<rparr>"

definition sample_host :: run_host where
  "sample_host = \<lparr>rh_child = (\<lambda>_. None), rh_privileges = None, rh_net = sample_net, rh_parse_ip = sample_parse_ip,
     rh_dns = None, rh_ebpf = all_accepted\<rparr>"

text \<open>A file system that has become read-only.\<close>

definition read_only :: "string \<Rightarrow> writer" where
  "read_only orig = (\<lambda>_. (Some ''read-only file system'', orig))"

lemma read_only_run:
  "runEngine sample_host (read_only orig) False [''run''] sample_flags (Some orig) =
     (Returned (Some (EngineError (SystemDnsError (WriteError ''read-only file system'')))), [DnsListen, DnsShutdown], Some orig)"
  by (simp add: runEngine_def sample_host_def StartEbpf_def new_engine_doh_iff run_config_def sample_flags_def
      SetSystemDNS_def do_write_def read_only_def dns_stop_def Let_def)

lemma sample_run:
  "\<exists>effs. runEngine sample_host write_ok False [''run''] sample_flags (Some orig) = (Returned None, effs, Some (restored orig)) \<and>
     DnsListen \<in> set effs"
proof -
  let ?c = "run_config sample_flags"
  let ?e = "newPlatformEngine sample_net sample_parse_ip ?c"
  have doh: "eng_dohEnabled ?e"
    by (simp add: new_engine_doh_iff run_config_def sample_flags_def)
  obtain c where c: "eng_mgr ?e = NewManager c"
    by (simp add: newPlatformEngine_def Let_def)
  obtain meffs m k where st: "StartManager all_accepted (eng_mgr ?e) (eng_maps ?e) = (None, meffs, m, k)"
    unfolding c using sample_start by blast
  have set: "SetSystemDNS write_ok (Some orig) = (None, Some (set_text orig))"
    by (simp add: SetSystemDNS_def do_write_def write_ok_def)
  obtain ms m2 where sm: "StopManager m = (ms, m2)" by fastforce
  show ?thesis
    using doh st sm
    by (simp add: runEngine_def sample_host_def StartEbpf_def set start_mgr_def StopEbpf_def restore_after_set Let_def)
qed

theorem gecit_run_restores_witness:
  "\<exists>effs effs' err. runEngine sample_host write_ok False [''run''] sample_flags (Some ''nameserver 9.9.9.9'') =
      (Returned None, effs, Some (restored ''nameserver 9.9.9.9'')) \<and> DnsListen \<in> set effs \<and> eng_track effs {} = Some {} \<and>
     runEngine sample_host (read_only ''nameserver 9.9.9.9'') False [''run''] sample_flags (Some ''nameserver 9.9.9.9'') =
      (Returned (Some err), effs', Some ''nameserver 9.9.9.9'') \<and> DnsListen \<in> set effs' \<and> eng_track effs' {} = Some {}"
proof -
  obtain effs where r: "runEngine sample_host write_ok False [''run''] sample_flags (Some ''nameserver 9.9.9.9'') =
      (Returned None, effs, Some (restored ''nameserver 9.9.9.9''))" "DnsListen \<in> set effs"
    using sample_run by blast
  from gecit_run_restores [OF r(1)] gecit_run_restores [OF read_only_run, of "''nameserver 9.9.9.9''"] r show ?thesis
    using read_only_run [of "''nameserver 9.9.9.9''"] by simp
qed

text \<open>The address of an upstream's host, or one that \<open>net.LookupIP\<close> gives for it.\<close>

definition host_address :: "net_env \<Rightarrow> (string \<Rightarrow> ip option) \<Rightarrow> string \<Rightarrow> ip \<Rightarrow> bool" where
  "host_address net parse_ip host a \<longleftrightarrow>
     (case parse_ip host of
        Some ip \<Rightarrow> a = ip
      | None \<Rightarrow> (case LookupIP net host of None \<Rightarrow> False | Some resolved \<Rightarrow> a \<in> set resolved))"

lemma upstream_ips_host:
  assumes "u \<in> set us" and "url_Parse net (case map_of Presets (trim_space u) of Some p \<Rightarrow> p | None \<Rightarrow> trim_space u) = Some parsed"
    and "host_address net parse_ip (Hostname parsed) a" and "to4 a \<noteq> []"
  shows "a \<in> set (upstream_ips net parse_ip us)"
  using assms
  by (induction us) (auto simp: Let_def host_address_def split: option.splits)

lemma start_mgr_success:
  assumes "start_mgr env restore_w e effs conf = (None, effs', e', conf')"
  shows "\<exists>meffs. StartManager env (eng_mgr e) (eng_maps e) = (None, meffs, eng_mgr e', eng_maps e')"
proof -
  obtain merr meffs m k where st: "StartManager env (eng_mgr e) (eng_maps e) = (merr, meffs, m, k)"
    by (rule prod_cases4)
  with assms have "merr = None" "eng_mgr e' = m" "eng_maps e' = k"
    by (auto simp: start_mgr_def Let_def split: option.splits if_splits)
  with st show ?thesis by simp
qed

lemma StartEbpf_success:
  assumes "StartEbpf dns_result env set_w restore_w e conf = (None, effs, e', conf')"
  shows "\<exists>meffs. StartManager env (eng_mgr e) (eng_maps e) = (None, meffs, eng_mgr e', eng_maps e')"
proof -
  have "\<exists>d effs0 conf0. start_mgr env restore_w (e\<lparr>eng_dns_server := d\<rparr>) effs0 conf0 = (None, effs, e', conf')"
  proof (cases "eng_dohEnabled e")
    case True
    with assms show ?thesis
      by (auto simp: StartEbpf_def Let_def split: option.splits prod.splits)
  next
    case False
    then have "start_mgr env restore_w (e\<lparr>eng_dns_server := eng_dns_server e\<rparr>) [] conf = (None, effs, e', conf')"
      using assms by (simp add: StartEbpf_def)
    then show ?thesis by blast
  qed
  then show ?thesis
    using start_mgr_success by fastforce
qed

text \<open>
  C26. DoH traffic is left alone: once the Linux engine has started, a connection to an IPv4 address of
  the host of any configured upstream, whether it is that address literally (as those of the presets
  cloudflare, google and quad9) or one of those \<open>net.LookupIP\<close> gave for its name when the engine was
  made, is not treated by the kernel program, whatever its port.
\<close>

theorem doh_upstream_never_treated:
  assumes "StartEbpf dns_result env set_w restore_w (newPlatformEngine net parse_ip c) conf = (None, effs, e, conf')"
    and "u \<in> set (split_on CHR '','' (if ecDoHUpstream c = [] then ''cloudflare'' else ecDoHUpstream c))"
    and "url_Parse net (case map_of Presets (trim_space u) of Some p \<Rightarrow> p | None \<Rightarrow> trim_space u) = Some parsed"
    and "host_address net parse_ip (Hostname parsed) a" and "to4 a = uint32ToIP (RemoteIp4 ctx)"
    and "md_Op ctx = ActiveEstablishedCb h"
  shows "GecitSockops h ctx (eng_maps e) = ([], eng_maps e)"
proof -
  let ?e = "newPlatformEngine net parse_ip c"
  obtain meffs where st: "StartManager env (eng_mgr ?e) (eng_maps ?e) = (None, meffs, eng_mgr e, eng_maps e)"
    using StartEbpf_success [OF assms(1)] by blast
  have "to4 a \<noteq> []"
    using assms(5) by (simp add: le32_def)
  then have "a \<in> set (dohUpstreamIPs net parse_ip (if ecDoHUpstream c = [] then ''cloudflare'' else ecDoHUpstream c))"
    unfolding dohUpstreamIPs_def by (intro upstream_ips_host [where u = u]) (use assms(2-4) in simp_all)
  then have "a \<in> set (eExcludeIPs (mgr_cfg (eng_mgr ?e)))"
    by (simp add: newPlatformEngine_def NewManager_def Let_def)
  then have "ExcludeIps (eng_maps e) (RemoteIp4 ctx) = Some 1"
    unfolding StartManager_success(6) [OF st] using assms(5) by auto
  then show ?thesis
    using GecitSockops_established [OF StartManager_success(4) [OF st] _ assms(6)]
    by (simp add: kernel_config_def handleEstablished_def)
qed

lemma start_mgr_accepted:
  "eng_mgr e = NewManager c \<Longrightarrow> \<exists>effs' e' conf'. start_mgr all_accepted w e effs conf = (None, effs', e', conf')"
  using sample_start [of c "eng_maps e"] by (auto simp: start_mgr_def Let_def)

text \<open>A preset and an upstream by name, which resolves to two addresses.\<close>

definition named_net :: net_env where
  "named_net = sample_net\<lparr>LookupIP := (\<lambda>h. if h = ''doh.com'' then Some [[9, 9, 9, 9], replicate 16 1] else None)\<rparr>"

definition named_config :: EngineConfig where
  "named_config = DefaultEngineConfig\<lparr>ecDoHUpstream := ''cloudflare,https://doh.com/dns-query''\<rparr>"

lemma named_start:
  "\<exists>effs e conf. StartEbpf None all_accepted write_ok write_ok (newPlatformEngine named_net sample_parse_ip named_config)
     (Some ''nameserver 9.9.9.9'') = (None, effs, e, conf)"
proof -
  let ?e = "newPlatformEngine named_net sample_parse_ip named_config"
  have set: "SetSystemDNS write_ok (Some ''nameserver 9.9.9.9'') = (None, Some (set_text ''nameserver 9.9.9.9''))"
    by (simp add: SetSystemDNS_def do_write_def write_ok_def)
  have "\<exists>c. eng_mgr (?e\<lparr>eng_dns_server := True\<rparr>) = NewManager c"
    by (auto simp: newPlatformEngine_def Let_def)
  then obtain effs e conf where "start_mgr all_accepted write_ok (?e\<lparr>eng_dns_server := True\<rparr>) [DnsListen]
      (Some (set_text ''nameserver 9.9.9.9'')) = (None, effs, e, conf)"
    using start_mgr_accepted by blast
  moreover have "eng_dohEnabled ?e"
    by (simp add: new_engine_doh_iff named_config_def DefaultEngineConfig_def)
  ultimately show ?thesis
    by (simp add: StartEbpf_def set Let_def)
qed

theorem doh_upstream_never_treated_witness:
  "\<exists>effs e conf. StartEbpf None all_accepted write_ok write_ok
     (newPlatformEngine named_net sample_parse_ip named_config) (Some ''nameserver 9.9.9.9'') = (None, effs, e, conf) \<and>
     GecitSockops sample_uapi (sample_ctx\<lparr>RemoteIp4 := 0x01010101\<rparr>) (eng_maps e) = ([], eng_maps e) \<and>
     GecitSockops sample_uapi (sample_ctx\<lparr>RemoteIp4 := 0x09090909\<rparr>) (eng_maps e) = ([], eng_maps e)"
proof -
  obtain effs e conf where s: "StartEbpf None all_accepted write_ok write_ok
      (newPlatformEngine named_net sample_parse_ip named_config) (Some ''nameserver 9.9.9.9'') = (None, effs, e, conf)"
    using named_start by blast
  have t: "trim_space ''cloudflare'' = ''cloudflare''" "trim_space ''https://doh.com/dns-query'' = ''https://doh.com/dns-query''"
    by (intro trim_space_id trimmed_visible; simp add: visible_def)+
  have preset: "map_of Presets (trim_space ''cloudflare'') = Some ''https://1.1.1.1/dns-query''"
    "map_of Presets (trim_space ''https://doh.com/dns-query'') = None"
    unfolding t by (simp_all add: Presets_def)
  note preset = preset [unfolded t]
  have url: "url_Parse named_net ''https://1.1.1.1/dns-query'' =
      Some \<lparr>Hostname = ''1.1.1.1'', Port = [], with_host = (\<lambda>h. ''https://'' @ h)\<rparr>"
    "url_Parse named_net ''https://doh.com/dns-query'' =
      Some \<lparr>Hostname = ''doh.com'', Port = [], with_host = (\<lambda>h. ''https://'' @ h)\<rparr>"
    by (simp_all add: named_net_def sample_net_def)
  have addr: "host_address named_net sample_parse_ip ''1.1.1.1'' (replicate 10 0 @ [0xFF, 0xFF, 1, 1, 1, 1])"
    "host_address named_net sample_parse_ip ''doh.com'' [9, 9, 9, 9]"
    by (simp_all add: host_address_def sample_parse_ip_def named_net_def)
  have to4: "to4 (replicate 10 0 @ [0xFF, 0xFF, 1, 1, 1, 1]) = uint32ToIP (RemoteIp4 (sample_ctx\<lparr>RemoteIp4 := 0x01010101\<rparr>))"
    "to4 [9, 9, 9, 9] = uint32ToIP (RemoteIp4 (sample_ctx\<lparr>RemoteIp4 := 0x09090909\<rparr>))"
    by code_simp+
  have up: "split_on CHR '','' (if ecDoHUpstream named_config = [] then ''cloudflare'' else ecDoHUpstream named_config)
      = [''cloudflare'', ''https://doh.com/dns-query'']"
    by (simp add: named_config_def)
  have op: "md_Op (sample_ctx\<lparr>RemoteIp4 := n\<rparr>) = ActiveEstablishedCb sample_uapi" for n
    by (simp add: sample_ctx_def sample_uapi_def)
  have in_up: "''cloudflare'' \<in> set (split_on CHR '','' (if ecDoHUpstream named_config = [] then ''cloudflare'' else ecDoHUpstream named_config))"
    "''https://doh.com/dns-query'' \<in> set (split_on CHR '','' (if ecDoHUpstream named_config = [] then ''cloudflare'' else ecDoHUpstream named_config))"
    unfolding up by simp_all
  have parsed: "url_Parse named_net (case map_of Presets (trim_space ''cloudflare'') of Some p \<Rightarrow> p | None \<Rightarrow> trim_space ''cloudflare'') =
      Some \<lparr>Hostname = ''1.1.1.1'', Port = [], with_host = (\<lambda>h. ''https://'' @ h)\<rparr>"
    "url_Parse named_net (case map_of Presets (trim_space ''https://doh.com/dns-query'') of Some p \<Rightarrow> p | None \<Rightarrow> trim_space ''https://doh.com/dns-query'') =
      Some \<lparr>Hostname = ''doh.com'', Port = [], with_host = (\<lambda>h. ''https://'' @ h)\<rparr>"
    by (simp_all only: t preset option.case url)
  have "GecitSockops sample_uapi (sample_ctx\<lparr>RemoteIp4 := 0x01010101\<rparr>) (eng_maps e) = ([], eng_maps e)"
    by (rule doh_upstream_never_treated [OF s in_up(1) parsed(1) _ to4(1) op]) (use addr(1) in simp)
  moreover have "GecitSockops sample_uapi (sample_ctx\<lparr>RemoteIp4 := 0x09090909\<rparr>) (eng_maps e) = ([], eng_maps e)"
    by (rule doh_upstream_never_treated [OF s in_up(2) parsed(2) _ to4(2) op]) (use addr(2) in simp)
  ultimately show ?thesis using s by blast
qed

text \<open>The conversions of the flags.\<close>

lemma uint_of_int_u16: "uint (of_int n :: u16) = n mod 65536"
  by transfer (simp add: take_bit_eq_mod)

text \<open>
  The ports of the configuration are the ports of the command line modulo 65536: the conversion of
  \<open>run\<close> does not reject a port outside the 16-bit range, it wraps it.
\<close>

theorem run_ports_wrap:
  "map uint (ecPorts (run_config v)) = map (\<lambda>n. n mod 65536) (v_ports v)"
  by (simp add: run_config_def toUint16Slice_def uint_of_int_u16)

lemma childArgs_filter: "childArgs args = filter (\<lambda>a. a \<noteq> ''--detach'' \<and> a \<noteq> ''-d'') args"
  by (induction args) simp_all

text \<open>
  The detached child is started with every spelling of the flag that the two literals do not cover, so
  it detaches in turn.
\<close>

lemma child_detaches_again: "childArgs [''run'', ''--detach=true''] = [''run'', ''--detach=true'']"
  by simp

end
