(* ===== verification/TunManager.thy ===== *)
theory TunManager
  imports NetIfaces Capture Lifecycle
begin

text \<open>
  The TUN engine's lifecycle (pkg/tun/manager.go): \<open>NewManager\<close>, \<open>Start\<close> with its monitors, device and
  stack and every error path, \<open>Stop\<close>, and the interface that dials are bound to. Calls into sing-tun,
  pcap and the system are effects with their results as arguments; a resource is opened by the effect
  of its creation (for a monitor: its start). What is proved: dials never leave through the TUN device,
  and which resources the manager leaves open: the sequence tracker after every \<open>Stop\<close>, and the
  monitors, the stack and the tracker after failed starts.
\<close>

subsection \<open>State\<close>

record TunConfig =
  tPorts :: "u16 list"
  tFakeTTL :: int
  tInterface :: string

text \<open>The pointers of the Go struct as flags (not nil); \<open>tm_bind\<close> is the interface of \<open>bindControl\<close>.\<close>

record TunManager =
  tm_cfg :: TunConfig
  tm_targetPorts :: ports
  tm_device :: bool
  tm_stack :: bool
  tm_rawSock :: bool
  tm_cancel :: bool
  tm_bind :: "string option"
  tm_netMonitor :: bool
  tm_ifaceMonitor :: bool

definition NewTunManager :: "TunConfig \<Rightarrow> TunManager" where
  "NewTunManager c =
     (let c = (if tFakeTTL c = 0 then c\<lparr>tFakeTTL := 8\<rparr> else c);
          c = (if length (tPorts c) = 0 then c\<lparr>tPorts := [443]\<rparr> else c)
      in \<lparr>tm_cfg = c, tm_targetPorts = port_map (tPorts c), tm_device = False, tm_stack = False, tm_rawSock = False,
          tm_cancel = False, tm_bind = None, tm_netMonitor = False, tm_ifaceMonitor = False\<rparr>)"

subsection \<open>Effects\<close>

datatype tm_effect =
    OpenRawSock string
  | StartTracker string
  | StartNetMonitor
  | StartIfaceMonitor
  | NewDevice string
  | NewStack
  | StartDevice
  | StartStack
  | CloseRawSock
  | CloseNetMonitor
  | CloseIfaceMonitor
  | CloseDevice
  | CloseStack
  | CancelContext
  | ForgetTracker

datatype tm_error =
    TmRawSocket string
  | TmNetMonitor string
  | TmIfaceMonitor string
  | TmStartNetMonitor string
  | TmStartIfaceMonitor string
  | TmCreateDevice string
  | TmCreateStack string
  | TmStartDevice string
  | TmStartStack string

text \<open>The results of the calls of one \<open>Start\<close>.\<close>

record tm_env =
  tm_ifaces :: "iface list"
  r_rawSock :: "string err"
  r_tracker :: "string err"
  r_newNetMon :: "string err"
  r_newIfMon :: "string err"
  r_startNetMon :: "string err"
  r_startIfMon :: "string err"
  r_device :: "string err"
  r_stack :: "string err"
  r_startDevice :: "string err"
  r_startStack :: "string err"

subsection \<open>Start and Stop\<close>

text \<open>\<open>startSeqTracker\<close>: its error is only logged.\<close>

definition startSeqTracker :: "tm_env \<Rightarrow> string \<Rightarrow> tm_effect list" where
  "startSeqTracker env physIface =
     (if physIface = [] then []
      else (case r_tracker env of Some err \<Rightarrow> [] | None \<Rightarrow> [StartTracker physIface]))"

definition initNetworking :: "tm_env \<Rightarrow> string \<Rightarrow> TunManager \<Rightarrow> tm_error err \<times> tm_effect list \<times> TunManager" where
  "initNetworking env physIface m =
     (let m = m\<lparr>tm_bind := Some physIface\<rparr> in
      (case r_newNetMon env of Some err \<Rightarrow> (Some (TmNetMonitor err), [], m\<lparr>tm_netMonitor := False\<rparr>) | None \<Rightarrow>
      (let m = m\<lparr>tm_netMonitor := True\<rparr> in
      (case r_newIfMon env of Some err \<Rightarrow> (Some (TmIfaceMonitor err), [], m\<lparr>tm_ifaceMonitor := False\<rparr>) | None \<Rightarrow>
      (let m = m\<lparr>tm_ifaceMonitor := True\<rparr> in
      (case r_startNetMon env of Some err \<Rightarrow> (Some (TmStartNetMonitor err), [], m) | None \<Rightarrow>
      (case r_startIfMon env of
         Some err \<Rightarrow> (Some (TmStartIfaceMonitor err), [StartNetMonitor, CloseNetMonitor], m)
       | None \<Rightarrow> (None, [StartNetMonitor, StartIfaceMonitor], m))))))))"

definition tun_name :: string where
  "tun_name = ''utun85''"

text \<open>The options of the device: its name, address with prefix length, MTU, whether it takes the routes, its resolver.\<close>

record tun_options =
  opt_Name :: string
  opt_Inet4Address :: "bytes \<times> nat"
  opt_MTU :: nat
  opt_AutoRoute :: bool
  opt_DNSServers :: "bytes list"

definition tunOptions :: tun_options where
  "tunOptions = \<lparr>opt_Name = tun_name, opt_Inet4Address = ([10, 0, 85, 1], 30), opt_MTU = 1420, opt_AutoRoute = True,
     opt_DNSServers = [[127, 0, 0, 1]]\<rparr>"

text \<open>The address of the device is the one the searches for an interface skip (theory NetIfaces).\<close>

lemma tun_address_unusable: "\<not> usable (fst (opt_Inet4Address tunOptions))"
  by (simp add: tunOptions_def usable_iff to4_def)

definition start_device :: "tm_env \<Rightarrow> TunManager \<Rightarrow> tm_effect list \<Rightarrow> tm_error err \<times> tm_effect list \<times> TunManager" where
  "start_device env m effs =
     (case r_device env of Some err \<Rightarrow> (Some (TmCreateDevice err), effs @ [CloseRawSock], m) | None \<Rightarrow>
     (let m = m\<lparr>tm_device := True\<rparr>; effs = effs @ [NewDevice tun_name] in
     (case r_stack env of Some err \<Rightarrow> (Some (TmCreateStack err), effs @ [CloseDevice, CloseRawSock], m) | None \<Rightarrow>
     (let m = m\<lparr>tm_stack := True\<rparr>; effs = effs @ [NewStack] in
     (case r_startDevice env of
        Some err \<Rightarrow> (Some (TmStartDevice err), effs @ [CloseStack, CloseDevice, CloseRawSock], m)
      | None \<Rightarrow>
     (case r_startStack env of
        Some err \<Rightarrow> (Some (TmStartStack err), effs @ [StartDevice, CloseDevice, CloseRawSock], m)
      | None \<Rightarrow> (None, effs @ [StartDevice, StartStack], m)))))))"

definition StartTun :: "tm_env \<Rightarrow> TunManager \<Rightarrow> tm_error err \<times> tm_effect list \<times> TunManager" where
  "StartTun env m =
     (let m = m\<lparr>tm_cancel := True\<rparr>;
          physIface = (if tInterface (tm_cfg m) = [] then detectPhysicalInterface (tm_ifaces env) else tInterface (tm_cfg m)) in
      (case r_rawSock env of Some err \<Rightarrow> (Some (TmRawSocket err), [], m) | None \<Rightarrow>
      (let m = m\<lparr>tm_rawSock := True\<rparr>;
           effs = [OpenRawSock physIface] @ startSeqTracker env physIface;
           (err, effs', m) = initNetworking env physIface m;
           effs = effs @ effs' in
       (case err of Some e \<Rightarrow> (Some e, effs @ [CloseRawSock], m) | None \<Rightarrow> start_device env m effs))))"

text \<open>\<open>SetSeqTracker(nil)\<close> forgets the tracker; it does not stop its capture.\<close>

definition StopTun :: "TunManager \<Rightarrow> tm_effect list \<times> TunManager" where
  "StopTun m =
     ((if tm_cancel m then [CancelContext] else []) @ (if tm_stack m then [CloseStack] else []) @
      (if tm_device m then [CloseDevice] else []) @ (if tm_rawSock m then [CloseRawSock] else []) @
      (if tm_ifaceMonitor m then [CloseIfaceMonitor] else []) @
      (if tm_netMonitor m then [CloseNetMonitor] else []) @ [ForgetTracker], m)"

subsection \<open>Dialling\<close>

text \<open>
  The interface a dial is bound to: \<open>dialServer\<close> uses \<open>bindControl\<close> (no binding when it is nil),
  \<open>DialContext\<close> builds one when it is called before \<open>Start\<close>.
\<close>

definition dialServer_iface :: "TunManager \<Rightarrow> string option" where
  "dialServer_iface m = tm_bind m"

definition DialContext_iface :: "iface list \<Rightarrow> TunManager \<Rightarrow> string" where
  "DialContext_iface ifaces m =
     (case tm_bind m of
        Some i \<Rightarrow> i
      | None \<Rightarrow> if tInterface (tm_cfg m) = [] then detectPhysicalInterface ifaces else tInterface (tm_cfg m))"

subsection \<open>Resources\<close>

datatype tm_resource = TmSocket | TmTracker | TmNet | TmIf | TmDev | TmStk

fun tm_opens :: "tm_effect \<Rightarrow> tm_resource option" where
  "tm_opens (OpenRawSock i) = Some TmSocket"
| "tm_opens (StartTracker i) = Some TmTracker"
| "tm_opens StartNetMonitor = Some TmNet"
| "tm_opens StartIfaceMonitor = Some TmIf"
| "tm_opens (NewDevice n) = Some TmDev"
| "tm_opens NewStack = Some TmStk"
| "tm_opens _ = None"

fun tm_closes :: "tm_effect \<Rightarrow> tm_resource option" where
  "tm_closes CloseRawSock = Some TmSocket"
| "tm_closes CloseNetMonitor = Some TmNet"
| "tm_closes CloseIfaceMonitor = Some TmIf"
| "tm_closes CloseDevice = Some TmDev"
| "tm_closes CloseStack = Some TmStk"
| "tm_closes _ = None"

abbreviation tm_track :: "tm_effect list \<Rightarrow> tm_resource set \<Rightarrow> tm_resource set option" where
  "tm_track \<equiv> track tm_opens tm_closes"

text \<open>What each outcome of \<open>Start\<close> leaves open, besides the tracker.\<close>

fun tm_left :: "tm_error err \<Rightarrow> tm_resource set" where
  "tm_left None = {TmSocket, TmNet, TmIf, TmDev, TmStk}"
| "tm_left (Some (TmCreateDevice _)) = {TmNet, TmIf}"
| "tm_left (Some (TmCreateStack _)) = {TmNet, TmIf}"
| "tm_left (Some (TmStartDevice _)) = {TmNet, TmIf}"
| "tm_left (Some (TmStartStack _)) = {TmNet, TmIf, TmStk}"
| "tm_left (Some _) = {}"

lemma initNetworking_track:
  assumes "initNetworking env i m = (err, effs, m')" and "{TmNet, TmIf} \<inter> A = {}"
  shows "tm_track effs A = Some (if err = None then A \<union> {TmNet, TmIf} else A)"
    and "err \<noteq> None \<Longrightarrow> tm_left err = {}"
    and "err = None \<Longrightarrow> tm_netMonitor m' \<and> tm_ifaceMonitor m'" and "tm_bind m' = Some i"
    and "tm_rawSock m' = tm_rawSock m" and "tm_cancel m' = tm_cancel m"
  using assms by (auto simp: initNetworking_def Let_def split: option.splits)

lemma start_device_track:
  assumes "start_device env m effs = (err, effs', m')" and "tm_track effs {} = Some ({TmSocket, TmNet, TmIf} \<union> T)"
    and "T \<subseteq> {TmTracker}"
  shows "tm_track effs' {} = Some (tm_left err \<union> T)"
    and "err = None \<Longrightarrow> tm_device m' \<and> tm_stack m'"
    and "tm_netMonitor m' = tm_netMonitor m \<and> tm_ifaceMonitor m' = tm_ifaceMonitor m \<and> tm_rawSock m' = tm_rawSock m \<and> tm_bind m' = tm_bind m"
proof -
  have "T = {} \<or> T = {TmTracker}"
    using assms(3) by blast
  then show "tm_track effs' {} = Some (tm_left err \<union> T)"
    using assms(1,2) by (auto simp: start_device_def Let_def track_append_Some split: option.splits)
  show "err = None \<Longrightarrow> tm_device m' \<and> tm_stack m'"
    "tm_netMonitor m' = tm_netMonitor m \<and> tm_ifaceMonitor m' = tm_ifaceMonitor m \<and> tm_rawSock m' = tm_rawSock m \<and> tm_bind m' = tm_bind m"
    using assms(1) by (auto simp: start_device_def Let_def split: option.splits)
qed

definition phys_iface :: "tm_env \<Rightarrow> TunManager \<Rightarrow> string" where
  "phys_iface env m =
     (if tInterface (tm_cfg m) = [] then detectPhysicalInterface (tm_ifaces env) else tInterface (tm_cfg m))"

lemma phys_iface_update [simp]: "phys_iface env (m\<lparr>tm_cancel := b\<rparr>) = phys_iface env m"
  by (simp add: phys_iface_def)

definition tracked :: "tm_env \<Rightarrow> TunManager \<Rightarrow> tm_resource set" where
  "tracked env m = (if r_rawSock env = None \<and> phys_iface env m \<noteq> [] \<and> r_tracker env = None then {TmTracker} else {})"

lemma StartTun_track:
  assumes "StartTun env m = (err, effs, m')"
  shows "tm_track effs {} = Some (tm_left err \<union> tracked env m)"
    and "err = None \<Longrightarrow> tm_device m' \<and> tm_stack m' \<and> tm_rawSock m' \<and> tm_netMonitor m' \<and> tm_ifaceMonitor m'"
    and "r_rawSock env = None \<Longrightarrow> tm_bind m' = Some (phys_iface env m)"
    and "r_rawSock env \<noteq> None \<Longrightarrow> tm_bind m' = tm_bind m"
proof -
  let ?i = "phys_iface env m" and ?m = "m\<lparr>tm_cancel := True, tm_rawSock := True\<rparr>"
  obtain ierr ieffs im where i: "initNetworking env ?i ?m = (ierr, ieffs, im)" by (rule prod_cases3)
  let ?pre = "[OpenRawSock ?i] @ startSeqTracker env ?i"
  have "tm_track effs {} = Some (tm_left err \<union> tracked env m) \<and>
    (err = None \<longrightarrow> tm_device m' \<and> tm_stack m' \<and> tm_rawSock m' \<and> tm_netMonitor m' \<and> tm_ifaceMonitor m') \<and>
    (r_rawSock env = None \<longrightarrow> tm_bind m' = Some ?i) \<and> (r_rawSock env \<noteq> None \<longrightarrow> tm_bind m' = tm_bind m)"
  proof (cases "r_rawSock env")
    case (Some e)
    then show ?thesis
      using assms by (auto simp: StartTun_def tracked_def)
  next
    case None
    have pre: "tm_track ?pre {} = Some ({TmSocket} \<union> tracked env m)" and disj: "{TmNet, TmIf} \<inter> ({TmSocket} \<union> tracked env m) = {}"
      by (auto simp: startSeqTracker_def tracked_def None split: option.splits)
    note it = initNetworking_track [OF i disj]
    have both: "tm_track (?pre @ ieffs) {} = Some (if ierr = None then {TmSocket} \<union> tracked env m \<union> {TmNet, TmIf} else {TmSocket} \<union> tracked env m)"
      using it(1) by (simp only: track_append_Some [OF pre])
    show ?thesis
    proof (cases ierr)
      case (Some e)
      have r: "err = ierr" "effs = (?pre @ ieffs) @ [CloseRawSock]" "m' = im"
        using assms None i Some by (auto simp: StartTun_def phys_iface_def [symmetric] Let_def)
      have "tracked env m - {TmSocket} = tracked env m"
        by (auto simp: tracked_def)
      moreover have b: "tm_track (?pre @ ieffs) {} = Some ({TmSocket} \<union> tracked env m)"
        using both Some by simp
      ultimately have "tm_track effs {} = Some (tracked env m)"
        unfolding r track_append_Some [OF b] by (simp add: insert_Diff_if)
      then show ?thesis
        using it(2,4) Some None unfolding r by simp
    next
      case ok: None
      have d: "start_device env im (?pre @ ieffs) = (err, effs, m')"
        using assms None i ok by (simp add: StartTun_def phys_iface_def [symmetric] Let_def)
      have t: "tm_track (?pre @ ieffs) {} = Some ({TmSocket, TmNet, TmIf} \<union> tracked env m)" "tracked env m \<subseteq> {TmTracker}"
        using both ok by (auto simp: tracked_def)
      note dt = start_device_track [OF d t]
      show ?thesis
        using dt it(3-5) ok None by simp
    qed
  qed
  then show "tm_track effs {} = Some (tm_left err \<union> tracked env m)"
    and "err = None \<Longrightarrow> tm_device m' \<and> tm_stack m' \<and> tm_rawSock m' \<and> tm_netMonitor m' \<and> tm_ifaceMonitor m'"
    and "r_rawSock env = None \<Longrightarrow> tm_bind m' = Some ?i"
    and "r_rawSock env \<noteq> None \<Longrightarrow> tm_bind m' = tm_bind m"
    by blast+
qed

lemma StartTun_cfg: "StartTun env m = (err, effs, m') \<Longrightarrow> tm_cfg m' = tm_cfg m"
  by (auto simp: StartTun_def initNetworking_def start_device_def Let_def split: option.splits)

subsection \<open>Properties\<close>

text \<open>
  C27. What stays open: a \<open>Start\<close> that fails after the networking is up leaves both monitors running
  (and the stack, when its own start fails), a failed \<open>Start\<close> leaves the sequence tracker capturing,
  and a successful \<open>Start\<close> followed by \<open>Stop\<close> closes everything but the sequence tracker, whose
  capture is forgotten without being stopped.
\<close>

theorem tun_leaves_open:
  assumes "StartTun env (NewTunManager c) = (err, effs, m)" and "StopTun m = (effs', m')"
    and "r_rawSock env = None" and "tInterface c \<noteq> []" and "r_tracker env = None"
  shows "tm_track effs {} = Some (insert TmTracker (tm_left err)) \<and>
    (err = None \<longrightarrow> tm_track (effs @ effs') {} = Some {TmTracker})"
proof -
  have "tInterface (tm_cfg (NewTunManager c)) = tInterface c"
    by (simp add: NewTunManager_def Let_def)
  then have tr: "tracked env (NewTunManager c) = {TmTracker}"
    using assms(3-5) by (simp add: tracked_def phys_iface_def)
  note st = StartTun_track [OF assms(1)]
  have "tm_track effs' {TmSocket, TmNet, TmIf, TmDev, TmStk, TmTracker} = Some {TmTracker}" if "err = None"
    using st(2) [OF that] assms(2) by (auto simp: StopTun_def)
  then show ?thesis
    using st(1) by (auto simp: tr track_append_Some insert_commute)
qed

definition tm_ok :: tm_env where
  "tm_ok = \<lparr>tm_ifaces = [], r_rawSock = None, r_tracker = None, r_newNetMon = None, r_newIfMon = None,
     r_startNetMon = None, r_startIfMon = None, r_device = None, r_stack = None, r_startDevice = None, r_startStack = None\<rparr>"

definition en0_config :: TunConfig where
  "en0_config = \<lparr>tPorts = [443], tFakeTTL = 8, tInterface = ''en0''\<rparr>"

theorem tun_leaves_open_witness:
  "\<exists>effs m. StartTun (tm_ok\<lparr>r_startStack := Some ''busy''\<rparr>) (NewTunManager en0_config) = (Some (TmStartStack ''busy''), effs, m) \<and>
     tm_track effs {} = Some {TmTracker, TmNet, TmIf, TmStk}"
proof -
  let ?e = "tm_ok\<lparr>r_startStack := Some ''busy''\<rparr>"
  have "\<exists>effs m. StartTun ?e (NewTunManager en0_config) = (Some (TmStartStack ''busy''), effs, m)"
    by (simp add: StartTun_def tm_ok_def en0_config_def NewTunManager_def initNetworking_def start_device_def Let_def)
  then obtain effs m where s: "StartTun ?e (NewTunManager en0_config) = (Some (TmStartStack ''busy''), effs, m)"
    by blast
  from tun_leaves_open [OF s surjective_pairing] s show ?thesis
    by (auto simp: tm_ok_def en0_config_def)
qed

text \<open>
  A physical interface: it is up, is no loopback, is not named like a virtual device and has an IPv4
  address that is neither a loopback address nor the TUN's.
\<close>

definition physical :: "iface \<Rightarrow> bool" where
  "physical f \<longleftrightarrow> if_up f \<and> \<not> if_loopback f \<and> if_name f \<noteq> [] \<and> (\<forall>p \<in> set virtual_prefixes. \<not> prefix p (if_name f)) \<and>
     (\<exists>a. Some a \<in> set (addrs_of f) \<and> to4 a \<noteq> [] \<and> to4 a ! 0 \<noteq> 127 \<and> to4 a \<noteq> [10, 0, 85, 1])"

lemma detectPhysicalInterface_find:
  "detectPhysicalInterface ifaces = (case find physical ifaces of Some f \<Rightarrow> if_name f | None \<Rightarrow> [])"
proof -
  have "(if_up i \<and> \<not> if_loopback i \<and> \<not> (\<exists>p \<in> set virtual_prefixes. prefix p (if_name i)) \<and> if_name i \<noteq> [] \<and>
      (\<exists>a \<in> set (addrs_of i). case a of None \<Rightarrow> False | Some ip \<Rightarrow> usable ip)) = physical i" for i
    by (auto simp: physical_def usable_iff split: option.splits)
  then show ?thesis
    by (auto simp: detectPhysicalInterface_def split: option.split)
qed

lemma find_first: "\<forall>g \<in> set xs. \<not> P g \<Longrightarrow> P f \<Longrightarrow> find P (xs @ f # ys) = Some f"
  by (induction xs) auto

lemma physical_not_tun: "physical f \<Longrightarrow> if_name f \<noteq> tun_name"
  by (auto simp: physical_def virtual_prefixes_def tun_name_def)

text \<open>
  C28. Dials leave through the physical network: connections to servers after a successful \<open>Start\<close>, and DoH
  requests before and after any \<open>Start\<close>, while the interfaces stay the same, are bound to one and the same
  interface. It is the configured one; if none is configured, it is the first physical one of the
  machine, never the TUN device itself; the binding is empty only if there is no physical interface.
\<close>

theorem dials_avoid_tun:
  assumes "StartTun env (NewTunManager c) = (err, effs, m)"
  shows "\<exists>i. DialContext_iface (tm_ifaces env) (NewTunManager c) = i \<and> DialContext_iface (tm_ifaces env) m = i \<and>
    dialServer_iface m \<in> {None, Some i} \<and> (err = None \<longrightarrow> dialServer_iface m = Some i) \<and>
    (if tInterface c \<noteq> [] then i = tInterface c
     else if \<exists>f \<in> set (tm_ifaces env). physical f
     then \<exists>xs f ys. tm_ifaces env = xs @ f # ys \<and> (\<forall>g \<in> set xs. \<not> physical g) \<and> physical f \<and> i = if_name f \<and> i \<noteq> tun_name
     else i = [])"
proof -
  let ?i = "if tInterface c = [] then detectPhysicalInterface (tm_ifaces env) else tInterface c"
  have c: "tInterface (tm_cfg (NewTunManager c)) = tInterface c" "tm_bind (NewTunManager c) = None"
    by (simp_all add: NewTunManager_def Let_def)
  have cm: "tInterface (tm_cfg m) = tInterface c"
    using StartTun_cfg [OF assms] c(1) by simp
  note b = StartTun_track(3,4) [OF assms]
  have bind: "tm_bind m \<in> {None, Some ?i}" "err = None \<Longrightarrow> tm_bind m = Some ?i"
  proof -
    show "tm_bind m \<in> {None, Some ?i}"
      using b c by (cases "r_rawSock env") (simp_all add: phys_iface_def)
    have "err = None \<Longrightarrow> r_rawSock env = None"
      using assms by (cases "r_rawSock env") (auto simp: StartTun_def Let_def)
    then show "err = None \<Longrightarrow> tm_bind m = Some ?i"
      using b c by (simp add: phys_iface_def)
  qed
  then have "DialContext_iface (tm_ifaces env) (NewTunManager c) = ?i" "DialContext_iface (tm_ifaces env) m = ?i"
    "dialServer_iface m \<in> {None, Some ?i}" "err = None \<longrightarrow> dialServer_iface m = Some ?i"
    using c cm by (auto simp: DialContext_iface_def dialServer_iface_def)
  moreover have "\<exists>xs f ys. tm_ifaces env = xs @ f # ys \<and> (\<forall>g \<in> set xs. \<not> physical g) \<and> physical f \<and>
      detectPhysicalInterface (tm_ifaces env) = if_name f \<and> detectPhysicalInterface (tm_ifaces env) \<noteq> tun_name" if ex: "\<exists>f \<in> set (tm_ifaces env). physical f"
  proof -
    obtain xs f ys where f: "tm_ifaces env = xs @ f # ys" "physical f" "\<forall>g \<in> set xs. \<not> physical g"
      using split_list_first_prop [OF ex] by blast
    then have "find physical (tm_ifaces env) = Some f"
      using find_first [of xs physical f ys] by simp
    then show ?thesis
      using f physical_not_tun by (auto simp: detectPhysicalInterface_find)
  qed
  moreover have "detectPhysicalInterface (tm_ifaces env) = []" if "\<not> (\<exists>f \<in> set (tm_ifaces env). physical f)"
    using that by (simp add: detectPhysicalInterface_find find_None_iff [THEN iffD2])
  ultimately show ?thesis
    by (cases "\<exists>f \<in> set (tm_ifaces env). physical f") (intro exI [of _ ?i], simp)+
qed

text \<open>A machine with the TUN device, a Wi-Fi adapter that has no address yet, and one that has.\<close>

definition mac_ifaces :: "iface list" where
  "mac_ifaces =
     [\<lparr>if_name = ''utun85'', if_up = True, if_loopback = False, if_mac = [], if_addrs = Some [Some [10, 0, 85, 1]]\<rparr>,
      \<lparr>if_name = ''en1'', if_up = True, if_loopback = False, if_mac = [], if_addrs = Some []\<rparr>,
      \<lparr>if_name = ''en0'', if_up = True, if_loopback = False, if_mac = [], if_addrs = Some [Some [192, 168, 1, 2]]\<rparr>]"

theorem dials_avoid_tun_witness:
  "\<exists>effs m. StartTun (tm_ok\<lparr>tm_ifaces := mac_ifaces\<rparr>) (NewTunManager (en0_config\<lparr>tInterface := []\<rparr>)) = (None, effs, m) \<and>
     dialServer_iface m = Some ''en0'' \<and> DialContext_iface mac_ifaces m = ''en0''"
proof -
  let ?e = "tm_ok\<lparr>tm_ifaces := mac_ifaces\<rparr>" and ?c = "en0_config\<lparr>tInterface := []\<rparr>"
  have "\<exists>effs m. StartTun ?e (NewTunManager ?c) = (None, effs, m)"
    by (simp add: StartTun_def tm_ok_def en0_config_def NewTunManager_def initNetworking_def start_device_def Let_def)
  then obtain effs m where s: "StartTun ?e (NewTunManager ?c) = (None, effs, m)"
    by blast
  have p: "\<not> physical (mac_ifaces ! 0)" "\<not> physical (mac_ifaces ! 1)" "physical (mac_ifaces ! 2)"
    by (simp_all add: mac_ifaces_def physical_def virtual_prefixes_def addrs_of_def to4_def)
  have split: "i = ''en0''" if "mac_ifaces = xs @ f # ys" "\<forall>g \<in> set xs. \<not> physical g" "physical f" "i = if_name f" for xs f ys i
  proof -
    have "f = mac_ifaces ! length xs" "length xs < 3"
      using that(1) by (auto simp: mac_ifaces_def dest: arg_cong [of _ _ length])
    moreover have "length xs \<noteq> 0" "length xs \<noteq> 1"
      using p(1,2) that(3) calculation(1) by metis+
    ultimately have "f = mac_ifaces ! 2"
      by (metis One_nat_def Suc_1 less_2_cases less_antisym numeral_3_eq_3)
    then show ?thesis using that(4) by (simp add: mac_ifaces_def)
  qed
  have ph: "\<exists>f \<in> set (tm_ifaces ?e). physical f"
    using p(3) by (simp add: mac_ifaces_def)
  from dials_avoid_tun [OF s] ph have "dialServer_iface m = Some ''en0'' \<and> DialContext_iface mac_ifaces m = ''en0''"
    using split by (auto simp: en0_config_def)
  with s show ?thesis by metis
qed

end
