(* ===== verification/PlatformDns.thy ===== *)
theory PlatformDns
  imports NetIfaces ResolvConf
begin

text \<open>
  The system's DNS settings on macOS and Windows (pkg/dns/system_darwin.go, system_windows.go) and the
  command \<open>cleanup\<close> of the three systems (cmd/gecit/app/cleanup_*.go). The commands \<open>networksetup\<close>,
  \<open>netsh\<close>, \<open>route\<close> and \<open>killall\<close> are effects; what they print, and what is left of the backup file after
  writing or removing it, are arguments. What is proved: a set followed by a restore asks for the
  original servers again, on Windows also across a crash; on macOS the recovery after a crash passes the
  name of the service as a server, and the clean-up misreads a backup of several servers.
\<close>

subsection \<open>macOS\<close>

text \<open>What the commands print: \<open>None\<close> when the command fails. \<open>mac_getdns\<close> is asked after a recovery.\<close>

record mac_host =
  mac_route :: "string option"
  mac_ports :: "string option"
  mac_getdns :: "string \<Rightarrow> string option"
  mac_setdns :: "string err"

record mac_state =
  savedDNS :: string
  savedService :: string
  mac_crumb :: "string option"

datatype mac_cmd = SetServers string "string list" | KillMDNS | HupMDNS | Sleep200

text \<open>\<open>free\<close> tells whether port 53 could be bound in a round.\<close>

fun stop_mdns :: "(nat \<Rightarrow> bool) \<Rightarrow> nat \<Rightarrow> nat \<Rightarrow> mac_cmd list" where
  "stop_mdns free i 0 = []"
| "stop_mdns free i (Suc n) = [KillMDNS, Sleep200] @ (if free i then [] else stop_mdns free (i + 1) n)"

definition StopMDNSResponder :: "(nat \<Rightarrow> bool) \<Rightarrow> mac_cmd list" where
  "StopMDNSResponder free = stop_mdns free 0 10"

definition ResumeMDNSResponder :: "mac_cmd list" where
  "ResumeMDNSResponder = [HupMDNS]"

text \<open>The loop over the lines: the line before the first match (the match is not the first line).\<close>

fun service_before :: "string \<Rightarrow> string list \<Rightarrow> string" where
  "service_before iface (prev # line # ls) =
     (if contains line (''Device: '' @ iface) then trim_prefix ''Hardware Port: '' (trim_space prev)
      else service_before iface (line # ls))"
| "service_before iface _ = []"

definition NetworkServiceForInterface :: "mac_host \<Rightarrow> string \<Rightarrow> string" where
  "NetworkServiceForInterface h iface =
     (if iface = [] then []
      else (case mac_ports h of None \<Rightarrow> [] | Some out \<Rightarrow> service_before iface (split_on nl out)))"

fun route_interface :: "string list \<Rightarrow> string" where
  "route_interface [] = []"
| "route_interface (line # ls) =
     (let line = trim_space line in
      if has_prefix line ''interface:'' then trim_space (trim_prefix ''interface:'' line) else route_interface ls)"

definition DetectActiveService :: "mac_host \<Rightarrow> string" where
  "DetectActiveService h =
     (case mac_route h of
        None \<Rightarrow> ''Wi-Fi''
      | Some out \<Rightarrow>
          let svc = NetworkServiceForInterface h (route_interface (split_on nl out))
          in if svc \<noteq> [] then svc else ''Wi-Fi'')"

definition arent_any :: string where
  "arent_any = ''aren'' @ [CHR 0x27] @ ''t any''"

definition named_service :: "string list \<Rightarrow> string \<Rightarrow> string" where
  "named_service networkService svc =
     (if length networkService > 0 \<and> networkService ! 0 \<noteq> [] then networkService ! 0 else svc)"

text \<open>\<open>written\<close>: what the backup file holds after \<open>os.WriteFile\<close> with that content.\<close>

definition SetSystemDNS_darwin ::
  "mac_host \<Rightarrow> (string \<Rightarrow> string option) \<Rightarrow> string list \<Rightarrow> mac_state \<Rightarrow> string err \<times> mac_cmd list \<times> mac_state" where
  "SetSystemDNS_darwin h written networkService s =
     (let svc = named_service networkService (DetectActiveService h);
          s = s\<lparr>savedService := svc\<rparr>;
          recovery =
            (case mac_crumb s of
               None \<Rightarrow> []
             | Some data \<Rightarrow>
                 let prev = trim_space data in
                 if prev \<noteq> [] \<and> prev \<noteq> ''127.0.0.1'' then [SetServers svc (Fields prev)] else []);
          s = (case mac_getdns h svc of
               None \<Rightarrow> s
             | Some out \<Rightarrow>
                 let s = s\<lparr>savedDNS := trim_space out\<rparr>;
                     content = (if contains (savedDNS s) arent_any then ''empty'' else savedDNS s)
                 in s\<lparr>mac_crumb := written (content @ [nl] @ svc @ [nl])\<rparr>)
      in (mac_setdns h, recovery @ [SetServers svc [''127.0.0.1'']], s))"

text \<open>\<open>kept\<close>: what is left of the backup file after \<open>os.Remove\<close>.\<close>

definition RestoreSystemDNS_darwin ::
  "string option \<Rightarrow> string list \<Rightarrow> mac_state \<Rightarrow> string err \<times> mac_cmd list \<times> mac_state" where
  "RestoreSystemDNS_darwin kept networkService s =
     (let svc = (if savedService s = [] then ''Wi-Fi'' else savedService s);
          svc = named_service networkService svc;
          args = (if savedDNS s \<noteq> [] \<and> \<not> contains (savedDNS s) arent_any then Fields (savedDNS s) else [''empty''])
      in (None, [SetServers svc args] @ ResumeMDNSResponder, s\<lparr>mac_crumb := kept\<rparr>))"

text \<open>The clean-up: whether it cleaned anything, and its commands.\<close>

definition crumb_service :: "string \<Rightarrow> string list \<Rightarrow> string" where
  "crumb_service dflt parts =
     (if length parts \<ge> 2 \<and> trim_space (parts ! 1) \<noteq> [] then trim_space (parts ! 1) else dflt)"

definition platformCleanup_darwin :: "(string \<Rightarrow> string option) \<Rightarrow> string option \<Rightarrow> bool \<times> mac_cmd list" where
  "platformCleanup_darwin getdns crumb =
     (let (cleaned, effs) =
            (case crumb of
               None \<Rightarrow> (False, [])
             | Some data \<Rightarrow>
                 let parts = split_n 3 nl data;
                     svc = crumb_service ''Wi-Fi'' parts;
                     prev = trim_space (parts ! 0)
                 in (True,
                     if prev = [] \<or> prev = ''empty'' \<or> contains prev arent_any
                     then [SetServers svc [''empty'']] else [SetServers svc (Fields prev)]));
          (cleaned, effs) =
            (case getdns ''Wi-Fi'' of
               Some out \<Rightarrow>
                 if trim_space out = ''127.0.0.1'' then (True, effs @ [SetServers ''Wi-Fi'' [''empty'']]) else (cleaned, effs)
             | None \<Rightarrow> (cleaned, effs))
      in (cleaned, if cleaned then effs @ [HupMDNS] else effs))"

subsection \<open>Windows\<close>

record win_host =
  win_interfaces :: "string option"
  win_showdns :: "string \<Rightarrow> string option"
  win_setdns :: "string err"

record win_state =
  savedInterface :: string
  win_crumb :: "string option"

datatype win_cmd = SetDhcp string | SetStatic string string | FlushDns | RouteDelete string

datatype win_error = NetshFailed | NoInterface | SetDnsFailed string

fun connected_interface :: "string list \<Rightarrow> string option" where
  "connected_interface [] = None"
| "connected_interface (line # ls) =
     (let line = trim_space line in
      if contains line ''Connected'' \<and> \<not> contains line ''Loopback'' \<and> length (Fields line) \<ge> 4
      then Some (join_with '' '' (drop 3 (Fields line))) else connected_interface ls)"

definition detectWindowsInterface :: "win_host \<Rightarrow> win_error + string" where
  "detectWindowsInterface h =
     (case win_interfaces h of
        None \<Rightarrow> Inl NetshFailed
      | Some out \<Rightarrow>
          (case connected_interface (split_on nl out) of Some iface \<Rightarrow> Inr iface | None \<Rightarrow> Inl NoInterface))"

definition getCurrentDNS :: "win_host \<Rightarrow> (string \<Rightarrow> ip option) \<Rightarrow> string \<Rightarrow> string" where
  "getCurrentDNS h parse_ip iface =
     (case win_showdns h iface of
        None \<Rightarrow> ''dhcp''
      | Some out \<Rightarrow>
          (case find (\<lambda>p. case parse_ip p of Some a \<Rightarrow> \<not> IsLoopback a | None \<Rightarrow> False)
              (concat (map (\<lambda>line. Fields (trim_space line)) (split_on nl out))) of
             Some p \<Rightarrow> p
           | None \<Rightarrow> ''dhcp''))"

definition SetSystemDNS_windows ::
  "win_host \<Rightarrow> (string \<Rightarrow> ip option) \<Rightarrow> (string \<Rightarrow> string option) \<Rightarrow> win_state \<Rightarrow> win_error err \<times> win_cmd list \<times> win_state" where
  "SetSystemDNS_windows h parse_ip written s =
     (case detectWindowsInterface h of
        Inl err \<Rightarrow> (Some err, [], s)
      | Inr iface \<Rightarrow>
          let s = s\<lparr>savedInterface := iface\<rparr>;
              recovery =
                (case win_crumb s of
                   None \<Rightarrow> []
                 | Some data \<Rightarrow>
                     let parts = split_n 2 nl data in
                     if length parts \<ge> 2 then
                       let prev = trim_space (parts ! 0); prevIface = trim_space (parts ! 1) in
                       if prev \<noteq> [] \<and> prev \<noteq> ''127.0.0.1'' \<and> prevIface \<noteq> []
                       then (if prev = ''dhcp'' then [SetDhcp prevIface] else [SetStatic prevIface prev]) else []
                     else []);
              currentDNS = getCurrentDNS h parse_ip iface;
              s = s\<lparr>win_crumb := written (currentDNS @ [nl] @ iface @ [nl])\<rparr>;
              effs = recovery @ [SetStatic iface ''127.0.0.1''] in
          (case win_setdns h of
             Some err \<Rightarrow> (Some (SetDnsFailed err), effs, s)
           | None \<Rightarrow> (None, effs @ [FlushDns], s)))"

definition restore_cmd :: "string \<Rightarrow> string \<Rightarrow> win_cmd" where
  "restore_cmd iface prev = (if prev = [] \<or> prev = ''dhcp'' then SetDhcp iface else SetStatic iface prev)"

definition RestoreSystemDNS_windows ::
  "win_host \<Rightarrow> string option \<Rightarrow> win_state \<Rightarrow> win_error err \<times> win_cmd list \<times> win_state" where
  "RestoreSystemDNS_windows h kept s =
     (case win_crumb s of
        None \<Rightarrow>
          let iface = savedInterface s;
              iface = (if iface = [] then (case detectWindowsInterface h of Inr i \<Rightarrow> i | Inl _ \<Rightarrow> []) else iface)
          in (None, if iface \<noteq> [] then [SetDhcp iface] else [], s)
      | Some data \<Rightarrow>
          let parts = split_n 2 nl data;
              prev = (if length parts \<ge> 1 then trim_space (parts ! 0) else ''dhcp'');
              iface = crumb_service (savedInterface s) parts
          in (None, [restore_cmd iface prev, FlushDns], s\<lparr>win_crumb := kept\<rparr>))"

definition platformCleanup_windows :: "string option \<Rightarrow> string option \<Rightarrow> bool \<times> win_cmd list" where
  "platformCleanup_windows route crumb =
     (let (cleaned, effs) =
            (case route of
               None \<Rightarrow> (False, [])
             | Some out \<Rightarrow>
                 if contains out ''10.0.85.1''
                 then (True, [RouteDelete ''0.0.0.0 mask 128.0.0.0'', RouteDelete ''128.0.0.0 mask 128.0.0.0'',
                   RouteDelete ''1.1.1.1'', RouteDelete ''8.8.8.8''])
                 else (False, []))
      in (case crumb of
            None \<Rightarrow> (cleaned, effs)
          | Some data \<Rightarrow>
              let parts = split_n 2 nl data;
                  prev = trim_space (parts ! 0);
                  iface = crumb_service ''Ethernet'' parts
              in (True, effs @ [restore_cmd iface prev, FlushDns])))"

subsection \<open>Linux clean-up\<close>

definition platformCleanup_linux :: "writer \<Rightarrow> string option \<Rightarrow> bool \<times> string option" where
  "platformCleanup_linux w conf =
     (if \<not> SystemDNSNeedsRestore conf then (False, conf)
      else let (err, conf) = RestoreSystemDNS w conf in (err = None, conf))"

subsection \<open>Lemmas\<close>

lemma DetectActiveService_named: "DetectActiveService h \<noteq> []"
  by (simp add: DetectActiveService_def Let_def split: option.split)

lemma contains_lines: "\<forall>w \<in> set ws. is_word w \<Longrightarrow> \<not> contains (join_with [nl] ws) arent_any"
proof
  assume ws: "\<forall>w \<in> set ws. is_word w" and "contains (join_with [nl] ws) arent_any"
  then have "CHR 0x20 \<in> set (join_with [nl] ws)"
    by (auto simp: contains_iff arent_any_def dest!: set_mono_sublist)
  moreover have "CHR 0x20 \<notin> set (join_with [nl] ws)"
    using ws by (induction "[nl]" ws rule: join_with.induct) (auto simp: is_word_def visible_def)
  ultimately show False by simp
qed

text \<open>
  A session on macOS in which the service has the name servers \<open>servers\<close>, one per line of the output,
  and no backup file exists.
\<close>

definition mac_ready :: "mac_host \<Rightarrow> string \<Rightarrow> string list \<Rightarrow> mac_state \<Rightarrow> bool" where
  "mac_ready h svc servers s \<longleftrightarrow> DetectActiveService h = svc \<and> mac_crumb s = None \<and>
     mac_getdns h svc = Some (join_with [nl] servers @ [nl]) \<and> servers \<noteq> [] \<and> (\<forall>w \<in> set servers. is_word w)"

definition mac_backup :: "string list \<Rightarrow> string \<Rightarrow> string" where
  "mac_backup servers svc = join_with [nl] servers @ [nl] @ svc @ [nl]"

lemma first_set_darwin:
  assumes "mac_ready h svc servers s"
  shows "SetSystemDNS_darwin h Some [] s = (mac_setdns h, [SetServers svc [''127.0.0.1'']],
    s\<lparr>savedService := svc, savedDNS := join_with [nl] servers, mac_crumb := Some (mac_backup servers svc)\<rparr>)"
proof -
  have "trim_space (join_with [nl] servers @ [nl]) = join_with [nl] servers"
    using assms join_words_trimmed [of servers "[nl]"] by (intro trim_space_nl) (auto simp: mac_ready_def)
  with assms contains_lines [of servers] show ?thesis
    by (simp add: SetSystemDNS_darwin_def named_service_def mac_ready_def mac_backup_def Let_def)
qed

lemma restore_darwin:
  assumes "savedService s = svc" and "svc \<noteq> []" and "savedDNS s = join_with [nl] servers"
    and "servers \<noteq> []" and "\<forall>w \<in> set servers. is_word w"
  shows "RestoreSystemDNS_darwin kept [] s = (None, [SetServers svc servers, HupMDNS], s\<lparr>mac_crumb := kept\<rparr>)"
  using assms contains_lines [of servers] join_words_trimmed [of servers "[nl]"] fields_join_sep [of nl servers]
  by (simp add: RestoreSystemDNS_darwin_def named_service_def ResumeMDNSResponder_def Let_def)

text \<open>After a crash the variables are gone and the file is left.\<close>

definition mac_restart :: "mac_state \<Rightarrow> mac_state" where
  "mac_restart s = \<lparr>savedDNS = [], savedService = [], mac_crumb = mac_crumb s\<rparr>"

lemma backup_trimmed:
  assumes "servers \<noteq> []" and "\<forall>w \<in> set servers. is_word w" and "ws \<noteq> []" and "\<forall>w \<in> set ws. is_word w"
    and "svc = join_with '' '' ws"
  shows "trim_space (mac_backup servers svc) = join_with [nl] servers @ [nl] @ svc"
    and "Fields (join_with [nl] servers @ [nl] @ svc) = servers @ ws"
proof -
  have s: "svc \<noteq> []" "visible (last svc)"
    using join_words_trimmed [OF assms(3,4)] join_words_last [OF assms(3,4)] assms(5) by simp_all
  have h: "visible (hd (join_with [nl] servers))" "join_with [nl] servers \<noteq> []"
    using join_words_hd [OF assms(1,2)] by simp_all
  have "trimmed (join_with [nl] servers @ [nl] @ svc)"
    using s h by (intro trimmed_visible) auto
  then show "trim_space (mac_backup servers svc) = join_with [nl] servers @ [nl] @ svc"
    using trim_space_nl [of "join_with [nl] servers @ [nl] @ svc"] by (simp add: mac_backup_def)
  show "Fields (join_with [nl] servers @ [nl] @ svc) = servers @ ws"
    using fields_lines [of nl servers svc] fields_join [of ws] assms by simp
qed

lemma backup_parts:
  assumes "\<forall>w \<in> set (a # servers). is_word w" and "nl \<notin> set svc"
  shows "\<exists>rest. split_n 3 nl (mac_backup (a # servers) svc) = a # (case servers of [] \<Rightarrow> svc | b # _ \<Rightarrow> b) # rest"
proof -
  have "split_n 3 nl (w @ nl # v @ nl # t) = [w, v, t]" if "nl \<notin> set w" "nl \<notin> set v" for w v t
    using that by (simp add: numeral_3_eq_3 split_n_line)
  note sp = this [where w = a]
  have a: "nl \<notin> set a"
    using assms(1) nl_not_word by auto
  show ?thesis
  proof (cases servers)
    case Nil
    with sp [OF a assms(2), of "[]"] show ?thesis by (simp add: mac_backup_def)
  next
    case (Cons b bs)
    then have b: "nl \<notin> set b"
      using assms(1) nl_not_word by auto
    have "\<exists>t. mac_backup (a # servers) svc = a @ nl # b @ nl # t"
      using Cons by (cases bs) (auto simp: mac_backup_def)
    with sp [OF a b] Cons show ?thesis by auto
  qed
qed

lemma contains_word: "is_word w \<Longrightarrow> \<not> contains w arent_any"
  using contains_lines [of "[w]"] by simp

subsection \<open>Properties\<close>

text \<open>
  A session on macOS gives the name servers back: if the active service had the servers \<open>servers\<close>,
  \<open>SetSystemDNS\<close> points it to the local server and the following \<open>RestoreSystemDNS\<close> asks for exactly
  these servers, in their order, for the same service, wakes mDNSResponder up and leaves no backup.
\<close>

theorem mac_restore_undoes_set:
  assumes "mac_ready h svc servers s"
    and "SetSystemDNS_darwin h Some [] s = (err, effs, s1)" and "RestoreSystemDNS_darwin None [] s1 = (err', effs', s2)"
  shows "effs = [SetServers svc [''127.0.0.1'']] \<and> effs' = [SetServers svc servers, HupMDNS] \<and> mac_crumb s2 = None"
proof -
  have svc: "svc \<noteq> []"
    using assms(1) DetectActiveService_named [of h] by (auto simp: mac_ready_def)
  have s1: "effs = [SetServers svc [''127.0.0.1'']]" "savedService s1 = svc" "savedDNS s1 = join_with [nl] servers"
    using assms(2) first_set_darwin [OF assms(1)] by auto
  moreover have "servers \<noteq> []" "\<forall>w \<in> set servers. is_word w"
    using assms(1) by (simp_all add: mac_ready_def)
  ultimately show ?thesis
    using restore_darwin [of s1 svc servers None] svc assms(3) by simp
qed

definition mac_sample :: mac_host where
  "mac_sample = \<lparr>mac_route = None, mac_ports = None, mac_getdns = (\<lambda>_. Some (''8.8.8.8'' @ [nl] @ ''1.1.1.1'' @ [nl])), mac_setdns = None\<rparr>"

definition mac_fresh :: mac_state where
  "mac_fresh = \<lparr>savedDNS = [], savedService = [], mac_crumb = None\<rparr>"

lemma mac_sample_ready: "mac_ready mac_sample ''Wi-Fi'' [''8.8.8.8'', ''1.1.1.1''] mac_fresh"
  by (simp add: mac_ready_def mac_sample_def mac_fresh_def DetectActiveService_def is_word_def visible_def)

theorem mac_restore_undoes_set_witness:
  "\<exists>err effs s1. SetSystemDNS_darwin mac_sample Some [] mac_fresh = (err, effs, s1) \<and>
     fst (snd (RestoreSystemDNS_darwin None [] s1)) = [SetServers ''Wi-Fi'' [''8.8.8.8'', ''1.1.1.1''], HupMDNS]"
proof -
  obtain err effs s1 where s: "SetSystemDNS_darwin mac_sample Some [] mac_fresh = (err, effs, s1)"
    by (rule prod_cases3)
  obtain err' effs' s2 where r: "RestoreSystemDNS_darwin None [] s1 = (err', effs', s2)"
    by (rule prod_cases3)
  from mac_restore_undoes_set [OF mac_sample_ready s r] s r show ?thesis by auto
qed

text \<open>
  The recovery from a crash on macOS does not recover: the backup file holds the servers and, in its
  last line, the service; the next \<open>SetSystemDNS\<close> passes all its words to \<open>networksetup\<close>, the name of the
  service among the servers. When the command is refused, so that the settings still are those of the
  crashed session, the local server is saved as the original, and \<open>RestoreSystemDNS\<close> asks for it.
\<close>

theorem mac_recovery_loses_servers:
  assumes "mac_ready h svc servers s" and "svc = join_with '' '' ws" and "ws \<noteq> []" and "\<forall>w \<in> set ws. is_word w"
    and "SetSystemDNS_darwin h Some [] s = (err, effs, s1)"
    and "DetectActiveService h' = svc" and "mac_getdns h' svc = Some (''127.0.0.1'' @ [nl])"
    and "SetSystemDNS_darwin h' Some [] (mac_restart s1) = (err', effs', s2)"
    and "RestoreSystemDNS_darwin None [] s2 = (err'', effs'', s3)"
  shows "effs' = [SetServers svc (servers @ ws), SetServers svc [''127.0.0.1'']] \<and>
    effs'' = [SetServers svc [''127.0.0.1''], HupMDNS] \<and> mac_crumb s3 = None"
proof -
  have sv: "servers \<noteq> []" "\<forall>w \<in> set servers. is_word w"
    using assms(1) by (simp_all add: mac_ready_def)
  have svc: "svc \<noteq> []"
    using assms(6) DetectActiveService_named [of h'] by auto
  have lh: "is_word ''127.0.0.1''"
    by (simp add: is_word_def visible_def)
  have t: "trim_space (''127.0.0.1'' @ [nl]) = ''127.0.0.1''"
    by (rule trim_space_nl [OF is_word_trimmed [OF lh]]) simp
  note b = backup_trimmed [OF sv assms(3,4,2)]
  let ?prev = "join_with [nl] servers @ [nl] @ svc"
  have "nl \<in> set ?prev" "nl \<notin> set ''127.0.0.1''"
    by (simp_all add: nl_not_word lh)
  then have ne: "?prev \<noteq> []" "?prev \<noteq> ''127.0.0.1''"
    by (metis list.distinct(1) list.set(1) empty_iff, metis)
  have c: "mac_crumb (mac_restart s1) = Some (mac_backup servers svc)"
    using assms(5) first_set_darwin [OF assms(1)] by (auto simp: mac_restart_def)
  have s2: "effs' = [SetServers svc (servers @ ws), SetServers svc [''127.0.0.1'']]"
    "savedService s2 = svc" "savedDNS s2 = ''127.0.0.1''"
    using assms(8) c b ne t contains_word [OF lh]
    by (auto simp: SetSystemDNS_darwin_def named_service_def assms(6,7) Let_def)
  then show ?thesis
    using restore_darwin [of s2 svc "[''127.0.0.1'']" None] svc lh assms(9) by auto
qed

theorem mac_recovery_loses_servers_witness:
  "\<exists>s1 s2. fst (snd (SetSystemDNS_darwin mac_sample Some [] mac_fresh)) = [SetServers ''Wi-Fi'' [''127.0.0.1'']] \<and>
     snd (snd (SetSystemDNS_darwin mac_sample Some [] mac_fresh)) = s1 \<and>
     SetSystemDNS_darwin (mac_sample\<lparr>mac_getdns := \<lambda>_. Some (''127.0.0.1'' @ [nl])\<rparr>) Some [] (mac_restart s1) =
       (None, [SetServers ''Wi-Fi'' [''8.8.8.8'', ''1.1.1.1'', ''Wi-Fi''], SetServers ''Wi-Fi'' [''127.0.0.1'']], s2)"
proof -
  let ?h = "mac_sample\<lparr>mac_getdns := \<lambda>_. Some (''127.0.0.1'' @ [nl])\<rparr>"
  obtain err effs s1 where s: "SetSystemDNS_darwin mac_sample Some [] mac_fresh = (err, effs, s1)"
    by (rule prod_cases3)
  obtain err' effs' s2 where s': "SetSystemDNS_darwin ?h Some [] (mac_restart s1) = (err', effs', s2)"
    by (rule prod_cases3)
  obtain err'' effs'' s3 where r: "RestoreSystemDNS_darwin None [] s2 = (err'', effs'', s3)"
    by (rule prod_cases3)
  have w: "''Wi-Fi'' = join_with '' '' [''Wi-Fi'']" "[''Wi-Fi''] \<noteq> []" "\<forall>w \<in> set [''Wi-Fi'']. is_word w"
    by (simp_all add: is_word_def visible_def)
  have d: "DetectActiveService ?h = ''Wi-Fi''" "mac_getdns ?h ''Wi-Fi'' = Some (''127.0.0.1'' @ [nl])"
    by (simp_all add: mac_sample_def DetectActiveService_def)
  have "err' = None"
    using s' by (simp add: SetSystemDNS_darwin_def Let_def mac_sample_def)
  moreover have "effs = [SetServers ''Wi-Fi'' [''127.0.0.1'']]"
    using s first_set_darwin [OF mac_sample_ready] by simp
  ultimately show ?thesis
    using mac_recovery_loses_servers [OF mac_sample_ready w s d s' r] s s' by auto
qed

lemma cleanup_darwin_starts:
  assumes "split_n 3 nl data = prev # svc # rest" and "is_word prev" and "trimmed svc" and "svc \<noteq> []"
  shows "\<exists>more. snd (platformCleanup_darwin getdns (Some data)) = SetServers svc [prev] # more"
proof -
  have "trim_space prev = prev" "prev \<noteq> []" "\<not> contains prev arent_any" "Fields prev = [prev]"
    using assms(2) is_word_trimmed is_word_ends contains_word fields_word by auto
  moreover have "crumb_service ''Wi-Fi'' (prev # svc # rest) = svc"
    using assms(3,4) by (simp add: crumb_service_def)
  ultimately show ?thesis
    by (auto simp: platformCleanup_darwin_def assms(1) Let_def split: option.split prod.split)
qed

text \<open>
  \<open>gecit cleanup\<close> after a crash on macOS restores a service that had one name server, and misreads the
  backup of a service that had more: it takes the second server for the name of the service, so that
  it sets the first server for a service that does not exist, and then removes the backup.
\<close>

theorem mac_cleanup_first_server_only:
  assumes "mac_ready h svc servers s" and "nl \<notin> set svc" and "trimmed svc"
    and "SetSystemDNS_darwin h Some [] s = (err, effs, s1)"
  shows "\<exists>more. snd (platformCleanup_darwin getdns (mac_crumb s1)) =
    SetServers (case tl servers of [] \<Rightarrow> svc | second # _ \<Rightarrow> second) [hd servers] # more"
proof -
  have c: "mac_crumb s1 = Some (mac_backup servers svc)"
    using assms(4) first_set_darwin [OF assms(1)] by auto
  have svc: "svc \<noteq> []"
    using assms(1) DetectActiveService_named [of h] by (auto simp: mac_ready_def)
  obtain a bs where sv: "servers = a # bs" "\<forall>w \<in> set (a # bs). is_word w"
    using assms(1) by (cases servers) (auto simp: mac_ready_def)
  let ?name = "case bs of [] \<Rightarrow> svc | second # _ \<Rightarrow> second"
  obtain rest where p: "split_n 3 nl (mac_backup servers svc) = a # ?name # rest"
    using backup_parts [OF sv(2) assms(2)] sv(1) by auto
  have "trimmed ?name" "?name \<noteq> []"
    using assms(3) svc sv(2) is_word_trimmed is_word_ends by (auto split: list.split)
  then show ?thesis
    using cleanup_darwin_starts [OF p] sv unfolding c by simp
qed

theorem mac_cleanup_first_server_only_witness:
  "\<exists>more. snd (platformCleanup_darwin (\<lambda>_. None) (mac_crumb (snd (snd (SetSystemDNS_darwin mac_sample Some [] mac_fresh))))) =
     SetServers ''1.1.1.1'' [''8.8.8.8''] # more"
proof -
  obtain err effs s1 where s: "SetSystemDNS_darwin mac_sample Some [] mac_fresh = (err, effs, s1)"
    by (rule prod_cases3)
  have w: "is_word ''Wi-Fi''"
    by (simp add: is_word_def visible_def)
  from mac_cleanup_first_server_only [OF mac_sample_ready nl_not_word [OF w] is_word_trimmed [OF w] s, of "\<lambda>_. None"] s
  show ?thesis by simp
qed

subsection \<open>Windows\<close>

lemma getCurrentDNS_clean:
  "getCurrentDNS h parse_ip iface \<noteq> [] \<and> trimmed (getCurrentDNS h parse_ip iface) \<and> nl \<notin> set (getCurrentDNS h parse_ip iface)"
proof -
  have d: "is_word ''dhcp''"
    by (simp add: is_word_def visible_def)
  have "w \<noteq> [] \<and> trimmed w \<and> nl \<notin> set w"
    if "find P (concat (map (\<lambda>line. Fields (trim_space line)) ls)) = Some w" for P w ls
  proof -
    have "w \<in> set (concat (map (\<lambda>line. Fields (trim_space line)) ls))"
      using find_Some_member [OF that] by (rule conjunct1)
    then obtain line where "w \<in> set (Fields (trim_space line))" by auto
    then show ?thesis by (rule fields_clean)
  qed
  then show ?thesis
    using is_word_trimmed [OF d] nl_not_word [OF d] unfolding getCurrentDNS_def
    by (simp split: option.split)
qed

lemma getCurrentDNS_not_local:
  "\<forall>a. parse_ip ''127.0.0.1'' = Some a \<longrightarrow> IsLoopback a \<Longrightarrow> getCurrentDNS h parse_ip iface \<noteq> ''127.0.0.1''"
  by (auto simp: getCurrentDNS_def find_Some_iff split: option.splits)

definition win_backup :: "string \<Rightarrow> string \<Rightarrow> string" where
  "win_backup prev iface = prev @ [nl] @ iface @ [nl]"

lemma win_backup_parts:
  assumes "nl \<notin> set prev"
  shows "split_n 2 nl (win_backup prev iface) = [prev, iface @ [nl]]"
  using split_n_line [OF assms, of 0 "iface @ [nl]"] by (simp add: win_backup_def numeral_2_eq_2)

lemma win_restore:
  assumes "win_crumb s = Some (win_backup prev iface)" and "nl \<notin> set prev" and "trimmed prev" and "prev \<noteq> []"
    and "trimmed iface" and "iface \<noteq> []"
  shows "RestoreSystemDNS_windows h kept s = (None, [restore_cmd iface prev, FlushDns], s\<lparr>win_crumb := kept\<rparr>)"
    and "platformCleanup_windows None (win_crumb s) = (True, [restore_cmd iface prev, FlushDns])"
  using assms trim_space_nl [OF assms(5,6)]
  by (simp_all add: RestoreSystemDNS_windows_def platformCleanup_windows_def win_backup_parts crumb_service_def)

text \<open>
  On Windows the backup survives a crash: after a \<open>SetSystemDNS\<close>, \<open>RestoreSystemDNS\<close> in the same or in
  a later process and \<open>gecit cleanup\<close> all issue the same command, the one that sets the resolver which
  \<open>netsh\<close> showed (or DHCP, when it showed none) for the interface of that session, and a \<open>SetSystemDNS\<close>
  after a crash issues it before it asks \<open>netsh\<close> again.
\<close>

theorem win_backup_survives_crash:
  assumes "detectWindowsInterface h = Inr iface" and "trimmed iface" and "iface \<noteq> []"
    and "\<forall>a. parse_ip ''127.0.0.1'' = Some a \<longrightarrow> IsLoopback a"
    and "SetSystemDNS_windows h parse_ip Some s = (err, effs, s1)"
    and "win_crumb s2 = win_crumb s1" and "cmd = restore_cmd iface (getCurrentDNS h parse_ip iface)"
    and "detectWindowsInterface h' = Inr iface'"
  shows "fst (snd (RestoreSystemDNS_windows h' kept s2)) = [cmd, FlushDns] \<and>
    platformCleanup_windows None (win_crumb s2) = (True, [cmd, FlushDns]) \<and>
    (\<exists>more. fst (snd (SetSystemDNS_windows h' parse_ip' written s2)) = cmd # SetStatic iface' ''127.0.0.1'' # more)"
proof -
  let ?prev = "getCurrentDNS h parse_ip iface"
  have c: "win_crumb s2 = Some (win_backup ?prev iface)"
    using assms(5,6) by (auto simp: SetSystemDNS_windows_def assms(1) win_backup_def Let_def split: option.splits)
  have prev: "nl \<notin> set ?prev" "trimmed ?prev" "?prev \<noteq> []"
    using getCurrentDNS_clean by simp_all
  note r = win_restore [OF c prev(1-3) assms(2,3)]
  have "?prev \<noteq> ''127.0.0.1''"
    by (rule getCurrentDNS_not_local) (rule assms(4))
  then have "\<exists>more. fst (snd (SetSystemDNS_windows h' parse_ip' written s2)) = cmd # SetStatic iface' ''127.0.0.1'' # more"
    using prev assms(2,3) trim_space_nl [OF assms(2,3)]
    by (cases "win_setdns h'") (simp_all add: SetSystemDNS_windows_def assms(7,8) c win_backup_parts restore_cmd_def Let_def)
  with r assms(7) show ?thesis by simp
qed

text \<open>A sample host: one connected interface, whose resolver comes from DHCP.\<close>

definition win_sample :: win_host where
  "win_sample = \<lparr>win_interfaces = Some (join_with '' '' [''Enabled'', ''Connected'', ''Dedicated'', ''Ethernet'']),
     win_showdns = (\<lambda>_. Some (join_with '' '' [''DNS'', ''servers'', ''configured'', ''through'', ''DHCP:'', ''192.168.1.1''])),
     win_setdns = None\<rparr>"

definition sample_ip :: "string \<Rightarrow> ip option" where
  "sample_ip p = (if p = ''192.168.1.1'' then Some [192, 168, 1, 1] else None)"

lemma sample_lines:
  assumes "\<forall>w \<in> set ws. is_word w" and "ws \<noteq> []"
  shows "split_on nl (join_with '' '' ws) = [join_with '' '' ws]" and "trim_space (join_with '' '' ws) = join_with '' '' ws"
    and "Fields (join_with '' '' ws) = ws"
proof -
  have "nl \<notin> set (join_with '' '' ws)"
    using assms nl_not_word by (induction "'' ''" ws rule: join_with.induct) auto
  then show "split_on nl (join_with '' '' ws) = [join_with '' '' ws]"
    by (rule split_on_clean)
  show "trim_space (join_with '' '' ws) = join_with '' '' ws"
    using join_words_trimmed(1) [OF assms(2,1)] by (rule trim_space_id)
  show "Fields (join_with '' '' ws) = ws"
    by (rule fields_join [OF assms(1)])
qed

lemma win_sample_calls:
  "detectWindowsInterface win_sample = Inr ''Ethernet''"
  "getCurrentDNS win_sample sample_ip iface = ''192.168.1.1''"
proof -
  let ?i = "[''Enabled'', ''Connected'', ''Dedicated'', ''Ethernet'']"
  let ?d = "[''DNS'', ''servers'', ''configured'', ''through'', ''DHCP:'', ''192.168.1.1'']"
  have i: "\<forall>w \<in> set ?i. is_word w" and d: "\<forall>w \<in> set ?d. is_word w"
    by (simp_all add: is_word_def visible_def)
  have c: "contains (join_with '' '' ?i) ''Connected''" "\<not> contains (join_with '' '' ?i) ''Loopback''"
    by code_simp+
  have "connected_interface [join_with '' '' ?i] = Some ''Ethernet''"
    using c by (simp only: connected_interface.simps Let_def sample_lines [OF i list.distinct(2)]) simp
  then show "detectWindowsInterface win_sample = Inr ''Ethernet''"
    unfolding detectWindowsInterface_def win_sample_def win_host.select_convs option.case
      sample_lines(1) [OF i list.distinct(2)] by simp
  have "find (\<lambda>p. case sample_ip p of Some a \<Rightarrow> \<not> IsLoopback a | None \<Rightarrow> False) ?d = Some ''192.168.1.1''"
    by (simp add: sample_ip_def IsLoopback_def to4_def)
  then show "getCurrentDNS win_sample sample_ip iface = ''192.168.1.1''"
    unfolding getCurrentDNS_def win_sample_def win_host.select_convs option.case
      sample_lines(1) [OF d list.distinct(2)] list.map sample_lines(2,3) [OF d list.distinct(2)] concat.simps append_Nil2
    by simp
qed

text \<open>The restored setting is static, although the resolver came from DHCP.\<close>

theorem win_backup_survives_crash_witness:
  "\<exists>err effs s1. SetSystemDNS_windows win_sample sample_ip Some \<lparr>savedInterface = [], win_crumb = None\<rparr> = (err, effs, s1) \<and>
     fst (snd (RestoreSystemDNS_windows win_sample None \<lparr>savedInterface = [], win_crumb = win_crumb s1\<rparr>)) =
       [SetStatic ''Ethernet'' ''192.168.1.1'', FlushDns]"
proof -
  obtain err effs s1 where s: "SetSystemDNS_windows win_sample sample_ip Some \<lparr>savedInterface = [], win_crumb = None\<rparr> = (err, effs, s1)"
    by (rule prod_cases3)
  have w: "is_word ''Ethernet''"
    by (simp add: is_word_def visible_def)
  have lo: "\<forall>a. sample_ip ''127.0.0.1'' = Some a \<longrightarrow> IsLoopback a"
    by (simp add: sample_ip_def)
  have "restore_cmd ''Ethernet'' (getCurrentDNS win_sample sample_ip ''Ethernet'') = SetStatic ''Ethernet'' ''192.168.1.1''"
    by (simp add: win_sample_calls restore_cmd_def)
  then show ?thesis
    using win_backup_survives_crash [OF win_sample_calls(1) is_word_trimmed [OF w] _ lo s _ refl win_sample_calls(1),
        where ?s2.0 = "\<lparr>savedInterface = [], win_crumb = win_crumb s1\<rparr>" and kept = None] s
    by auto
qed

subsection \<open>Linux\<close>

text \<open>The clean-up on Linux is the restore of theory ResolvConf, and leaves an untouched file alone.\<close>

lemma cleanup_linux_after_set:
  "platformCleanup_linux write_ok (Some (set_text orig)) = (True, snd (RestoreSystemDNS write_ok (Some (set_text orig))))"
  by (simp add: platformCleanup_linux_def SystemDNSNeedsRestore_def has_state_set_text RestoreSystemDNS_def
      do_write_def write_ok_def)

lemma cleanup_linux_untouched: "\<not> hasGecitDNSState conf \<Longrightarrow> platformCleanup_linux w (Some conf) = (False, Some conf)"
  by (simp add: platformCleanup_linux_def SystemDNSNeedsRestore_def)

end
