(* ===== verification/RunTun.thy ===== *)
theory RunTun
  imports CmdRun TunManager PlatformDns
begin

text \<open>
  The command \<open>gecit run\<close> on macOS and Windows (cmd/gecit/app/run.go, run_tun.go, dns_darwin.go,
  dns_windows.go): the engine that composes the DNS server, the system's DNS settings and the TUN
  manager, over the operations of theory PlatformDns, and the command around it. What the commands
  \<open>networksetup\<close> and \<open>netsh\<close> do to the settings of the machine is a small model of its own, in which a
  command may also be refused. The locale \<open>system_dns\<close> states what the engine needs of a platform's DNS
  operations; both platforms are interpretations. What is proved: however a session ends, the listener
  and the resolver of the system are given back; while it runs the settings point to the local server;
  and afterwards they are what a restore makes of them, which is stated exactly, with the conditions
  under which these are the settings before the session.
\<close>

subsection \<open>The engine\<close>

text \<open>
  The operations on the system's DNS: \<open>stopSystemDNS\<close>, \<open>resumeSystemDNS\<close>, \<open>SetSystemDNS\<close> and
  \<open>RestoreSystemDNS\<close>, with the state \<open>'s\<close> they keep, the commands \<open>'c\<close> they run and their errors \<open>'e\<close>.
\<close>

record ('s, 'c, 'e) dns_ops =
  op_pause :: "'c list"
  op_resume :: "'c list"
  op_set :: "'s \<Rightarrow> 'e err \<times> 'c list \<times> 's"
  op_restore :: "'s \<Rightarrow> 'e err \<times> 'c list \<times> 's"

datatype 'c tun_act =
    PauseDns "'c list"
  | ResumeDns "'c list"
  | DnsServe
  | DnsStop
  | SetDns bool "'c list"
  | RestoreDns "'c list"
  | TunAct tm_effect

datatype 'e tun_run_error =
    TunDnsServer string
  | TunSystemDns 'e
  | TunManagerError tm_error
  | TunRestore 'e
  | TunDnsStop string

text \<open>
  The state of a session: what the DNS operations keep, and the manager. \<open>dns_result\<close> is the result of
  starting the DNS server, \<open>stop_result\<close> that of stopping it.
\<close>

definition StartTunEngine ::
  "('s, 'c, 'e) dns_ops \<Rightarrow> bool \<Rightarrow> string err \<Rightarrow> tm_env \<Rightarrow> 's \<Rightarrow> TunManager
   \<Rightarrow> 'e tun_run_error err \<times> 'c tun_act list \<times> 's \<times> TunManager" where
  "StartTunEngine ops doh dns_result env s m =
     (let (err, effs, s) =
            (if doh then
               (case dns_result of
                  Some x \<Rightarrow> (Some (TunDnsServer x), [PauseDns (op_pause ops), ResumeDns (op_resume ops)], s)
                | None \<Rightarrow>
                    (case op_set ops s of
                       (Some x, cmds, s) \<Rightarrow> (Some (TunSystemDns x),
                         [PauseDns (op_pause ops), DnsServe, SetDns False cmds, DnsStop, ResumeDns (op_resume ops)], s)
                     | (None, cmds, s) \<Rightarrow> (None, [PauseDns (op_pause ops), DnsServe, SetDns True cmds], s)))
             else (None, [], s)) in
      (case err of
         Some x \<Rightarrow> (Some x, effs, s, m)
       | None \<Rightarrow>
           let (merr, meffs, m) = StartTun env m; effs = effs @ map TunAct meffs in
           (case merr of
              None \<Rightarrow> (None, effs, s, m)
            | Some x \<Rightarrow>
                if doh then
                  let (_, cmds, s) = op_restore ops s
                  in (Some (TunManagerError x), effs @ [RestoreDns cmds, DnsStop, ResumeDns (op_resume ops)], s, m)
                else (Some (TunManagerError x), effs, s, m))))"

text \<open>\<open>mgr.Stop\<close> always returns nil; the first error is returned.\<close>

definition StopTunEngine ::
  "('s, 'c, 'e) dns_ops \<Rightarrow> bool \<Rightarrow> string err \<Rightarrow> 's \<Rightarrow> TunManager
   \<Rightarrow> 'e tun_run_error err \<times> 'c tun_act list \<times> 's \<times> TunManager" where
  "StopTunEngine ops doh stop_result s m =
     (let (meffs, m) = StopTun m;
          effs = map TunAct meffs in
      if doh then
        let (rerr, cmds, s) = op_restore ops s;
            errs = (case rerr of Some x \<Rightarrow> [TunRestore x] | None \<Rightarrow> []);
            errs = (case stop_result of Some x \<Rightarrow> errs @ [TunDnsStop x] | None \<Rightarrow> errs)
        in ((if length errs > 0 then Some (errs ! 0) else None),
            effs @ [RestoreDns cmds, DnsStop, ResumeDns (op_resume ops)], s, m)
      else (None, effs, s, m))"

text \<open>The TUN engine of a configuration: its manager and whether DoH is enabled.\<close>

definition newTunEngine :: "EngineConfig \<Rightarrow> TunManager \<times> bool" where
  "newTunEngine c =
     (NewTunManager \<lparr>tPorts = ecPorts c, tFakeTTL = ecFakeTTL c, tInterface = ecInterface c\<rparr>, ecDoHEnabled c)"

definition newPlatformEngine_stub :: "EngineConfig \<Rightarrow> string" where
  "newPlatformEngine_stub c = ''TUN engine requires build tag with_gvisor''"

subsection \<open>The command\<close>

record tun_host =
  th_child :: "string list \<Rightarrow> string err"
  th_privileges :: "string err"
  th_dns :: "string err"
  th_tm :: tm_env
  th_dns_stop :: "string err"

datatype 'e tun_run_end = TunExited | TunChildFailed string | TunRefused string | TunStartFailed "'e tun_run_error" | TunStopped "'e tun_run_error err"

definition runTun :: "('s, 'c, 'e) dns_ops \<Rightarrow> tun_host \<Rightarrow> bool \<Rightarrow> string list \<Rightarrow> run_flags \<Rightarrow> 's
   \<Rightarrow> 'e tun_run_end \<times> 'c tun_act list \<times> 's" where
  "runTun ops h detach args v s =
     (if detach then
        (case th_child h (childArgs args) of Some x \<Rightarrow> (TunChildFailed x, [], s) | None \<Rightarrow> (TunExited, [], s))
      else
        (case th_privileges h of
           Some x \<Rightarrow> (TunRefused x, [], s)
         | None \<Rightarrow>
             let (m, doh) = newTunEngine (run_config v);
                 (err, effs, s, m) = StartTunEngine ops doh (th_dns h) (th_tm h) s m in
             (case err of
                Some x \<Rightarrow> (TunStartFailed x, effs, s)
              | None \<Rightarrow>
                  let (serr, effs', s, m) = StopTunEngine ops doh (th_dns_stop h) s m
                  in (TunStopped serr, effs @ effs', s))))"

subsection \<open>Listener, resolver and redirection\<close>

datatype tun_dns_resource = SystemDnsPaused | TunDnsServing | SystemDnsRedirected

fun tun_dns_opens :: "'c tun_act \<Rightarrow> tun_dns_resource option" where
  "tun_dns_opens (PauseDns _) = Some SystemDnsPaused"
| "tun_dns_opens DnsServe = Some TunDnsServing"
| "tun_dns_opens (SetDns ok _) = (if ok then Some SystemDnsRedirected else None)"
| "tun_dns_opens _ = None"

fun tun_dns_closes :: "'c tun_act \<Rightarrow> tun_dns_resource option" where
  "tun_dns_closes (ResumeDns _) = Some SystemDnsPaused"
| "tun_dns_closes DnsStop = Some TunDnsServing"
| "tun_dns_closes (RestoreDns _) = Some SystemDnsRedirected"
| "tun_dns_closes _ = None"

abbreviation tun_dns_track :: "'c tun_act list \<Rightarrow> tun_dns_resource set \<Rightarrow> tun_dns_resource set option" where
  "tun_dns_track \<equiv> track tun_dns_opens tun_dns_closes"

lemma tun_dns_track_mgr [simp]: "tun_dns_track (map TunAct es @ rest) A = tun_dns_track rest A"
  by (induction es) simp_all

lemma tun_dns_track_mgr_only [simp]: "tun_dns_track (map TunAct es) A = Some A"
  by (induction es) simp_all

definition tun_dns_serving :: "tun_dns_resource set" where
  "tun_dns_serving = {SystemDnsPaused, TunDnsServing, SystemDnsRedirected}"

text \<open>The ways a start can end.\<close>

lemma StartTunEngine_cases:
  assumes "StartTunEngine ops doh dns_result env s m = (err, effs, s', m')"
  obtains (no_server) x where "doh" "err = Some (TunDnsServer x)" "effs = [PauseDns (op_pause ops), ResumeDns (op_resume ops)]" "s' = s"
  | (no_set) x cmds where "doh" "op_set ops s = (Some x, cmds, s')" "err = Some (TunSystemDns x)"
      "effs = [PauseDns (op_pause ops), DnsServe, SetDns False cmds, DnsStop, ResumeDns (op_resume ops)]"
  | (no_manager) x cmds s1 e cmds' meffs where "doh" "op_set ops s = (None, cmds, s1)" "op_restore ops s1 = (e, cmds', s')"
      "err = Some (TunManagerError x)"
      "effs = [PauseDns (op_pause ops), DnsServe, SetDns True cmds] @ map TunAct meffs @ [RestoreDns cmds', DnsStop, ResumeDns (op_resume ops)]"
  | (started) cmds meffs where "doh" "op_set ops s = (None, cmds, s')" "err = None"
      "effs = [PauseDns (op_pause ops), DnsServe, SetDns True cmds] @ map TunAct meffs"
  | (plain) meffs where "\<not> doh" "effs = map TunAct meffs" "s' = s"
proof -
  obtain merr meffs m1 where st: "StartTun env m = (merr, meffs, m1)"
    by (rule prod_cases3)
  obtain serr cmds s1 where set: "op_set ops s = (serr, cmds, s1)"
    by (rule prod_cases3)
  obtain rerr cmds' s2 where res: "op_restore ops s1 = (rerr, cmds', s2)"
    by (rule prod_cases3)
  show ?thesis
  proof (cases doh)
    case False
    with assms st plain show ?thesis
      by (cases merr) (auto simp: StartTunEngine_def Let_def)
  next
    case doh: True
    show ?thesis
    proof (cases dns_result)
      case (Some x)
      with assms doh no_server show ?thesis by (auto simp: StartTunEngine_def)
    next
      case None
      show ?thesis
      proof (cases serr)
        case (Some x)
        with assms doh set no_set None show ?thesis by (auto simp: StartTunEngine_def)
      next
        case sn: None
        show ?thesis
        proof (cases merr)
          case (Some x)
          with assms doh set None sn st res show ?thesis
            by (intro no_manager [of cmds s1 rerr cmds' x meffs]) (simp_all add: StartTunEngine_def)
        next
          case None
          with assms doh set \<open>dns_result = None\<close> sn st show ?thesis
            by (intro started [of cmds meffs]) (simp_all add: StartTunEngine_def)
        qed
      qed
    qed
  qed
qed

lemma StopTunEngine_eq:
  assumes "StopTunEngine ops doh stop_result s m = (err, effs, s', m')"
  obtains (doh) meffs rerr cmds where "doh" "op_restore ops s = (rerr, cmds, s')"
      "effs = map TunAct meffs @ [RestoreDns cmds, DnsStop, ResumeDns (op_resume ops)]"
  | (plain) meffs where "\<not> doh" "effs = map TunAct meffs" "s' = s"
  using assms by (cases doh) (auto simp: StopTunEngine_def Let_def split: prod.splits)

lemma StartTunEngine_dns:
  assumes "StartTunEngine ops doh dns_result env s m = (err, effs, s', m')"
  shows "tun_dns_track effs {} = Some (if err = None \<and> doh then tun_dns_serving else {})"
  using assms by (cases rule: StartTunEngine_cases) (auto simp: tun_dns_serving_def)

lemma StopTunEngine_dns:
  assumes "StopTunEngine ops doh stop_result s m = (err, effs, s', m')" and "A \<subseteq> (if doh then tun_dns_serving else {})"
  shows "tun_dns_track effs A = Some {}"
  using assms(1) by (cases rule: StopTunEngine_eq) (use assms(2) in \<open>auto simp: tun_dns_serving_def\<close>)

text \<open>
  A session of the TUN engine with DoH: after a failed start nothing is held, after a successful one the
  listener serves and the system is redirected, and a stop gives everything back.
\<close>

lemma tun_engine_dns_restored:
  assumes "StartTunEngine ops doh dns_result env s m = (err, effs, s1, m1)" and "err = None"
    and "StopTunEngine ops doh stop_result s1 m1 = (serr, effs', s2, m2)"
  shows "(doh \<longrightarrow> tun_dns_track effs {} = Some tun_dns_serving) \<and> tun_dns_track (effs @ effs') {} = Some {}"
proof -
  note st = StartTunEngine_dns [OF assms(1)]
  have "tun_dns_track (effs @ effs') {} = Some {}"
    unfolding track_append_Some [OF st] by (rule StopTunEngine_dns [OF assms(3)]) (simp add: assms(2))
  with st assms(2) show ?thesis by simp
qed

subsection \<open>What the engine needs of the DNS operations\<close>

text \<open>The commands an action runs, and the settings after a trace.\<close>

fun act_cmds :: "'c tun_act \<Rightarrow> 'c list" where
  "act_cmds (PauseDns cmds) = cmds"
| "act_cmds (ResumeDns cmds) = cmds"
| "act_cmds (SetDns _ cmds) = cmds"
| "act_cmds (RestoreDns cmds) = cmds"
| "act_cmds _ = []"

definition trace_cmds :: "'c tun_act list \<Rightarrow> 'c list" where
  "trace_cmds effs = concat (map act_cmds effs)"

lemma trace_cmds_simps [simp]:
  "trace_cmds [] = []" "trace_cmds (a # as) = act_cmds a @ trace_cmds as" "trace_cmds (xs @ ys) = trace_cmds xs @ trace_cmds ys"
  "trace_cmds (map TunAct es) = []"
  by (simp_all add: trace_cmds_def)

text \<open>
  The listener, the resolver and the redirection over a whole run of the command, whatever the
  operations do.
\<close>

lemma run_closes_dns:
  assumes "runTun ops h detach args v s = (result, effs, s')"
  shows "tun_dns_track effs {} = Some {}"
proof (cases "detach \<or> th_privileges h \<noteq> None")
  case True
  then show ?thesis
    using assms by (auto simp: runTun_def split: option.splits if_splits)
next
  case False
  obtain m doh where new: "newTunEngine (run_config v) = (m, doh)"
    by fastforce
  obtain err effs1 s1 m1 where st: "StartTunEngine ops doh (th_dns h) (th_tm h) s m = (err, effs1, s1, m1)"
    by (rule prod_cases4)
  obtain serr effs2 s2 m2 where sp: "StopTunEngine ops doh (th_dns_stop h) s1 m1 = (serr, effs2, s2, m2)"
    by (rule prod_cases4)
  show ?thesis
  proof (cases err)
    case (Some x)
    then have "effs = effs1"
      using assms False new st by (auto simp: runTun_def)
    with StartTunEngine_dns [OF st] Some show ?thesis by simp
  next
    case None
    then have "effs = effs1 @ effs2"
      using assms False new st sp by (auto simp: runTun_def)
    with tun_engine_dns_restored [OF st None sp] show ?thesis by simp
  qed
qed

text \<open>
  The contract: \<open>exec\<close> is the effect of a command on the machine's settings \<open>'d\<close>, \<open>ready s d\<close> the situation
  before a session, \<open>local d\<close> that the local server answers, and \<open>given_back s d\<close> the settings that a restore
  makes of the settings \<open>d\<close> at the start of the session. Pausing and resuming the system's resolver leave
  the settings alone; a set that fails leaves them alone, too, and one that succeeds points to the
  local server.
\<close>

locale system_dns =
  fixes ops :: "('s, 'c, 'e) dns_ops"
    and exec :: "'c \<Rightarrow> 'd \<Rightarrow> 'd"
    and ready :: "'s \<Rightarrow> 'd \<Rightarrow> bool"
    and localdns :: "'d \<Rightarrow> bool"
    and given_back :: "'s \<Rightarrow> 'd \<Rightarrow> 'd"
  assumes pause_keeps: "fold exec (op_pause ops) d = d" and resume_keeps: "fold exec (op_resume ops) d = d"
    and set_failed: "ready s d \<Longrightarrow> op_set ops s = (Some x, cmds, s') \<Longrightarrow> fold exec cmds d = d"
    and set_done: "ready s d \<Longrightarrow> op_set ops s = (None, cmds, s') \<Longrightarrow> localdns (fold exec cmds d)"
    and restore_gives: "ready s d \<Longrightarrow> op_set ops s = (None, cmds, s') \<Longrightarrow> op_restore ops s' = (r, cmds', s'') \<Longrightarrow>
      fold exec cmds' (fold exec cmds d) = given_back s d"
begin

lemma start_settings:
  assumes "ready s d" and "StartTunEngine ops doh dns_result env s m = (err, effs, s', m')"
  shows "err \<noteq> None \<Longrightarrow> fold exec (trace_cmds effs) d \<in> {d, given_back s d}"
    and "\<not> doh \<Longrightarrow> fold exec (trace_cmds effs) d = d"
    and "err = None \<Longrightarrow> doh \<Longrightarrow> localdns (fold exec (trace_cmds effs) d) \<and>
      (\<forall>e cmds' s''. op_restore ops s' = (e, cmds', s'') \<longrightarrow> fold exec cmds' (fold exec (trace_cmds effs) d) = given_back s d)"
proof -
  note r = restore_gives [OF assms(1)]
  show "err \<noteq> None \<Longrightarrow> fold exec (trace_cmds effs) d \<in> {d, given_back s d}"
    using assms(2) by (cases rule: StartTunEngine_cases)
      (auto simp: pause_keeps resume_keeps set_failed [OF assms(1)] dest: r)
  show "\<not> doh \<Longrightarrow> fold exec (trace_cmds effs) d = d"
    using assms(2) by (cases rule: StartTunEngine_cases) simp_all
  show "localdns (fold exec (trace_cmds effs) d) \<and>
      (\<forall>e cmds' s''. op_restore ops s' = (e, cmds', s'') \<longrightarrow> fold exec cmds' (fold exec (trace_cmds effs) d) = given_back s d)"
    if "err = None" "doh"
    using assms(2) that by (cases rule: StartTunEngine_cases)
      (auto simp: pause_keeps set_done [OF assms(1)] dest: r)
qed

lemma session_settings:
  assumes "ready s d" and "StartTunEngine ops doh dns_result env s m = (None, effs, s1, m1)"
    and "StopTunEngine ops doh stop_result s1 m1 = (err, effs', s2, m2)"
  shows "fold exec (trace_cmds (effs @ effs')) d = (if doh then given_back s d else d)"
  using assms(3)
proof (cases rule: StopTunEngine_eq)
  case (doh meffs rerr cmds)
  with start_settings(3) [OF assms(1,2)] show ?thesis
    by (simp add: resume_keeps)
next
  case (plain meffs)
  with start_settings(2) [OF assms(1,2)] show ?thesis by simp
qed

text \<open>The command: the settings at its end, and while the engine runs.\<close>

lemma run_settings:
  assumes "ready s d" and "runTun ops h detach args v s = (result, effs, s')"
  shows "fold exec (trace_cmds effs) d \<in> {d, given_back s d} \<and>
    (\<not> v_doh_enabled v \<longrightarrow> fold exec (trace_cmds effs) d = d) \<and>
    (\<forall>e. result = TunStopped e \<and> v_doh_enabled v \<longrightarrow>
       fold exec (trace_cmds effs) d = given_back s d \<and>
       (\<exists>before after. effs = before @ after \<and> localdns (fold exec (trace_cmds before) d) \<and>
          tun_dns_track before {} = Some tun_dns_serving))"
proof (cases "detach \<or> th_privileges h \<noteq> None")
  case True
  then show ?thesis
    using assms(2) by (auto simp: runTun_def split: option.splits if_splits)
next
  case False
  obtain m where new: "newTunEngine (run_config v) = (m, v_doh_enabled v)"
    by (simp add: newTunEngine_def run_config_def)
  obtain err effs1 s1 m1 where st: "StartTunEngine ops (v_doh_enabled v) (th_dns h) (th_tm h) s m = (err, effs1, s1, m1)"
    by (rule prod_cases4)
  note dns = StartTunEngine_dns [OF st]
  show ?thesis
  proof (cases err)
    case (Some x)
    then have "effs = effs1" "result = TunStartFailed x"
      using assms(2) False new st by (auto simp: runTun_def)
    then show ?thesis
      using start_settings(1,2) [OF assms(1) st] Some by simp
  next
    case None
    obtain serr effs2 s2 m2 where sp: "StopTunEngine ops (v_doh_enabled v) (th_dns_stop h) s1 m1 = (serr, effs2, s2, m2)"
      by (rule prod_cases4)
    have e: "effs = effs1 @ effs2"
      using assms(2) False new st sp None by (auto simp: runTun_def)
    have "fold exec (trace_cmds effs) d = (if v_doh_enabled v then given_back s d else d)"
      unfolding e by (rule session_settings [OF assms(1) st [unfolded None] sp])
    then show ?thesis
      using start_settings(3) [OF assms(1) st None] dns None e by auto
  qed
qed

end

subsection \<open>macOS\<close>

text \<open>
  The name servers configured for each network service, and what a command does to them unless
  \<open>networksetup\<close> refuses it (\<open>ok\<close>): the word \<open>empty\<close> clears the list.
\<close>

type_synonym mac_settings = "string \<Rightarrow> string list"

fun mac_exec :: "(string \<Rightarrow> string list \<Rightarrow> bool) \<Rightarrow> mac_cmd \<Rightarrow> mac_settings \<Rightarrow> mac_settings" where
  "mac_exec ok (SetServers svc args) d = (if ok svc args then d(svc := (if args = [''empty''] then [] else args)) else d)"
| "mac_exec ok _ d = d"

definition mac_ops :: "mac_host \<Rightarrow> (nat \<Rightarrow> bool) \<Rightarrow> (mac_state, mac_cmd, string) dns_ops" where
  "mac_ops h free = \<lparr>op_pause = StopMDNSResponder free, op_resume = ResumeMDNSResponder,
     op_set = SetSystemDNS_darwin h Some [], op_restore = RestoreSystemDNS_darwin None []\<rparr>"

text \<open>What \<open>networksetup -getdnsservers\<close> prints.\<close>

definition mac_output :: "string list \<Rightarrow> string \<Rightarrow> string" where
  "mac_output servers svc =
     (if servers = [] then ''There '' @ arent_any @ '' DNS Servers set on '' @ svc @ ''.'' @ [nl] else join_with [nl] servers @ [nl])"

text \<open>The words that ask for a list of servers again.\<close>

definition words_of :: "string list \<Rightarrow> string list" where
  "words_of servers = (if servers = [] then [''empty''] else servers)"

text \<open>
  Before a session: no backup is left from a crash, the process has just begun, and \<open>networksetup\<close>
  reports an error exactly if it does not set the local server.
\<close>

definition mac_session :: "mac_host \<Rightarrow> (string \<Rightarrow> string list \<Rightarrow> bool) \<Rightarrow> mac_state \<Rightarrow> mac_settings \<Rightarrow> bool" where
  "mac_session h ok s d \<longleftrightarrow> mac_crumb s = None \<and> savedDNS s = [] \<and>
     (mac_setdns h = None \<longleftrightarrow> ok (DetectActiveService h) [''127.0.0.1''])"

text \<open>
  What a restore makes of the settings: the words \<open>networksetup\<close> has printed for the active service, an
  empty list if it printed none or failed, and still the local server if it refuses them.
\<close>

definition mac_saved :: "mac_host \<Rightarrow> string" where
  "mac_saved h = (case mac_getdns h (DetectActiveService h) of None \<Rightarrow> [] | Some out \<Rightarrow> trim_space out)"

definition mac_words :: "mac_host \<Rightarrow> string list" where
  "mac_words h = (if mac_saved h \<noteq> [] \<and> \<not> contains (mac_saved h) arent_any then Fields (mac_saved h) else [''empty''])"

definition mac_back :: "mac_host \<Rightarrow> (string \<Rightarrow> string list \<Rightarrow> bool) \<Rightarrow> mac_settings \<Rightarrow> mac_settings" where
  "mac_back h ok d = d(DetectActiveService h :=
     (if ok (DetectActiveService h) (mac_words h) then (if mac_words h = [''empty''] then [] else mac_words h)
      else [''127.0.0.1'']))"

lemma mac_set_cmds:
  assumes "mac_session h ok s d" and "SetSystemDNS_darwin h Some [] s = (e, cmds, s')"
  shows "cmds = [SetServers (DetectActiveService h) [''127.0.0.1'']]"
    and "e = None \<longleftrightarrow> ok (DetectActiveService h) [''127.0.0.1'']"
    and "savedService s' = DetectActiveService h" and "savedDNS s' = mac_saved h"
  using assms by (auto simp: mac_session_def SetSystemDNS_darwin_def named_service_def mac_saved_def Let_def
      split: option.splits)

lemma stop_mdns_keeps: "fold (mac_exec ok) (stop_mdns free i n) d = d"
  by (induction n arbitrary: i) simp_all

lemma mac_restore_cmd:
  assumes "mac_session h ok s d" and "SetSystemDNS_darwin h Some [] s = (None, cmds, s')"
  shows "RestoreSystemDNS_darwin None [] s' =
    (None, [SetServers (DetectActiveService h) (mac_words h), HupMDNS], s'\<lparr>mac_crumb := None\<rparr>)"
  using mac_set_cmds(3,4) [OF assms] DetectActiveService_named [of h]
  by (simp add: RestoreSystemDNS_darwin_def named_service_def ResumeMDNSResponder_def mac_words_def Let_def)

interpretation mac: system_dns "mac_ops h free" "mac_exec ok" "mac_session h ok"
  "\<lambda>d. d (DetectActiveService h) = [''127.0.0.1'']" "\<lambda>s. mac_back h ok" for h free ok
proof
  let ?svc = "DetectActiveService h"
  show "fold (mac_exec ok) (op_pause (mac_ops h free)) d = d" for d
    by (simp add: mac_ops_def StopMDNSResponder_def stop_mdns_keeps)
  show "fold (mac_exec ok) (op_resume (mac_ops h free)) d = d" for d
    by (simp add: mac_ops_def ResumeMDNSResponder_def)
  show "fold (mac_exec ok) cmds d = d"
    if "mac_session h ok s d" "op_set (mac_ops h free) s = (Some x, cmds, s')" for s d x cmds s'
    using mac_set_cmds(1,2) [OF that(1)] that(2) by (simp add: mac_ops_def)
  show "fold (mac_exec ok) cmds d ?svc = [''127.0.0.1'']"
    if "mac_session h ok s d" "op_set (mac_ops h free) s = (None, cmds, s')" for s d cmds s'
    using mac_set_cmds(1,2) [OF that(1)] that(2) by (simp add: mac_ops_def)
  show "fold (mac_exec ok) cmds' (fold (mac_exec ok) cmds d) = mac_back h ok d"
    if m: "mac_session h ok s d" and set: "op_set (mac_ops h free) s = (None, cmds, s')"
      and res: "op_restore (mac_ops h free) s' = (r, cmds', s'')" for s d cmds s' r cmds' s''
  proof -
    have set': "SetSystemDNS_darwin h Some [] s = (None, cmds, s')"
      using set by (simp add: mac_ops_def)
    have "cmds = [SetServers ?svc [''127.0.0.1'']]" "ok ?svc [''127.0.0.1'']"
      using mac_set_cmds(1,2) [OF m set'] by simp_all
    moreover have "cmds' = [SetServers ?svc (mac_words h), HupMDNS]"
      using res mac_restore_cmd [OF m set'] by (simp add: mac_ops_def)
    ultimately show ?thesis
      by (simp add: mac_back_def)
  qed
qed

text \<open>The words of the settings that \<open>networksetup\<close> prints are the settings.\<close>

lemma mac_saved_shown:
  assumes "mac_getdns h (DetectActiveService h) = Some (mac_output (d (DetectActiveService h)) (DetectActiveService h))"
    and "\<forall>w \<in> set (d (DetectActiveService h)). is_word w"
  shows "mac_words h = words_of (d (DetectActiveService h))"
    and "contains (mac_saved h) arent_any \<longleftrightarrow> d (DetectActiveService h) = []"
    and "d (DetectActiveService h) \<noteq> [] \<Longrightarrow> mac_saved h = join_with [nl] (d (DetectActiveService h))"
proof (atomize (full), cases "d (DetectActiveService h) = []")
  case True
  let ?svc = "DetectActiveService h"
  let ?out = "''There '' @ arent_any @ '' DNS Servers set on '' @ ?svc @ ''.''"
  have "trimmed ?out"
    by (rule trimmed_visible) (simp_all add: visible_def)
  then have t: "mac_saved h = ?out"
    using assms(1) True trim_space_nl [of ?out] by (simp add: mac_saved_def mac_output_def)
  have "sublist arent_any ?out"
    by (metis sublist_appendI)
  then have c: "contains ?out arent_any"
    by (simp only: contains_iff)
  then show "mac_words h = words_of (d ?svc) \<and> contains (mac_saved h) arent_any = (d ?svc = []) \<and>
      (d ?svc \<noteq> [] \<longrightarrow> mac_saved h = join_with [nl] (d ?svc))"
    unfolding mac_words_def t by (simp add: True words_of_def)
next
  case False
  let ?svc = "DetectActiveService h"
  have j: "join_with [nl] (d ?svc) \<noteq> []" "trimmed (join_with [nl] (d ?svc))"
    using join_words_trimmed [OF False assms(2)] by simp_all
  then have t: "mac_saved h = join_with [nl] (d ?svc)"
    using assms(1) False trim_space_nl by (simp add: mac_saved_def mac_output_def)
  with False j contains_lines [OF assms(2)] fields_join_sep [OF _ assms(2), of nl]
  show "mac_words h = words_of (d ?svc) \<and> contains (mac_saved h) arent_any = (d ?svc = []) \<and>
      (d ?svc \<noteq> [] \<longrightarrow> mac_saved h = join_with [nl] (d ?svc))"
    by (simp add: mac_words_def words_of_def)
qed

lemma mac_back_same:
  assumes "mac_getdns h (DetectActiveService h) = Some (mac_output (d (DetectActiveService h)) (DetectActiveService h))"
    and "\<forall>w \<in> set (d (DetectActiveService h)). is_word w" and "d (DetectActiveService h) \<noteq> [''empty'']"
    and "ok (DetectActiveService h) (words_of (d (DetectActiveService h)))"
  shows "mac_back h ok d = d"
  using assms(3,4) unfolding mac_back_def mac_saved_shown(1) [where h = h and d = d, OF assms(1,2)]
  by (cases "d (DetectActiveService h) = []") (simp_all add: words_of_def fun_upd_idem_iff)

lemma mac_set_crumb:
  assumes "mac_session h ok s d" and "SetSystemDNS_darwin h Some [] s = (e, cmds, s')"
    and "mac_getdns h (DetectActiveService h) = Some (mac_output (d (DetectActiveService h)) (DetectActiveService h))"
    and "\<forall>w \<in> set (d (DetectActiveService h)). is_word w"
  shows "mac_crumb s' = Some (mac_backup (words_of (d (DetectActiveService h))) (DetectActiveService h))"
proof -
  note sv = mac_saved_shown(2,3) [where h = h and d = d, OF assms(3,4)]
  have "mac_crumb s' = Some ((if contains (mac_saved h) arent_any then ''empty'' else mac_saved h) @ [nl] @ DetectActiveService h @ [nl])"
    using assms(1-3) by (auto simp: mac_session_def SetSystemDNS_darwin_def named_service_def mac_saved_def Let_def)
  then show ?thesis
    using sv by (cases "d (DetectActiveService h) = []") (simp_all add: words_of_def mac_backup_def)
qed

subsection \<open>Windows\<close>

text \<open>The resolvers of each interface: from DHCP, or static addresses.\<close>

datatype win_dns = FromDhcp | StaticDns "string list"

type_synonym win_settings = "string \<Rightarrow> win_dns"

fun win_exec :: "(win_cmd \<Rightarrow> bool) \<Rightarrow> win_cmd \<Rightarrow> win_settings \<Rightarrow> win_settings" where
  "win_exec ok (SetDhcp i) d = (if ok (SetDhcp i) then d(i := FromDhcp) else d)"
| "win_exec ok (SetStatic i a) d = (if ok (SetStatic i a) then d(i := StaticDns [a]) else d)"
| "win_exec ok _ d = d"

text \<open>\<open>stopSystemDNS\<close> and \<open>resumeSystemDNS\<close> do nothing. The backup file can be written and removed.\<close>

definition win_ops :: "win_host \<Rightarrow> (string \<Rightarrow> ip option) \<Rightarrow> (win_state, win_cmd, win_error) dns_ops" where
  "win_ops h parse_ip = \<lparr>op_pause = [], op_resume = [],
     op_set = SetSystemDNS_windows h parse_ip Some, op_restore = RestoreSystemDNS_windows h None\<rparr>"

text \<open>
  Before a session: no backup is left from a crash, the connected interface has a name without blanks
  around it, and \<open>netsh\<close> reports an error exactly if it does not set the local server.
\<close>

definition win_session :: "win_host \<Rightarrow> (win_cmd \<Rightarrow> bool) \<Rightarrow> win_state \<Rightarrow> win_settings \<Rightarrow> bool" where
  "win_session h ok s d \<longleftrightarrow> win_crumb s = None \<and>
     (\<forall>iface. detectWindowsInterface h = Inr iface \<longrightarrow>
        iface \<noteq> [] \<and> trimmed iface \<and> (win_setdns h = None \<longleftrightarrow> ok (SetStatic iface ''127.0.0.1'')))"

text \<open>
  What a restore makes of the settings: \<open>getCurrentDNS\<close> takes the first address that \<open>netsh\<close> shows, if any,
  for a static setting; the local server remains if \<open>netsh\<close> refuses the command.
\<close>

definition win_shown :: "win_host \<Rightarrow> (string \<Rightarrow> ip option) \<Rightarrow> string \<Rightarrow> win_dns" where
  "win_shown h parse_ip iface =
     (let p = getCurrentDNS h parse_ip iface in if p = ''dhcp'' then FromDhcp else StaticDns [p])"

definition win_back :: "win_host \<Rightarrow> (string \<Rightarrow> ip option) \<Rightarrow> (win_cmd \<Rightarrow> bool) \<Rightarrow> win_settings \<Rightarrow> win_settings" where
  "win_back h parse_ip ok d =
     (case detectWindowsInterface h of
        Inl _ \<Rightarrow> d
      | Inr iface \<Rightarrow> d(iface :=
          (if ok (restore_cmd iface (getCurrentDNS h parse_ip iface)) then win_shown h parse_ip iface
           else StaticDns [''127.0.0.1''])))"

lemma win_set_cmds:
  assumes "win_session h ok s d" and "detectWindowsInterface h = Inr iface"
    and "SetSystemDNS_windows h parse_ip Some s = (e, cmds, s')"
  shows "cmds = SetStatic iface ''127.0.0.1'' # (if e = None then [FlushDns] else [])"
    and "e = None \<longleftrightarrow> ok (SetStatic iface ''127.0.0.1'')"
    and "win_crumb s' = Some (win_backup (getCurrentDNS h parse_ip iface) iface)"
proof -
  have s: "win_crumb s = None" "win_setdns h = None \<longleftrightarrow> ok (SetStatic iface ''127.0.0.1'')"
    using assms(1,2) by (simp_all add: win_session_def)
  show "cmds = SetStatic iface ''127.0.0.1'' # (if e = None then [FlushDns] else [])"
    "e = None \<longleftrightarrow> ok (SetStatic iface ''127.0.0.1'')" "win_crumb s' = Some (win_backup (getCurrentDNS h parse_ip iface) iface)"
    using assms(3) s by (cases "win_setdns h"; auto simp: SetSystemDNS_windows_def assms(2) win_backup_def Let_def)+
qed

lemma win_no_interface:
  assumes "detectWindowsInterface h = Inl x" and "SetSystemDNS_windows h parse_ip w s = (e, cmds, s')"
  shows "e = Some x" and "cmds = []"
  using assms by (simp_all add: SetSystemDNS_windows_def)

text \<open>The restore command, on an interface that points to the local server.\<close>

lemma exec_restore_cmd:
  assumes "detectWindowsInterface h = Inr iface"
  shows "win_exec ok (restore_cmd iface (getCurrentDNS h parse_ip iface)) (d(iface := StaticDns [''127.0.0.1''])) = win_back h parse_ip ok d"
  using getCurrentDNS_clean [of h parse_ip iface]
  by (simp add: restore_cmd_def win_back_def win_shown_def assms Let_def)

interpretation win: system_dns "win_ops h parse_ip" "win_exec ok" "win_session h ok"
  "\<lambda>d. \<exists>iface. detectWindowsInterface h = Inr iface \<and> d iface = StaticDns [''127.0.0.1'']"
  "\<lambda>s. win_back h parse_ip ok" for h parse_ip ok
proof
  show "fold (win_exec ok) (op_pause (win_ops h parse_ip)) d = d"
    "fold (win_exec ok) (op_resume (win_ops h parse_ip)) d = d" for d
    by (simp_all add: win_ops_def)
  show "fold (win_exec ok) cmds d = d"
    if "win_session h ok s d" "op_set (win_ops h parse_ip) s = (Some x, cmds, s')" for s d x cmds s'
  proof (cases "detectWindowsInterface h")
    case (Inl y)
    with that(2) win_no_interface [OF Inl, of parse_ip Some s] show ?thesis by (simp add: win_ops_def)
  next
    case (Inr iface)
    have "SetSystemDNS_windows h parse_ip Some s = (Some x, cmds, s')"
      using that(2) by (simp add: win_ops_def)
    from win_set_cmds(1,2) [OF that(1) Inr this] show ?thesis by simp
  qed
  show "\<exists>iface. detectWindowsInterface h = Inr iface \<and> fold (win_exec ok) cmds d iface = StaticDns [''127.0.0.1'']"
    if "win_session h ok s d" "op_set (win_ops h parse_ip) s = (None, cmds, s')" for s d cmds s'
  proof (cases "detectWindowsInterface h")
    case (Inl y)
    with that(2) win_no_interface [OF Inl, of parse_ip Some s] show ?thesis by (simp add: win_ops_def)
  next
    case (Inr iface)
    have "SetSystemDNS_windows h parse_ip Some s = (None, cmds, s')"
      using that(2) by (simp add: win_ops_def)
    from win_set_cmds(1,2) [OF that(1) Inr this] Inr show ?thesis by simp
  qed
  show "fold (win_exec ok) cmds' (fold (win_exec ok) cmds d) = win_back h parse_ip ok d"
    if w: "win_session h ok s d" and set: "op_set (win_ops h parse_ip) s = (None, cmds, s')"
      and res: "op_restore (win_ops h parse_ip) s' = (r, cmds', s'')" for s d cmds s' r cmds' s''
  proof (cases "detectWindowsInterface h")
    case (Inl y)
    with set win_no_interface [OF Inl, of parse_ip Some s] show ?thesis by (simp add: win_ops_def)
  next
    case (Inr iface)
    have set': "SetSystemDNS_windows h parse_ip Some s = (None, cmds, s')"
      using set by (simp add: win_ops_def)
    note c = win_set_cmds [OF w Inr set']
    have i: "iface \<noteq> []" "trimmed iface"
      using w Inr by (simp_all add: win_session_def)
    have p: "nl \<notin> set (getCurrentDNS h parse_ip iface)" "trimmed (getCurrentDNS h parse_ip iface)"
      "getCurrentDNS h parse_ip iface \<noteq> []"
      using getCurrentDNS_clean [of h parse_ip iface] by simp_all
    have "cmds' = [restore_cmd iface (getCurrentDNS h parse_ip iface), FlushDns]"
      using res win_restore(1) [OF c(3) p i(2,1), of h None] by (simp add: win_ops_def)
    then show ?thesis
      using c(1,2) exec_restore_cmd [OF Inr, of ok parse_ip d] by simp
  qed
qed

text \<open>When the settings come back: \<open>netsh\<close> accepts the command, and what it shows is all there was.\<close>

lemma win_back_same:
  assumes "detectWindowsInterface h = Inr iface" and "ok (restore_cmd iface (getCurrentDNS h parse_ip iface))"
  shows "win_back h parse_ip ok d = d \<longleftrightarrow> d iface = win_shown h parse_ip iface"
  using assms by (auto simp: win_back_def fun_upd_idem_iff)

subsection \<open>Properties\<close>


definition tun_sample_host :: tun_host where
  "tun_sample_host = \<lparr>th_child = (\<lambda>_. None), th_privileges = None, th_dns = None, th_tm = tm_ok, th_dns_stop = None\<rparr>"

lemma mac_sample_session:
  "mac_session mac_sample (\<lambda>_ _. True) mac_fresh (\<lambda>_. [''8.8.8.8'', ''1.1.1.1''])"
  by (simp add: mac_session_def mac_sample_def mac_fresh_def)



lemma win_sample_session:
  "win_session win_sample (\<lambda>_. True) \<lparr>savedInterface = [], win_crumb = None\<rparr> d"
proof -
  have "is_word ''Ethernet''"
    by (simp add: is_word_def visible_def)
  then show ?thesis
    using is_word_trimmed by (simp add: win_session_def win_sample_calls) (simp add: win_sample_def)
qed

lemma win_sample_run:
  "\<exists>effs s'. runTun (win_ops win_sample sample_ip) tun_sample_host False [''run''] sample_flags
     \<lparr>savedInterface = [], win_crumb = None\<rparr> = (TunStopped None, effs, s')"
proof -
  let ?s = "\<lparr>savedInterface = [], win_crumb = None\<rparr>"
  obtain e cmds s1 where set: "SetSystemDNS_windows win_sample sample_ip Some ?s = (e, cmds, s1)"
    by (rule prod_cases3)
  then have set': "op_set (win_ops win_sample sample_ip) ?s = (None, cmds, s1)"
    using win_set_cmds(2) [OF win_sample_session win_sample_calls(1) set] by (simp add: win_ops_def)
  obtain x cmds' s2 where res: "op_restore (win_ops win_sample sample_ip) s1 = (x, cmds', s2)"
    by (rule prod_cases3)
  have x: "x = None"
    using res by (auto simp: win_ops_def RestoreSystemDNS_windows_def Let_def split: option.splits)
  have "\<exists>effs m'. StartTun tm_ok (NewTunManager c) = (None, effs, m')" for c
    by (simp add: StartTun_def tm_ok_def NewTunManager_def initNetworking_def start_device_def Let_def)
  then obtain meffs m' where st: "StartTun tm_ok (NewTunManager \<lparr>tPorts = ecPorts (run_config sample_flags),
      tFakeTTL = ecFakeTTL (run_config sample_flags), tInterface = ecInterface (run_config sample_flags)\<rparr>) = (None, meffs, m')"
    by blast
  have doh: "ecDoHEnabled (run_config sample_flags)"
    by (simp add: run_config_def sample_flags_def)
  show ?thesis
    using set' res x st doh
    by (simp add: runTun_def tun_sample_host_def newTunEngine_def StartTunEngine_def StopTunEngine_def Let_def
        split: prod.split)
qed


end
