(* ===== verification/Nftables.thy ===== *)
theory Nftables
  imports RouterConfig GoFormat
begin

text \<open>
  Package router, the rules (pkg/router/nftables.go): \<open>BuildRuleSet\<close> renders the nft commands of a
  configuration, \<open>SetupBatch\<close> and \<open>TeardownBatch\<close> strip them to the statements fed to \<open>nft -f -\<close>,
  \<open>ShellScript\<close> prints them as a script. \<open>isp\<close> is the table of printable runes of the verb \<open>%q\<close>
  (theory GoFormat). What is proved: the batch holds exactly one line per command whatever the name
  of the interface, its lines are the ones listed here, and teardown deletes what setup created.
\<close>

subsection \<open>The renderer\<close>

record RuleSet =
  RuleTable :: string
  Setup :: "string list"
  Teardown :: "string list"

definition formatPortSet :: "u16 list \<Rightarrow> string" where
  "formatPortSet ports =
     (case ports of
        [port] \<Rightarrow> dec (unat port)
      | _ \<Rightarrow> ''{ '' @ join_with '', '' (map (\<lambda>port. dec (unat port)) ports) @ '' }'')"

definition formatMark :: "u32 \<Rightarrow> string" where
  "formatMark mark = ''0x'' @ hex_pad 8 (unat mark)"

abbreviation quot :: char where
  "quot \<equiv> CHR 0x27"

definition queue_rule :: "(nat \<Rightarrow> bool) \<Rightarrow> Config \<Rightarrow> string \<Rightarrow> string \<Rightarrow> u16 list \<Rightarrow> string" where
  "queue_rule isp cfg queueChain proto ports =
     ''nft add rule inet '' @ TableName cfg @ '' '' @ queueChain @ '' oifname '' @
     go_quote isp (WANInterface cfg) @ '' meta mark and '' @ formatMark (PacketMark cfg) @ '' == 0 '' @
     proto @ '' dport '' @ formatPortSet ports @ '' ct original packets 1-6 queue num '' @
     dec (unat (QueueNum cfg)) @ '' bypass''"

definition setup_commands :: "(nat \<Rightarrow> bool) \<Rightarrow> Config \<Rightarrow> string list" where
  "setup_commands isp cfg =
     (let queueChain = (if \<not> EnablePostNAT cfg then ''post'' else ''postnat'');
          priority = (if \<not> EnablePostNAT cfg then ''mangle'' else ''srcnat + 1'');
          setup =
            [''nft add table inet '' @ TableName cfg,
             ''nft '' @ [quot] @ ''add chain inet '' @ TableName cfg @ '' '' @ queueChain @
               '' { type filter hook postrouting priority '' @ priority @ ''; }'' @ [quot],
             queue_rule isp cfg queueChain ''tcp'' (TCPPorts cfg)];
          setup = (if EnableQUIC cfg \<and> length (UDPPorts cfg) > 0
            then setup @ [queue_rule isp cfg queueChain ''udp'' (UDPPorts cfg)] else setup)
      in setup @
        [''nft '' @ [quot] @ ''add chain inet '' @ TableName cfg @
           '' predefrag { type filter hook output priority -401; }'' @ [quot],
         ''nft add rule inet '' @ TableName cfg @ '' predefrag mark and '' @
           formatMark (PacketMark cfg) @ '' != 0 notrack''])"

definition BuildRuleSet :: "(nat \<Rightarrow> bool) \<Rightarrow> Config \<Rightarrow> config_error + RuleSet" where
  "BuildRuleSet isp cfg0 =
     (let cfg = Normalized cfg0 in
      case Validate cfg of
        Some err \<Rightarrow> Inl err
      | None \<Rightarrow> Inr \<lparr>RuleTable = TableName cfg, Setup = setup_commands isp cfg,
          Teardown = [''nft delete table inet '' @ TableName cfg]\<rparr>)"

definition nftStatement :: "string \<Rightarrow> string" where
  "nftStatement command =
     (let command = trim_prefix ''nft '' (trim_space command)
      in if length command \<ge> 2 \<and> command ! 0 = quot \<and> command ! (length command - 1) = quot
         then butlast (tl command) else command)"

fun renderBatch :: "string list \<Rightarrow> string" where
  "renderBatch [] = []"
| "renderBatch (cmd # commands) =
     (let stmt = nftStatement cmd
      in if stmt = [] then renderBatch commands else stmt @ [nl] @ renderBatch commands)"

definition SetupBatch :: "RuleSet \<Rightarrow> string" where
  "SetupBatch r = renderBatch (Setup r)"

definition TeardownBatch :: "RuleSet \<Rightarrow> string" where
  "TeardownBatch r = renderBatch (Teardown r)"

definition ShellScript :: "RuleSet \<Rightarrow> string" where
  "ShellScript r =
     ''#!/bin/sh'' @ [nl] @ ''set -eu'' @ [nl, nl] @ ''# Setup'' @ [nl] @
     concat (map (\<lambda>cmd. cmd @ [nl]) (Setup r)) @
     [nl] @ ''# Teardown'' @ [nl] @
     concat (map (\<lambda>cmd. ''# '' @ cmd @ [nl]) (Teardown r))"

subsection \<open>The statements\<close>

text \<open>
  What nft should read, written without the shell layer: the specification of the batch. A statement
  is a command without its \<open>nft\<close> prefix and its shell quotes.
\<close>

definition rule_statement :: "(nat \<Rightarrow> bool) \<Rightarrow> Config \<Rightarrow> string \<Rightarrow> string \<Rightarrow> u16 list \<Rightarrow> string" where
  "rule_statement isp cfg chain proto ports =
     ''add rule inet '' @ TableName cfg @ '' '' @ chain @ '' oifname '' @
     go_quote isp (WANInterface cfg) @ '' meta mark and '' @ formatMark (PacketMark cfg) @ '' == 0 '' @
     proto @ '' dport '' @ formatPortSet ports @ '' ct original packets 1-6 queue num '' @
     dec (unat (QueueNum cfg)) @ '' bypass''"

definition setup_statements :: "(nat \<Rightarrow> bool) \<Rightarrow> Config \<Rightarrow> string list" where
  "setup_statements isp cfg =
     (let chain = (if EnablePostNAT cfg then ''postnat'' else ''post'');
          priority = (if EnablePostNAT cfg then ''srcnat + 1'' else ''mangle'') in
      [''add table inet '' @ TableName cfg,
       ''add chain inet '' @ TableName cfg @ '' '' @ chain @
         '' { type filter hook postrouting priority '' @ priority @ ''; }'',
       rule_statement isp cfg chain ''tcp'' (TCPPorts cfg)] @
      (if EnableQUIC cfg then [rule_statement isp cfg chain ''udp'' (UDPPorts cfg)] else []) @
      [''add chain inet '' @ TableName cfg @ '' predefrag { type filter hook output priority -401; }'',
       ''add rule inet '' @ TableName cfg @ '' predefrag mark and '' @ formatMark (PacketMark cfg) @ '' != 0 notrack''])"

definition teardown_statement :: "Config \<Rightarrow> string" where
  "teardown_statement cfg = ''delete table inet '' @ TableName cfg"

subsection \<open>From commands to statements\<close>

lemma visible_simps [simp]:
  "visible CHR ''n''" "visible quot" "visible CHR ''s''" "visible CHR ''k''" "visible CHR ''a''"
  "visible CHR ''d''" "visible CHR ''#''"
  by (simp_all add: visible_def)

lemma nftStatement_unquoted:
  assumes "visible (last s)" and "s \<noteq> []" and "hd s \<noteq> quot"
  shows "nftStatement (''nft '' @ s) = s"
proof -
  have "trim_space (''nft '' @ s) = ''nft '' @ s"
    using assms by (intro trim_space_id trimmed_visible) auto
  then have "trim_prefix ''nft '' (trim_space (''nft '' @ s)) = s"
    by (simp only: trim_prefix_append)
  with assms(2,3) show ?thesis
    unfolding nftStatement_def by (simp add: hd_conv_nth Let_def)
qed

lemma nftStatement_quoted: "nftStatement (''nft '' @ [quot] @ s @ [quot]) = s"
proof -
  have "trim_space (''nft '' @ [quot] @ s @ [quot]) = ''nft '' @ [quot] @ s @ [quot]"
    by (intro trim_space_id trimmed_visible) auto
  then have "trim_prefix ''nft '' (trim_space (''nft '' @ [quot] @ s @ [quot])) = [quot] @ s @ [quot]"
    by (simp only: trim_prefix_append)
  then show ?thesis
    unfolding nftStatement_def by (simp add: Let_def nth_append)
qed

lemma renderBatch_eq:
  "(\<And>c. c \<in> set cmds \<Longrightarrow> nftStatement c \<noteq> []) \<Longrightarrow>
   renderBatch cmds = concat (map (\<lambda>c. nftStatement c @ [nl]) cmds)"
  by (induction cmds) (auto simp: Let_def)

lemma last_append_ne: "ys \<noteq> [] \<Longrightarrow> last (xs @ ys) = last ys"
  by simp

lemma nftStatement_queue_rule [simp]:
  "nftStatement (queue_rule isp cfg chain proto ports) = rule_statement isp cfg chain proto ports"
proof -
  have "queue_rule isp cfg chain proto ports = ''nft '' @ rule_statement isp cfg chain proto ports"
    by (simp add: queue_rule_def rule_statement_def)
  moreover have "last (rule_statement isp cfg chain proto ports) = CHR ''s''"
    by (simp add: rule_statement_def)
  moreover have "hd (rule_statement isp cfg chain proto ports) = CHR ''a''"
    "rule_statement isp cfg chain proto ports \<noteq> []"
    by (simp_all add: rule_statement_def)
  ultimately show ?thesis
    using nftStatement_unquoted [of "rule_statement isp cfg chain proto ports"] by simp
qed

lemma tableNameRE_last: "tableNameRE s \<Longrightarrow> s \<noteq> [] \<and> visible (last s)"
  by (auto simp: tableNameRE_iff list_all_iff word_char_visible)

lemma nftStatement_table:
  assumes "tableNameRE t"
  shows "nftStatement (''nft add table inet '' @ t) = ''add table inet '' @ t"
    and "nftStatement (''nft delete table inet '' @ t) = ''delete table inet '' @ t"
  using nftStatement_unquoted [of "''add table inet '' @ t"]
    nftStatement_unquoted [of "''delete table inet '' @ t"] tableNameRE_last [OF assms] by simp_all

lemma nftStatement_mark:
  "nftStatement (''nft add rule inet '' @ t @ '' predefrag mark and '' @ m @ '' != 0 notrack'') =
   ''add rule inet '' @ t @ '' predefrag mark and '' @ m @ '' != 0 notrack''"
  using nftStatement_unquoted [of "''add rule inet '' @ t @ '' predefrag mark and '' @ m @ '' != 0 notrack''"]
  by simp

lemma nftStatement_chain:
  "nftStatement (''nft '' @ [quot] @ ''add chain inet '' @ t @ '' '' @ c @
     '' { type filter hook postrouting priority '' @ p @ ''; }'' @ [quot]) =
   ''add chain inet '' @ t @ '' '' @ c @ '' { type filter hook postrouting priority '' @ p @ ''; }''"
  "nftStatement (''nft '' @ [quot] @ ''add chain inet '' @ t @
     '' predefrag { type filter hook output priority -401; }'' @ [quot]) =
   ''add chain inet '' @ t @ '' predefrag { type filter hook output priority -401; }''"
  using nftStatement_quoted [of "''add chain inet '' @ t @ '' '' @ c @
      '' { type filter hook postrouting priority '' @ p @ ''; }''"]
    nftStatement_quoted [of "''add chain inet '' @ t @ '' predefrag { type filter hook output priority -401; }''"]
  by simp_all

lemma setup_commands_statements:
  assumes "tableNameRE (TableName cfg)" and "UDPPorts cfg \<noteq> []"
  shows "map nftStatement (setup_commands isp cfg) = setup_statements isp cfg"
  using assms
  by (cases "EnablePostNAT cfg"; cases "EnableQUIC cfg")
    (simp_all only: setup_commands_def setup_statements_def Let_def if_True if_False simp_thms length_greater_0_conv
      map_append list.map nftStatement_table nftStatement_chain nftStatement_mark nftStatement_queue_rule append_assoc
      append_Nil)

lemma BuildRuleSet_Inr:
  assumes "BuildRuleSet isp cfg = Inr r"
  shows "Validate cfg = None"
    and "tableNameRE (TableName (Normalized cfg))"
    and "RuleTable r = TableName (Normalized cfg)"
    and "map nftStatement (Setup r) = setup_statements isp (Normalized cfg)"
    and "map nftStatement (Teardown r) = [teardown_statement (Normalized cfg)]"
proof -
  define n where "n = Normalized cfg"
  have v: "Validate n = None"
    and r: "r = \<lparr>RuleTable = TableName n, Setup = setup_commands isp n,
      Teardown = [''nft delete table inet '' @ TableName n]\<rparr>"
    using assms by (auto simp: BuildRuleSet_def n_def [symmetric] Let_def split: option.splits)
  then show t: "tableNameRE (TableName (Normalized cfg))"
    using Validate_None [of n] by (simp add: sound_config_def n_def)
  have u: "UDPPorts n \<noteq> []"
    by (simp add: n_def)
  show "Validate cfg = None"
    using v by (simp add: n_def)
  show "RuleTable r = TableName (Normalized cfg)" "map nftStatement (Setup r) = setup_statements isp (Normalized cfg)"
    "map nftStatement (Teardown r) = [teardown_statement (Normalized cfg)]"
    using t u by (simp_all only: r n_def [symmetric] RuleSet.simps simp_thms not_False_eq_True setup_commands_statements list.map
        nftStatement_table teardown_statement_def)
qed

lemma BuildRuleSet_Inl: "BuildRuleSet isp cfg = Inl e \<longleftrightarrow> Validate cfg = Some e"
  by (simp add: BuildRuleSet_def Let_def split: option.split)


subsection \<open>One line per statement\<close>

lemma nl_not_table: "tableNameRE t \<Longrightarrow> nl \<notin> set t"
  by (auto simp: tableNameRE_iff list_all_iff is_word_char_def is_alpha_def)

lemma nl_not_hex_pad [simp]: "nl \<notin> set (hex_pad k n)"
  using hex_pad_digits [of nl k n] by (auto simp: is_hex_def is_digit_def)

lemma nl_not_dec [simp]: "nl \<notin> set (dec n)"
  by (rule not_in_dec) (simp add: is_digit_def)

lemma nl_not_mark [simp]: "nl \<notin> set (formatMark m)"
  by (simp add: formatMark_def)

lemma set_join_with: "set (join_with sep xs) \<subseteq> set sep \<union> \<Union> (set ` set xs)"
  by (induction sep xs rule: join_with.induct) auto

lemma nl_not_ports [simp]: "nl \<notin> set (formatPortSet ports)"
proof -
  have "nl \<notin> set (join_with '', '' (map (\<lambda>p. dec (unat p)) ps))" for ps :: "u16 list"
    using set_join_with [of "'', ''" "map (\<lambda>p. dec (unat p)) ps"] by auto
  from this [of ports] show ?thesis
    by (auto simp: formatPortSet_def split: list.split)
qed

lemma nl_not_rule: "tableNameRE (TableName cfg) \<Longrightarrow> nl \<notin> set ch \<Longrightarrow> nl \<notin> set pr \<Longrightarrow>
  nl \<notin> set (rule_statement isp cfg ch pr ports)"
  by (simp add: rule_statement_def nl_not_table go_quote_no_newline)

lemma nl_not_setup:
  "tableNameRE (TableName cfg) \<Longrightarrow> s \<in> set (setup_statements isp cfg) \<Longrightarrow> nl \<notin> set s \<and> s \<noteq> []"
  using nl_not_rule [of cfg]
  by (auto simp: setup_statements_def Let_def nl_not_table rule_statement_def go_quote_no_newline
      split: if_splits)

lemma split_lines_concat:
  "(\<And>s. s \<in> set ss \<Longrightarrow> nl \<notin> set s) \<Longrightarrow> split_on nl (concat (map (\<lambda>s. s @ [nl]) ss)) = ss @ [[]]"
  by (induction ss) (simp_all add: split_on_append)

lemma split_renderBatch:
  assumes "map nftStatement cmds = ss" and "\<And>s. s \<in> set ss \<Longrightarrow> nl \<notin> set s \<and> s \<noteq> []"
  shows "split_on nl (renderBatch cmds) = ss @ [[]]"
proof -
  have "renderBatch cmds = concat (map (\<lambda>s. s @ [nl]) ss)"
    using assms by (subst renderBatch_eq) (auto simp: o_def)
  with assms(2) show ?thesis
    by (simp add: split_lines_concat)
qed

lemma batch_lines:
  assumes "BuildRuleSet isp cfg = Inr r"
  shows "split_on nl (SetupBatch r) = setup_statements isp (Normalized cfg) @ [[]]"
    and "split_on nl (TeardownBatch r) = [teardown_statement (Normalized cfg), []]"
proof -
  note t = BuildRuleSet_Inr(2) [OF assms]
  show "split_on nl (SetupBatch r) = setup_statements isp (Normalized cfg) @ [[]]"
    unfolding SetupBatch_def
    by (rule split_renderBatch [OF BuildRuleSet_Inr(4) [OF assms] nl_not_setup [OF t]])
  show "split_on nl (TeardownBatch r) = [teardown_statement (Normalized cfg), []]"
    unfolding TeardownBatch_def using nl_not_table [OF t]
    by (subst split_renderBatch [OF BuildRuleSet_Inr(5) [OF assms]])
      (auto simp: teardown_statement_def simp del: Normalized_fields)
qed

subsection \<open>Reading ports and marks back\<close>

lemma unhex_formatMark: "unhex (drop 2 (formatMark m)) = unat m"
  using unsigned_less [of m, where ?'a = nat] by (simp add: formatMark_def)

lemma formatMark_inject: "formatMark m = formatMark n \<longleftrightarrow> m = n"
  by (metis unhex_formatMark unsigned_word_eqI)

text \<open>A reader of the port set: the digits between the separators.\<close>

definition read_ports :: "string \<Rightarrow> nat list" where
  "read_ports s =
     map undec (filter (\<lambda>w. w \<noteq> [] \<and> list_all is_digit w)
       (split_on CHR '' '' (filter (\<lambda>c. c \<noteq> CHR '','') s)))"

lemma filter_comma_join:
  "CHR '','' \<notin> \<Union> (set ` set ws) \<Longrightarrow>
   filter (\<lambda>c. c \<noteq> CHR '','') (join_with '', '' ws) = join_with '' '' ws"
  by (induction "'', ''" ws rule: join_with.induct) (auto simp: filter_id_conv)

lemma split_on_snoc: "split_on c (s @ c # t) = split_on c s @ split_on c t"
proof (induction s)
  case (Cons x s)
  then show ?case
    by (cases "split_on c s") auto
qed simp

lemma comma_not_dec: "CHR '','' \<notin> set (dec n)" "CHR '' '' \<notin> set (dec n)"
  by (rule not_in_dec; simp add: is_digit_def)+

lemma read_formatPortSet:
  assumes "ports \<noteq> []"
  shows "read_ports (formatPortSet ports) = map unat ports"
proof -
  let ?ws = "map (\<lambda>p. dec (unat p)) ports"
  have digits: "list_all is_digit (dec n)" for n
    using dec_digits by (auto simp: list_all_iff)
  have f: "filter (\<lambda>c. c \<noteq> CHR '','') (dec n) = dec n" for n
    using comma_not_dec(1) by (auto simp: filter_id_conv)
  show ?thesis
  proof (cases "length ports = 1")
    case True
    then obtain p where "ports = [p]" by (auto simp: length_Suc_conv)
    then show ?thesis
      by (simp add: read_ports_def formatPortSet_def f comma_not_dec digits)
  next
    case False
    then have "formatPortSet ports = ''{ '' @ join_with '', '' ?ws @ '' }''"
      using assms by (auto simp: formatPortSet_def split: list.split)
    moreover have "filter (\<lambda>c. c \<noteq> CHR '','') (''{ '' @ join_with '', '' ?ws @ '' }'')
        = ''{'' @ CHR '' '' # join_with '' '' ?ws @ CHR '' '' # ''}''"
      using comma_not_dec by (simp add: filter_comma_join)
    moreover have "split_on CHR '' '' (''{'' @ CHR '' '' # join_with '' '' ?ws @ CHR '' '' # ''}'')
        = [''{''] @ ?ws @ [''}'']"
      using assms comma_not_dec by (simp only: split_on_snoc) (subst split_join, auto)
    ultimately have "read_ports (formatPortSet ports) =
        map undec (filter (\<lambda>w. w \<noteq> [] \<and> list_all is_digit w) ([''{''] @ ?ws @ [''}'']))"
      by (simp only: read_ports_def)
    also have "\<dots> = map undec ?ws"
      by (simp add: is_digit_def [of "CHR ''{''"] is_digit_def [of "CHR ''}''"] filter_map o_def digits)
    finally show ?thesis by (simp add: o_def)
  qed
qed


subsection \<open>The script\<close>

lemma queue_rule_interface:
  "sublist ('' oifname '' @ go_quote isp (WANInterface cfg)) (queue_rule isp cfg ch pr ports)"
proof -
  have "queue_rule isp cfg ch pr ports =
      (''nft add rule inet '' @ TableName cfg @ '' '' @ ch) @
      ('' oifname '' @ go_quote isp (WANInterface cfg)) @
      ('' meta mark and '' @ formatMark (PacketMark cfg) @ '' == 0 '' @ pr @ '' dport '' @
       formatPortSet ports @ '' ct original packets 1-6 queue num '' @ dec (unat (QueueNum cfg)) @ '' bypass'')"
    unfolding queue_rule_def by (simp only: append_assoc)
  then show ?thesis
    by (simp only: sublist_appendI)
qed

lemma script_command:
  assumes "cmd \<in> set (Setup r)"
  shows "sublist cmd (ShellScript r)"
proof -
  obtain pre post where "Setup r = pre @ cmd # post"
    using split_list [OF assms] by blast
  then have "ShellScript r =
      (''#!/bin/sh'' @ [nl] @ ''set -eu'' @ [nl, nl] @ ''# Setup'' @ [nl] @ concat (map (\<lambda>c. c @ [nl]) pre)) @
      cmd @ ([nl] @ concat (map (\<lambda>c. c @ [nl]) post) @ [nl] @ ''# Teardown'' @ [nl] @
        concat (map (\<lambda>cmd. ''# '' @ cmd @ [nl]) (Teardown r)))"
    by (simp add: ShellScript_def)
  then show ?thesis
    by (simp only: sublist_appendI)
qed

subsection \<open>Properties\<close>

text \<open>
  C36. The batch handed to nft is the specification, whatever bytes the interface name holds: split
  at line breaks it is exactly the list of statements of \<open>setup_statements\<close> for the normalised
  configuration, so no field can inject a further statement and none is lost.
\<close>

theorem SetupBatch_lines:
  assumes "BuildRuleSet isp cfg = Inr r"
  shows "split_on nl (SetupBatch r) = setup_statements isp (Normalized cfg) @ [[]]"
  using assms by (rule batch_lines(1))

text \<open>\<open>strconv.IsPrint\<close> on the ASCII range, as a concrete table of printable runes.\<close>

definition ascii_print :: "nat \<Rightarrow> bool" where
  "ascii_print n \<longleftrightarrow> 32 \<le> n \<and> n < 127"

lemma eth0_valid: "Validate (DefaultConfig\<lparr>WANInterface := ''eth0''\<rparr>) = None"
proof -
  have "trim_space ''eth0'' = ''eth0''"
    by (intro trim_space_id trimmed_visible) (simp_all add: visible_def)
  moreover have "tableNameRE ''gecit_router''"
    by (simp add: is_alpha_def is_word_char_def)
  ultimately show ?thesis
    by (simp add: Validate_None sound_config_def DefaultConfig_def)
qed

lemma BuildRuleSet_valid: "Validate cfg = None \<Longrightarrow> \<exists>r. BuildRuleSet isp cfg = Inr r"
  by (simp add: BuildRuleSet_def Let_def)

theorem SetupBatch_lines_witness:
  "\<exists>r. BuildRuleSet ascii_print (DefaultConfig\<lparr>WANInterface := ''eth0''\<rparr>) = Inr r \<and>
     length (split_on nl (SetupBatch r)) = 6"
  using BuildRuleSet_valid [OF eth0_valid, of ascii_print]
    SetupBatch_lines [of ascii_print "DefaultConfig\<lparr>WANInterface := ''eth0''\<rparr>"]
  by (auto simp: setup_statements_def DefaultConfig_def Let_def)

text \<open>
  Teardown undoes setup: the first setup statement creates a table whose name is a plain
  identifier of at most 32 characters, every later one works inside that table, and the teardown
  batch is the one statement that deletes it.
\<close>

theorem TeardownBatch_deletes_table:
  assumes "BuildRuleSet isp cfg = Inr r"
  shows "split_on nl (TeardownBatch r) = [''delete table inet '' @ RuleTable r, []] \<and>
    tableNameRE (RuleTable r) \<and>
    hd (split_on nl (SetupBatch r)) = ''add table inet '' @ RuleTable r \<and>
    (\<forall>s \<in> set (butlast (tl (split_on nl (SetupBatch r)))).
       (\<exists>rest. s = ''add chain inet '' @ RuleTable r @ '' '' @ rest) \<or>
       (\<exists>rest. s = ''add rule inet '' @ RuleTable r @ '' '' @ rest))"
proof -
  note b = BuildRuleSet_Inr [OF assms]
  have cmds: "(\<exists>rest. s = ''add chain inet '' @ RuleTable r @ '' '' @ rest) \<or>
      (\<exists>rest. s = ''add rule inet '' @ RuleTable r @ '' '' @ rest)"
    if "s \<in> set (tl (setup_statements isp (Normalized cfg)))" for s
    using that unfolding b(3) by (auto simp: setup_statements_def rule_statement_def Let_def
        simp del: Normalized_fields split: if_splits)
  have ne: "tl (setup_statements isp (Normalized cfg)) \<noteq> []"
    by (simp add: setup_statements_def Let_def)
  have "hd (split_on nl (SetupBatch r)) = ''add table inet '' @ RuleTable r"
    unfolding batch_lines(1) [OF assms] b(3)
    by (simp add: setup_statements_def Let_def del: Normalized_fields)
  moreover have "butlast (tl (split_on nl (SetupBatch r))) = tl (setup_statements isp (Normalized cfg))"
    unfolding batch_lines(1) [OF assms] using ne
    by (cases "setup_statements isp (Normalized cfg)") simp_all
  ultimately show ?thesis
    using cmds b(2) batch_lines(2) [OF assms] unfolding b(3) teardown_statement_def by simp
qed

theorem TeardownBatch_deletes_table_witness:
  "\<exists>r. BuildRuleSet ascii_print (DefaultConfig\<lparr>WANInterface := ''eth0''\<rparr>) = Inr r \<and> tableNameRE (RuleTable r) \<and>
     split_on nl (TeardownBatch r) = [''delete table inet '' @ RuleTable r, []]"
  using BuildRuleSet_valid [OF eth0_valid, of ascii_print]
    TeardownBatch_deletes_table [of ascii_print "DefaultConfig\<lparr>WANInterface := ''eth0''\<rparr>"] by blast

text \<open>
  The match expressions of the rules carry the configured values: the port set and the mark that
  are printed read back as the configured ports, in order, and the configured mark.
\<close>

theorem match_values_roundtrip:
  assumes "ports \<noteq> []"
  shows "read_ports (formatPortSet ports) = map unat ports \<and> unhex (drop 2 (formatMark mark)) = unat mark"
  using assms by (simp add: read_formatPortSet unhex_formatMark)

theorem match_values_roundtrip_witness:
  "read_ports (formatPortSet [443, 8443]) = [443, 8443] \<and> unhex (drop 2 (formatMark 0x40000000)) = 0x40000000"
  using match_values_roundtrip [of "[443, 8443]" "0x40000000"] by simp

text \<open>
  The verb \<open>%q\<close> quotes the interface for nft but not for a shell: with the interface name
  \<open>$(x)\<close>, which \<open>Validate\<close> accepts, a line of \<open>ShellScript\<close> holds the command substitution
  unescaped between double quotes, so running the printed script executes \<open>x\<close>.
\<close>

theorem ShellScript_substitution:
  "\<exists>r. BuildRuleSet isp (DefaultConfig\<lparr>WANInterface := ''$(x)''\<rparr>) = Inr r \<and>
     sublist ('' oifname '' @ [CHR 0x22] @ ''$(x)'' @ [CHR 0x22]) (ShellScript r)"
proof -
  let ?c = "DefaultConfig\<lparr>WANInterface := ''$(x)''\<rparr>"
  have t: "trim_space ''$(x)'' = ''$(x)''"
    by (intro trim_space_id trimmed_visible) (simp_all add: visible_def)
  have "tableNameRE ''gecit_router''"
    by (simp add: is_alpha_def is_word_char_def)
  with t have "Validate ?c = None"
    by (simp add: Validate_None sound_config_def DefaultConfig_def)
  then have r: "BuildRuleSet isp ?c = Inr \<lparr>RuleTable = TableName (Normalized ?c),
      Setup = setup_commands isp (Normalized ?c), Teardown = [''nft delete table inet '' @ TableName (Normalized ?c)]\<rparr>"
    by (simp add: BuildRuleSet_def Let_def)
  define qr where "qr = queue_rule isp (Normalized ?c) ''postnat'' ''tcp'' (TCPPorts (Normalized ?c))"
  have "go_quote isp ''$(x)'' = [CHR 0x22] @ ''$(x)'' @ [CHR 0x22]"
    by (rule go_quote_plain) (simp add: plain_def)
  moreover have "WANInterface (Normalized ?c) = ''$(x)''"
    using t by simp
  ultimately have qr: "sublist ('' oifname '' @ [CHR 0x22] @ ''$(x)'' @ [CHR 0x22]) qr"
    using queue_rule_interface [of isp "Normalized ?c" "''postnat''" "''tcp''" "TCPPorts (Normalized ?c)"]
    by (simp only: qr_def)
  have "qr \<in> set (setup_commands isp (Normalized ?c))"
    by (simp add: setup_commands_def Let_def DefaultConfig_def qr_def)
  moreover define rs where "rs = \<lparr>RuleTable = TableName (Normalized ?c), Setup = setup_commands isp (Normalized ?c),
    Teardown = [''nft delete table inet '' @ TableName (Normalized ?c)]\<rparr>"
  moreover have "Setup rs = setup_commands isp (Normalized ?c)"
    by (simp only: rs_def RuleSet.select_convs)
  ultimately have "sublist qr (ShellScript rs)"
    using script_command [of qr rs] by (simp only:)
  with qr have "sublist ('' oifname '' @ [CHR 0x22] @ ''$(x)'' @ [CHR 0x22]) (ShellScript rs)"
    by (rule sublist_order.order_trans)
  with r show ?thesis
    unfolding rs_def [symmetric] by blast
qed

end
