(* ===== verification/RouterEngine.thy ===== *)
theory RouterEngine
  imports Nftables
begin

text \<open>
  Package router, the lifecycle (pkg/router/engine.go): \<open>NewWithLogger\<close>, \<open>Start\<close> with its rollback,
  and \<open>Stop\<close>. The runner factory, the runner, the batch applier and the channel are interfaces of
  the Go code; a call of one of them is an effect of the trace and its result is an argument. What is
  proved: which rules are installed after every outcome, that a failed start leaves nothing behind, unless
  nft refuses to delete the table, and \<open>Stop\<close> releases everything once, a refinement of the abstract lifecycle, and two ways in which
  \<open>Start\<close> departs from it: a runner that returns without an error, and two concurrent calls.
\<close>

subsection \<open>State, effects and results of the environment\<close>

datatype engine_effect =
    NewRunner
  | ApplyBatch string bool
  | RunnerStart
  | RunnerStop
  | CancelCtx
  | AwaitDone

text \<open>The flag of \<open>ApplyBatch\<close> tells whether the batch was accepted. The four pointers are nil or set together; each is a flag of its own, as each is a field.\<close>

record Engine =
  eng_cfg :: Config
  runner_set :: bool
  cancel_set :: bool
  doneCh_set :: bool
  eng_rules :: RuleSet
  rulesInstalled :: bool

datatype engine_error =
    ConfigError config_error
  | ErrAlreadyRunning
  | FactoryError string
  | InstallError string
  | StartError string
  | StopError string
  | DoneError string
  | RemoveAfterStartError string
  | RemoveError string
  | RollbackFailed string engine_error

text \<open>
  What the calls made by one \<open>Start\<close> return. \<open>start_outcome\<close> is what arrives on \<open>doneCh\<close> before the
  grace period ends: \<open>None\<close> if nothing does, \<open>Some None\<close> if \<open>runner.Start\<close> returns nil, \<open>Some (Some e)\<close>
  if it returns an error.
\<close>

record start_env =
  factory_result :: "string err"
  setup_result :: "string err"
  start_outcome :: "string err option"
  rollback_stop :: "string err"
  rollback_teardown :: "string err"

text \<open>An error received from \<open>doneCh\<close> by \<open>Stop\<close>: \<open>context.Canceled\<close> or another one.\<close>

datatype done_error = Canceled | OtherError string

record stop_env =
  stop_result :: "string err"
  done_result :: "done_error err"
  teardown_result :: "string err"

definition empty_RuleSet :: RuleSet where
  "empty_RuleSet = \<lparr>RuleTable = [], Setup = [], Teardown = []\<rparr>"

definition NewEngine :: "Config \<Rightarrow> Engine" where
  "NewEngine c = \<lparr>eng_cfg = Normalized c, runner_set = False, cancel_set = False, doneCh_set = False,
     eng_rules = empty_RuleSet, rulesInstalled = False\<rparr>"

subsection \<open>Start, rollbackStartup and Stop\<close>

definition clear :: "Engine \<Rightarrow> Engine" where
  "clear e = e\<lparr>runner_set := False, cancel_set := False, doneCh_set := False, rulesInstalled := False\<rparr>"

definition rollbackStartup ::
  "start_env \<Rightarrow> RuleSet \<Rightarrow> Engine \<Rightarrow> engine_error err \<times> engine_effect list \<times> Engine" where
  "rollbackStartup env rules e =
     (let e = clear e;
          firstErr = map_option StopError (rollback_stop env);
          firstErr = (case rollback_teardown env of
            Some err \<Rightarrow> if firstErr = None then Some (RemoveAfterStartError err) else firstErr
          | None \<Rightarrow> firstErr)
      in (firstErr, [RunnerStop, ApplyBatch (TeardownBatch rules) (rollback_teardown env = None)], e))"

definition StartEngine ::
  "(nat \<Rightarrow> bool) \<Rightarrow> start_env \<Rightarrow> Engine \<Rightarrow> engine_error err \<times> engine_effect list \<times> Engine" where
  "StartEngine isp env e =
     (case Validate (eng_cfg e) of
        Some err \<Rightarrow> (Some (ConfigError err), [], e)
      | None \<Rightarrow>
     (case BuildRuleSet isp (eng_cfg e) of
        Inl err \<Rightarrow> (Some (ConfigError err), [], e)
      | Inr rules \<Rightarrow>
          if runner_set e then (Some ErrAlreadyRunning, [], e)
          else (case factory_result env of
            Some err \<Rightarrow> (Some (FactoryError err), [NewRunner], e)
          | None \<Rightarrow>
              let effs = [NewRunner, ApplyBatch (SetupBatch rules) (setup_result env = None)] in
              (case setup_result env of
                 Some err \<Rightarrow> (Some (InstallError err), effs, e)
               | None \<Rightarrow>
                   let e = e\<lparr>runner_set := True, cancel_set := True, doneCh_set := True, eng_rules := rules,
                         rulesInstalled := True\<rparr>;
                       effs = effs @ [RunnerStart] in
                   (case start_outcome env of
                      Some err \<Rightarrow>
                        let (rollbackErr, effs', e) = rollbackStartup env rules e in
                        (case rollbackErr of
                           Some re \<Rightarrow>
                             (case err of
                                Some se \<Rightarrow> (Some (RollbackFailed se re), effs @ effs', e)
                              | None \<Rightarrow> (Some re, effs @ effs', e))
                         | None \<Rightarrow> (map_option StartError err, effs @ effs', e))
                    | None \<Rightarrow> (None, effs, e))))))"

definition StopEngine :: "stop_env \<Rightarrow> Engine \<Rightarrow> engine_error err \<times> engine_effect list \<times> Engine" where
  "StopEngine env e0 =
     (let e = clear e0;
          effs = (if cancel_set e0 then [CancelCtx] else []);
          (firstErr, effs) =
            (if runner_set e0 then (map_option StopError (stop_result env), effs @ [RunnerStop]) else (None, effs));
          (firstErr, effs) =
            (if doneCh_set e0
             then ((case done_result env of
                      Some (OtherError err) \<Rightarrow> if firstErr = None then Some (DoneError err) else firstErr
                    | _ \<Rightarrow> firstErr), effs @ [AwaitDone])
             else (firstErr, effs));
          (firstErr, effs) =
            (if rulesInstalled e0
             then ((case teardown_result env of
                      Some err \<Rightarrow> if firstErr = None then Some (RemoveError err) else firstErr
                    | None \<Rightarrow> firstErr), effs @ [ApplyBatch (TeardownBatch (eng_rules e0)) (teardown_result env = None)])
             else (firstErr, effs))
      in (firstErr, effs, e))"

subsection \<open>What an engine tells about itself\<close>

definition NewDefault :: "Config \<Rightarrow> Engine" where
  "NewDefault c = NewEngine c"

definition ModeOf :: "Engine \<Rightarrow> string" where
  "ModeOf e = ''router-'' @ Backend (eng_cfg e)"

definition ConfigOf :: "Engine \<Rightarrow> Config" where
  "ConfigOf e = eng_cfg e"

definition ValidateEngine :: "Engine \<Rightarrow> config_error err" where
  "ValidateEngine e = Validate (eng_cfg e)"

definition RuleSetOf :: "(nat \<Rightarrow> bool) \<Rightarrow> Engine \<Rightarrow> config_error + RuleSet" where
  "RuleSetOf isp e = BuildRuleSet isp (eng_cfg e)"

text \<open>The rules \<open>RuleSet\<close> shows are the ones \<open>Start\<close> installs and rolls back, and an engine that validates shows some.\<close>

lemma RuleSetOf_installed:
  assumes "StartEngine isp env e = (err, effs, e')" and "ApplyBatch b accepted \<in> set effs"
  shows "\<exists>rules. RuleSetOf isp e = Inr rules \<and> b \<in> {SetupBatch rules, TeardownBatch rules} \<and> ValidateEngine e = None"
  using assms
  by (auto simp: StartEngine_def rollbackStartup_def RuleSetOf_def ValidateEngine_def Let_def
      split: option.splits sum.splits if_splits)


subsection \<open>The system under the engine\<close>

text \<open>
  The kernel's side, for the names of tables: an applied setup batch adds its table, an applied
  teardown batch deletes it. A batch the environment refuses changes nothing, since nft applies a
  batch as one transaction.
\<close>

definition nft_apply :: "RuleSet \<Rightarrow> string \<Rightarrow> string set \<Rightarrow> string set" where
  "nft_apply rules batch tables =
     (if batch = SetupBatch rules then insert (RuleTable rules) tables
      else if batch = TeardownBatch rules then tables - {RuleTable rules} else tables)"

fun nft_effects :: "RuleSet \<Rightarrow> engine_effect list \<Rightarrow> string set \<Rightarrow> string set" where
  "nft_effects rules [] tables = tables"
| "nft_effects rules (ApplyBatch b ok # effs) tables =
     nft_effects rules effs (if ok then nft_apply rules b tables else tables)"
| "nft_effects rules (_ # effs) tables = nft_effects rules effs tables"

lemma nft_effects_append [simp]:
  "nft_effects rules (xs @ ys) tables = nft_effects rules ys (nft_effects rules xs tables)"
  by (induction rules xs tables rule: nft_effects.induct) auto

lemma batches_differ:
  assumes "BuildRuleSet isp c = Inr r"
  shows "SetupBatch r \<noteq> TeardownBatch r"
proof
  assume "SetupBatch r = TeardownBatch r"
  then have "setup_statements isp (Normalized c) @ [[]] = [teardown_statement (Normalized c), []]"
    using batch_lines [OF assms] by metis
  then show False
    by (simp add: setup_statements_def Let_def split: if_splits)
qed

subsection \<open>The abstract lifecycle\<close>

text \<open>
  What \<open>Start\<close> and \<open>Stop\<close> promise: the engine is stopped or running with a rule set; a start that
  reports success makes a stopped engine running; a failed start, and a stop, make it stopped.
\<close>

datatype lifecycle = Stopped | Running RuleSet

definition lifecycle_of :: "Engine \<Rightarrow> lifecycle" where
  "lifecycle_of e = (if runner_set e then Running (eng_rules e) else Stopped)"

definition engine_inv :: "(nat \<Rightarrow> bool) \<Rightarrow> Engine \<Rightarrow> bool" where
  "engine_inv isp e \<longleftrightarrow> cancel_set e = runner_set e \<and> doneCh_set e = runner_set e \<and>
     rulesInstalled e = runner_set e \<and> (runner_set e \<longrightarrow> BuildRuleSet isp (eng_cfg e) = Inr (eng_rules e))"

lemma engine_inv_New: "engine_inv isp (NewEngine c)"
  by (simp add: engine_inv_def NewEngine_def)

lemma engine_inv_clear: "engine_inv isp (clear e)"
  by (simp add: engine_inv_def clear_def)

lemma StartEngine_running:
  "runner_set e \<Longrightarrow> \<exists>err. StartEngine isp env e = (Some err, [], e)"
  by (auto simp: StartEngine_def split: option.splits sum.splits)

lemma StartEngine_outcomes:
  assumes "\<not> runner_set e"
  obtains (refused) err where "StartEngine isp env e = (Some (ConfigError err), [], e)"
  | (factory) err where "StartEngine isp env e = (Some (FactoryError err), [NewRunner], e)"
  | (install) rules err where "BuildRuleSet isp (eng_cfg e) = Inr rules" "setup_result env = Some err"
      "StartEngine isp env e = (Some (InstallError err), [NewRunner, ApplyBatch (SetupBatch rules) False], e)"
  | (active) rules where "BuildRuleSet isp (eng_cfg e) = Inr rules" "setup_result env = None" "start_outcome env = None"
      "StartEngine isp env e = (None, [NewRunner, ApplyBatch (SetupBatch rules) True, RunnerStart],
         e\<lparr>runner_set := True, cancel_set := True, doneCh_set := True, eng_rules := rules, rulesInstalled := True\<rparr>)"
  | (rollback) rules err res where "BuildRuleSet isp (eng_cfg e) = Inr rules" "setup_result env = None" "start_outcome env = Some err"
      "StartEngine isp env e = (res,
         [NewRunner, ApplyBatch (SetupBatch rules) True, RunnerStart, RunnerStop,
          ApplyBatch (TeardownBatch rules) (rollback_teardown env = None)],
         clear (e\<lparr>eng_rules := rules\<rparr>))"
      "res = None \<longleftrightarrow> err = None \<and> rollback_stop env = None \<and> rollback_teardown env = None"
proof (cases "Validate (eng_cfg e)")
  case (Some err)
  then show ?thesis by (intro refused [of err]) (simp add: StartEngine_def)
next
  case None
  then obtain rules where r: "BuildRuleSet isp (eng_cfg e) = Inr rules"
    using BuildRuleSet_valid by blast
  show ?thesis
  proof (cases "factory_result env")
    case (Some err)
    with assms None r show ?thesis by (intro factory [of err]) (simp add: StartEngine_def)
  next
    case f: None
    show ?thesis
    proof (cases "setup_result env")
      case (Some err)
      with assms None r f show ?thesis by (intro install [of rules err]) (simp_all add: StartEngine_def)
    next
      case s: None
      show ?thesis
      proof (cases "start_outcome env")
        case o: None
        with assms None r f s show ?thesis by (intro active [of rules]) (simp_all add: StartEngine_def)
      next
        case (Some err)
        with assms None r f s show ?thesis
          by (intro rollback [of rules err "fst (StartEngine isp env e)"])
            (cases err; cases "rollback_stop env"; cases "rollback_teardown env";
              simp add: StartEngine_def rollbackStartup_def clear_def Let_def)+
      qed
    qed
  qed
qed


lemma StopEngine_idle:
  "engine_inv isp e \<Longrightarrow> \<not> runner_set e \<Longrightarrow> StopEngine env e = (None, [], clear e)"
  by (simp add: StopEngine_def engine_inv_def)

lemma StopEngine_running:
  "engine_inv isp e \<Longrightarrow> runner_set e \<Longrightarrow>
   \<exists>err. StopEngine env e = (err, [CancelCtx, RunnerStop, AwaitDone,
     ApplyBatch (TeardownBatch (eng_rules e)) (teardown_result env = None)], clear e)"
  by (simp add: StopEngine_def engine_inv_def Let_def split: prod.split)

lemma clear_idle: "engine_inv isp e \<Longrightarrow> \<not> runner_set e \<Longrightarrow> clear e = e"
  by (simp add: engine_inv_def clear_def)

lemma engine_inv_Start: "engine_inv isp e \<Longrightarrow> engine_inv isp (snd (snd (StartEngine isp env e)))"
proof (cases "runner_set e")
  case True
  then show "engine_inv isp e \<Longrightarrow> ?thesis"
    using StartEngine_running [of e isp env] by auto
next
  case False
  then show "engine_inv isp e \<Longrightarrow> ?thesis"
    by (cases rule: StartEngine_outcomes [of e isp env])
      (simp_all add: engine_inv_clear, simp_all add: engine_inv_def)
qed

lemma engine_inv_Stop: "engine_inv isp e \<Longrightarrow> engine_inv isp (snd (snd (StopEngine env e)))"
  using StopEngine_idle [of isp e env] StopEngine_running [of isp e env]
  by (cases "runner_set e") (auto simp: engine_inv_clear)

text \<open>A history of calls, each with what its environment answers.\<close>

datatype call = CallStart start_env | CallStop stop_env

fun do_call :: "(nat \<Rightarrow> bool) \<Rightarrow> call \<Rightarrow> Engine \<Rightarrow> engine_error err \<times> engine_effect list \<times> Engine" where
  "do_call isp (CallStart env) e = StartEngine isp env e"
| "do_call isp (CallStop env) e = StopEngine env e"

fun do_calls :: "(nat \<Rightarrow> bool) \<Rightarrow> call list \<Rightarrow> Engine \<Rightarrow> engine_effect list \<times> Engine" where
  "do_calls isp [] e = ([], e)"
| "do_calls isp (c # cs) e =
     (let (_, effs, e) = do_call isp c e; (effs', e) = do_calls isp cs e in (effs @ effs', e))"

lemma engine_inv_calls: "engine_inv isp e \<Longrightarrow> engine_inv isp (snd (do_calls isp cs e))"
proof (induction cs arbitrary: e)
  case (Cons c cs)
  then have "engine_inv isp (snd (snd (do_call isp c e)))"
    by (cases c) (simp_all add: engine_inv_Start engine_inv_Stop)
  with Cons.IH show ?case
    by (simp add: split_def Let_def)
qed simp

text \<open>Starts and stops of runners, counted in a trace.\<close>

definition live_runners :: "engine_effect list \<Rightarrow> int" where
  "live_runners effs = int (count_list effs RunnerStart) - int (count_list effs RunnerStop)"

lemma live_runners_append [simp]: "live_runners (xs @ ys) = live_runners xs + live_runners ys"
  by (simp add: live_runners_def)

lemma cfg_kept: "eng_cfg (snd (snd (do_call isp c e))) = eng_cfg e"
proof (cases c)
  case (CallStart env)
  show ?thesis
  proof (cases "runner_set e")
    case True
    with CallStart show ?thesis using StartEngine_running [of e isp env] by auto
  next
    case False
    then show ?thesis
      unfolding CallStart do_call.simps
      by (cases rule: StartEngine_outcomes [of e isp env]) (simp_all add: clear_def)
  qed
next
  case (CallStop env)
  then show ?thesis by (simp add: StopEngine_def Let_def split_def clear_def)
qed


text \<open>
  The table was left over: nft refused to delete it, and has accepted no batch since. A trace without
  any accepted batch leaves the table as it was.
\<close>

definition untouched :: "engine_effect list \<Rightarrow> bool" where
  "untouched effs \<longleftrightarrow> (\<forall>b. ApplyBatch b True \<notin> set effs)"

definition left_over :: "RuleSet \<Rightarrow> engine_effect list \<Rightarrow> bool" where
  "left_over r effs \<longleftrightarrow> (\<exists>xs ys. effs = xs @ ApplyBatch (TeardownBatch r) False # ys \<and> untouched ys)"

lemma untouched_simps [simp]:
  "untouched []" "untouched (x # xs) \<longleftrightarrow> (\<forall>b. x \<noteq> ApplyBatch b True) \<and> untouched xs"
  "untouched (xs @ ys) \<longleftrightarrow> untouched xs \<and> untouched ys"
  by (auto simp: untouched_def)

lemma left_over_Nil [simp]: "\<not> left_over r []"
  by (simp add: left_over_def)

lemma left_over_append: "left_over r (xs @ ys) \<longleftrightarrow> left_over r ys \<or> left_over r xs \<and> untouched ys"
proof
  assume "left_over r (xs @ ys)"
  then obtain us vs where u: "xs @ ys = us @ ApplyBatch (TeardownBatch r) False # vs" "untouched vs"
    by (auto simp: left_over_def)
  from u(1) obtain ws where "xs = us @ ws \<and> ws @ ys = ApplyBatch (TeardownBatch r) False # vs \<or>
      ys = ws @ ApplyBatch (TeardownBatch r) False # vs"
    by (auto simp: append_eq_append_conv2)
  with u(2) show "left_over r ys \<or> left_over r xs \<and> untouched ys"
    by (cases ws) (auto simp: left_over_def)
next
  show "left_over r ys \<or> left_over r xs \<and> untouched ys \<Longrightarrow> left_over r (xs @ ys)"
  proof (elim disjE conjE)
    assume "left_over r ys"
    then show ?thesis
      unfolding left_over_def by (metis append.assoc)
  next
    assume "left_over r xs" "untouched ys"
    then obtain us vs where "xs = us @ ApplyBatch (TeardownBatch r) False # vs" "untouched (vs @ ys)"
      by (auto simp: left_over_def)
    then show ?thesis
      unfolding left_over_def by (intro exI [of _ us] exI [of _ "vs @ ys"]) simp
  qed
qed

lemma left_over_Cons [simp]:
  "left_over r (x # xs) \<longleftrightarrow> left_over r xs \<or> x = ApplyBatch (TeardownBatch r) False \<and> untouched xs"
proof -
  have "left_over r [x] \<longleftrightarrow> x = ApplyBatch (TeardownBatch r) False"
    by (auto simp: left_over_def Cons_eq_append_conv)
  then show ?thesis
    using left_over_append [of r "[x]" xs] by simp
qed

text \<open>What a history of calls leaves, for an engine that has its rules installed if it runs.\<close>

definition table_after :: "RuleSet \<Rightarrow> string set \<Rightarrow> Engine \<Rightarrow> engine_effect list \<Rightarrow> Engine \<Rightarrow> bool" where
  "table_after r tables e effs e' \<longleftrightarrow>
     (RuleTable r \<in> nft_effects r effs tables \<longleftrightarrow> runner_set e' \<or> left_over r effs \<or> RuleTable r \<in> tables \<and> untouched effs) \<and>
     (runner_set e \<longrightarrow> untouched effs \<longrightarrow> runner_set e' \<or> left_over r effs) \<and>
     live_runners effs = (if runner_set e' then 1 else 0) - (if runner_set e then 1 else 0)"

lemma call_table_after:
  assumes "engine_inv isp e" and "BuildRuleSet isp (eng_cfg e) = Inr r" and "runner_set e \<longrightarrow> RuleTable r \<in> tables"
    and "do_call isp c e = (res, effs, e')"
  shows "table_after r tables e effs e'"
proof -
  note ne = batches_differ [OF assms(2)]
  show ?thesis
  proof (cases c)
    case (CallStart env)
    show ?thesis
    proof (cases "runner_set e")
      case True
      with assms CallStart StartEngine_running [of e isp env] show ?thesis
        by (auto simp: table_after_def live_runners_def)
    next
      case False
      have st: "StartEngine isp env e = (res, effs, e')"
        using assms(4) CallStart by simp
      from False show ?thesis
      proof (cases rule: StartEngine_outcomes [of e isp env])
        case (rollback rules err res')
        with assms(2) ne st False show ?thesis
          by (cases "rollback_teardown env") (auto simp: table_after_def nft_apply_def live_runners_def clear_def)
      qed (use assms(2) ne st False in \<open>auto simp: table_after_def nft_apply_def live_runners_def\<close>)
    qed
  next
    case (CallStop env)
    show ?thesis
    proof (cases "runner_set e")
      case True
      with assms(1,2) have "eng_rules e = r"
        by (simp add: engine_inv_def)
      with True CallStop assms(1,3,4) ne StopEngine_running [of isp e env] show ?thesis
        by (cases "teardown_result env") (auto simp: table_after_def nft_apply_def live_runners_def clear_def)
    next
      case False
      with CallStop assms StopEngine_idle [of isp e env] show ?thesis
        by (auto simp: table_after_def live_runners_def clear_def)
    qed
  qed
qed

lemma calls_table_after:
  assumes "engine_inv isp e" and "BuildRuleSet isp (eng_cfg e) = Inr r" and "runner_set e \<longrightarrow> RuleTable r \<in> tables"
    and "do_calls isp cs e = (effs, e')"
  shows "table_after r tables e effs e'"
  using assms
proof (induction cs arbitrary: e tables effs)
  case Nil
  then show ?case by (auto simp: table_after_def live_runners_def)
next
  case (Cons c cs)
  obtain res effs1 e1 where c: "do_call isp c e = (res, effs1, e1)" by (metis prod_cases3)
  obtain effs2 where cs: "do_calls isp cs e1 = (effs2, e')" and effs: "effs = effs1 @ effs2"
    using Cons.prems(4) c by (auto split: prod.splits)
  have "engine_inv isp e1"
    using engine_inv_calls [OF Cons.prems(1), of "[c]"] c by simp
  moreover have "BuildRuleSet isp (eng_cfg e1) = Inr r"
    using cfg_kept [of isp c e] c Cons.prems(2) by simp
  moreover have step: "table_after r tables e effs1 e1"
    by (rule call_table_after [OF Cons.prems(1-3) c])
  moreover have "runner_set e1 \<longrightarrow> RuleTable r \<in> nft_effects r effs1 tables"
    using step by (simp add: table_after_def)
  ultimately have "table_after r (nft_effects r effs1 tables) e1 effs2 e'"
    using Cons.IH cs by blast
  with step show ?case
    unfolding effs table_after_def left_over_append live_runners_append nft_effects_append untouched_simps by auto
qed


lemma BuildRuleSet_Normalized [simp]: "BuildRuleSet isp (Normalized c) = BuildRuleSet isp c"
  by (simp only: BuildRuleSet_def Normalized_idem)

subsection \<open>Two starts at once\<close>

text \<open>
  \<open>Start\<close> releases its lock between the test of \<open>e.runner\<close> and the assignment, so a call is three
  atomic steps: the test, the unlocked factory and setup calls (here: accepted), and the assignment
  with the start of the runner. Each thread has a program counter; the trace is shared.
\<close>

datatype thread_pc = Begin | Checked | Installed | Active | Refused

record race =
  race_engine :: Engine
  race_trace :: "engine_effect list"
  race_pc :: "bool \<Rightarrow> thread_pc"

inductive race_step :: "RuleSet \<Rightarrow> race \<Rightarrow> race \<Rightarrow> bool" for rules where
  refuse: "race_pc s t = Begin \<Longrightarrow> runner_set (race_engine s) \<Longrightarrow>
    race_step rules s (s\<lparr>race_pc := (race_pc s)(t := Refused)\<rparr>)"
| check: "race_pc s t = Begin \<Longrightarrow> \<not> runner_set (race_engine s) \<Longrightarrow>
    race_step rules s (s\<lparr>race_pc := (race_pc s)(t := Checked)\<rparr>)"
| install: "race_pc s t = Checked \<Longrightarrow>
    race_step rules s (s\<lparr>race_trace := race_trace s @ [NewRunner, ApplyBatch (SetupBatch rules) True],
      race_pc := (race_pc s)(t := Installed)\<rparr>)"
| publish: "race_pc s t = Installed \<Longrightarrow>
    race_step rules s (s\<lparr>race_engine := (race_engine s)\<lparr>runner_set := True, cancel_set := True, doneCh_set := True,
        eng_rules := rules, rulesInstalled := True\<rparr>,
      race_trace := race_trace s @ [RunnerStart], race_pc := (race_pc s)(t := Active)\<rparr>)"

inductive_cases race_step_cases: "race_step rules s s'"

definition race_init :: "Engine \<Rightarrow> race" where
  "race_init e = \<lparr>race_engine = e, race_trace = [], race_pc = (\<lambda>_. Begin)\<rparr>"

text \<open>Alone, a thread does what the success path of \<open>StartEngine\<close> does.\<close>

lemma race_alone:
  assumes "\<not> runner_set e" and "StartEngine isp env e = (None, effs, e')" and "start_outcome env = None"
    and "BuildRuleSet isp (eng_cfg e) = Inr rules"
  shows "\<exists>s. (race_step rules)\<^sup>*\<^sup>* (race_init e) s \<and> race_pc s True = Active \<and>
    race_trace s = effs \<and> race_engine s = e'"
proof -
  let ?s1 = "(race_init e)\<lparr>race_pc := (race_pc (race_init e))(True := Checked)\<rparr>"
  let ?s2 = "?s1\<lparr>race_trace := race_trace ?s1 @ [NewRunner, ApplyBatch (SetupBatch rules) True],
      race_pc := (race_pc ?s1)(True := Installed)\<rparr>"
  let ?s3 = "?s2\<lparr>race_engine := (race_engine ?s2)\<lparr>runner_set := True, cancel_set := True, doneCh_set := True,
        eng_rules := rules, rulesInstalled := True\<rparr>,
      race_trace := race_trace ?s2 @ [RunnerStart], race_pc := (race_pc ?s2)(True := Active)\<rparr>"
  have "race_step rules (race_init e) ?s1"
    by (rule check) (simp_all add: race_init_def assms(1))
  moreover have "race_step rules ?s1 ?s2"
    by (rule install) simp
  moreover have "race_step rules ?s2 ?s3"
    by (rule publish) simp
  ultimately have "(race_step rules)\<^sup>*\<^sup>* (race_init e) ?s3"
    by (meson converse_rtranclp_into_rtranclp rtranclp.rtrancl_refl)
  moreover have "race_trace ?s3 = effs \<and> race_engine ?s3 = e'"
    using assms by (cases rule: StartEngine_outcomes [OF assms(1), of isp env]) (auto simp: race_init_def)
  ultimately show ?thesis
    by (intro exI [of _ ?s3]) simp
qed

text \<open>The interleaving in which both threads pass the test before either assigns.\<close>

definition race_end :: "RuleSet \<Rightarrow> Engine \<Rightarrow> race" where
  "race_end rules e =
     \<lparr>race_engine = e\<lparr>runner_set := True, cancel_set := True, doneCh_set := True, eng_rules := rules, rulesInstalled := True\<rparr>,
      race_trace = [NewRunner, ApplyBatch (SetupBatch rules) True, NewRunner, ApplyBatch (SetupBatch rules) True,
        RunnerStart, RunnerStart],
      race_pc = (\<lambda>_. Active)\<rparr>"

lemma race_reaches_end:
  assumes "\<not> runner_set e"
  shows "(race_step rules)\<^sup>*\<^sup>* (race_init e) (race_end rules e)"
proof -
  let ?on = "e\<lparr>runner_set := True, cancel_set := True, doneCh_set := True, eng_rules := rules, rulesInstalled := True\<rparr>"
  let ?i = "[NewRunner, ApplyBatch (SetupBatch rules) True]"
  define st where "st en tr p q = \<lparr>race_engine = en, race_trace = tr, race_pc = (\<lambda>t. if t then p else q)\<rparr>" for en tr p q
  note simps = st_def race_init_def race_end_def
  have upd: "(\<lambda>t. if t then p else q)(True := r) = (\<lambda>t. if t then r else q)"
    "(\<lambda>t. if t then p else q)(False := r) = (\<lambda>t. if t then p else r)" for p q r :: thread_pc
    by auto
  have 1: "race_step rules (st e [] Begin Begin) (st e [] Checked Begin)"
    using check [of "st e [] Begin Begin" True rules] assms by (simp only: st_def upd race.simps) simp
  have 2: "race_step rules (st e [] Checked Begin) (st e [] Checked Checked)"
    using check [of "st e [] Checked Begin" False rules] assms
    by (simp only: st_def upd race.simps) simp
  have 3: "race_step rules (st e [] Checked Checked) (st e ?i Installed Checked)"
    using install [of "st e [] Checked Checked" True rules]
    by (simp only: st_def upd race.simps) simp
  have 4: "race_step rules (st e ?i Installed Checked) (st e (?i @ ?i) Installed Installed)"
    using install [of "st e ?i Installed Checked" False rules]
    by (simp only: st_def upd race.simps) simp
  have 5: "race_step rules (st e (?i @ ?i) Installed Installed) (st ?on (?i @ ?i @ [RunnerStart]) Active Installed)"
    using publish [of "st e (?i @ ?i) Installed Installed" True rules]
    by (simp only: st_def upd race.simps) simp
  have 6: "race_step rules (st ?on (?i @ ?i @ [RunnerStart]) Active Installed) (st ?on (?i @ ?i @ [RunnerStart, RunnerStart]) Active Active)"
    using publish [of "st ?on (?i @ ?i @ [RunnerStart]) Active Installed" False rules]
    by (simp only: st_def upd race.simps) simp
  have "(race_step rules)\<^sup>*\<^sup>* (st e [] Begin Begin) (st ?on (?i @ ?i @ [RunnerStart, RunnerStart]) Active Active)"
    using 1 2 3 4 5 6 by (meson converse_rtranclp_into_rtranclp rtranclp.rtrancl_refl)
  moreover have "race_init e = st e [] Begin Begin"
    "race_end rules e = st ?on (?i @ ?i @ [RunnerStart, RunnerStart]) Active Active"
    by (simp_all add: simps)
  ultimately show ?thesis by simp
qed


subsection \<open>Properties\<close>

definition all_ok :: start_env where
  "all_ok = \<lparr>factory_result = None, setup_result = None, start_outcome = None, rollback_stop = None, rollback_teardown = None\<rparr>"

definition stop_ok :: stop_env where
  "stop_ok = \<lparr>stop_result = None, done_result = Some Canceled, teardown_result = None\<rparr>"

abbreviation eth0_config :: Config where
  "eth0_config \<equiv> DefaultConfig\<lparr>WANInterface := ''eth0''\<rparr>"

lemma eth0_rules: "\<exists>r. BuildRuleSet isp eth0_config = Inr r"
  using eth0_valid BuildRuleSet_valid by blast

text \<open>
  C17. Rules exist exactly while the engine runs, but for what nft refuses: after any history of \<open>Start\<close>
  and \<open>Stop\<close> calls with any results of the factory, the runner and nft, the engine's table is installed
  if and only if the engine holds a runner, or nft refused to delete the table and has accepted no batch
  since, or the table was there before and nft has never accepted a batch; and the number of runners
  started and not stopped is one if the engine holds a runner, and zero otherwise.
\<close>

theorem rules_installed_iff_running:
  assumes "BuildRuleSet isp c = Inr r" and "do_calls isp cs (NewEngine c) = (effs, e)"
  shows "(RuleTable r \<in> nft_effects r effs tables \<longleftrightarrow>
      runner_set e \<or>
      (\<exists>xs ys. effs = xs @ ApplyBatch (TeardownBatch r) False # ys \<and> (\<forall>b. ApplyBatch b True \<notin> set ys)) \<or>
      RuleTable r \<in> tables \<and> (\<forall>b. ApplyBatch b True \<notin> set effs)) \<and>
    int (count_list effs RunnerStart) - int (count_list effs RunnerStop) = (if runner_set e then 1 else 0)"
  using calls_table_after [OF engine_inv_New [of isp c], of r tables cs effs e] assms
  by (simp add: NewEngine_def table_after_def left_over_def untouched_def live_runners_def)

theorem rules_installed_iff_running_witness:
  "\<exists>r e effs. do_calls ascii_print [CallStart all_ok, CallStop (stop_ok\<lparr>teardown_result := Some ''busy''\<rparr>),
       CallStart all_ok, CallStop stop_ok] (NewEngine eth0_config) = (effs, e) \<and>
     ApplyBatch (TeardownBatch r) False \<in> set effs \<and> RuleTable r \<notin> nft_effects r effs {} \<and> \<not> runner_set e"
proof -
  let ?cs = "[CallStart all_ok, CallStop (stop_ok\<lparr>teardown_result := Some ''busy''\<rparr>), CallStart all_ok, CallStop stop_ok]"
  obtain r where r: "BuildRuleSet ascii_print eth0_config = Inr r"
    using eth0_rules by blast
  have v: "Validate (Normalized eth0_config) = None"
    using eth0_valid by simp
  let ?run = "\<lambda>ok. [NewRunner, ApplyBatch (SetupBatch r) True, RunnerStart, CancelCtx, RunnerStop, AwaitDone,
      ApplyBatch (TeardownBatch r) ok]"
  have run: "\<exists>e. do_calls ascii_print ?cs (NewEngine eth0_config) = (?run False @ ?run True, e) \<and> \<not> runner_set e"
    by (simp add: StartEngine_def StopEngine_def NewEngine_def v r all_ok_def stop_ok_def clear_def del: Validate_Normalized)
  then obtain e where e: "do_calls ascii_print ?cs (NewEngine eth0_config) = (?run False @ ?run True, e)" "\<not> runner_set e"
    by blast
  have "\<not> left_over r (?run False @ ?run True)" "\<not> untouched (?run False @ ?run True)"
    by simp_all
  with rules_installed_iff_running [OF r e(1), of "{}"] e(2)
  have "RuleTable r \<notin> nft_effects r (?run False @ ?run True) {}"
    unfolding left_over_def untouched_def by blast
  with e show ?thesis
    by (intro exI [of _ r] exI [of _ e] exI [of _ "?run False @ ?run True"]) simp
qed

text \<open>
  A start that fails changes nothing: if \<open>Start\<close> returns an error and a rollback it made could
  remove the rules, the engine holds a runner exactly if it did before, no runner it started is left
  alive, and the table it may have created is gone.
\<close>

theorem failed_Start_leaves_nothing:
  assumes "engine_inv isp e" and "StartEngine isp env e = (Some err, effs, e')"
    and "rollback_teardown env = None" and "BuildRuleSet isp (eng_cfg e) = Inr r"
    and "RuleTable r \<in> tables \<longleftrightarrow> runner_set e"
  shows "runner_set e' = runner_set e \<and> engine_inv isp e' \<and>
    count_list effs RunnerStart = count_list effs RunnerStop \<and>
    (RuleTable r \<in> nft_effects r effs tables \<longleftrightarrow> RuleTable r \<in> tables)"
proof -
  have inv: "engine_inv isp e'"
    using engine_inv_Start [OF assms(1), of env] assms(2) by simp
  show ?thesis
  proof (cases "runner_set e")
    case True
    with assms StartEngine_running [of e isp env] show ?thesis by auto
  next
    case False
    then show ?thesis
      using assms inv batches_differ [OF assms(4)]
      by (cases rule: StartEngine_outcomes [of e isp env]) (auto simp: False nft_apply_def clear_def)
  qed
qed

theorem failed_Start_leaves_nothing_witness:
  "\<exists>err effs e'. StartEngine ascii_print (all_ok\<lparr>start_outcome := Some (Some ''no queue'')\<rparr>) (NewEngine eth0_config) = (Some err, effs, e') \<and>
     \<not> runner_set e' \<and> count_list effs RunnerStart = count_list effs RunnerStop"
proof -
  obtain r where r: "BuildRuleSet ascii_print eth0_config = Inr r"
    using eth0_rules by blast
  have v: "Validate (Normalized eth0_config) = None"
    using eth0_valid by simp
  have "\<exists>err effs e'. StartEngine ascii_print (all_ok\<lparr>start_outcome := Some (Some ''no queue'')\<rparr>) (NewEngine eth0_config) = (Some err, effs, e')"
    by (simp add: StartEngine_def rollbackStartup_def NewEngine_def v r all_ok_def Let_def del: Validate_Normalized)
  then obtain err effs e' where st:
    "StartEngine ascii_print (all_ok\<lparr>start_outcome := Some (Some ''no queue'')\<rparr>) (NewEngine eth0_config) = (Some err, effs, e')"
    by blast
  from failed_Start_leaves_nothing [OF engine_inv_New st, of r "{}"] r st show ?thesis
    by (auto simp: all_ok_def NewEngine_def)
qed

text \<open>
  \<open>Stop\<close> is idempotent and total over states: whatever its calls return, it leaves the engine
  stopped, and a second \<open>Stop\<close> performs no effect and returns nil.
\<close>

theorem Stop_twice:
  "lifecycle_of (snd (snd (StopEngine env e))) = Stopped \<and>
   StopEngine env' (snd (snd (StopEngine env e))) = (None, [], snd (snd (StopEngine env e)))"
  by (simp add: StopEngine_def Let_def split_def clear_def lifecycle_of_def)

text \<open>
  C34. \<open>Start\<close> reports success without a running router: if \<open>runner.Start\<close> returns nil before the
  grace period ends, \<open>Start\<close> stops the runner, removes the rules, clears the engine and returns nil.
  The Linux runner ends with \<open>RegisterWithErrorFunc\<close>, which registers a callback and returns.
\<close>

theorem Start_success_without_runner:
  assumes "BuildRuleSet isp (eng_cfg e) = Inr r" and "\<not> runner_set e" and "start_outcome env = Some None"
    and "factory_result env = None" and "setup_result env = None"
    and "rollback_stop env = None" and "rollback_teardown env = None"
  shows "\<exists>effs e'. StartEngine isp env e = (None, effs, e') \<and> lifecycle_of e' = Stopped \<and>
    RunnerStop \<in> set effs \<and> RuleTable r \<notin> nft_effects r effs tables"
proof -
  have "Validate (eng_cfg e) = None"
    using BuildRuleSet_Inr(1) [OF assms(1)] .
  then show ?thesis
    using assms batches_differ [OF assms(1)]
    by (simp add: StartEngine_def rollbackStartup_def Let_def lifecycle_of_def clear_def nft_apply_def)
qed

theorem Start_success_without_runner_witness:
  "\<exists>effs e'. StartEngine ascii_print (all_ok\<lparr>start_outcome := Some None\<rparr>) (NewEngine eth0_config) = (None, effs, e') \<and>
     lifecycle_of e' = Stopped"
proof -
  obtain r where "BuildRuleSet ascii_print eth0_config = Inr r"
    using eth0_rules by blast
  with Start_success_without_runner [of ascii_print "NewEngine eth0_config" r "all_ok\<lparr>start_outcome := Some None\<rparr>" "{}"]
  show ?thesis by (auto simp: NewEngine_def all_ok_def)
qed

text \<open>
  C35. Two concurrent calls of \<open>Start\<close> can both succeed: the lock is released between the test and
  the assignment, so from a stopped engine a state is reachable in which both threads are active, the
  setup batch was applied twice and two runners were started, while one \<open>Stop\<close> stops only one.
\<close>

theorem concurrent_Start_leaks:
  assumes "\<not> runner_set e"
  shows "\<exists>s. (race_step rules)\<^sup>*\<^sup>* (race_init e) s \<and> race_pc s True = Active \<and> race_pc s False = Active \<and>
    count_list (race_trace s) (ApplyBatch (SetupBatch rules) True) = 2 \<and>
    live_runners (race_trace s @ fst (snd (StopEngine env (race_engine s)))) = 1 \<and>
    lifecycle_of (snd (snd (StopEngine env (race_engine s)))) = Stopped"
  using race_reaches_end [OF assms, of rules]
  by (intro exI [of _ "race_end rules e"])
    (simp add: race_end_def live_runners_def StopEngine_def Let_def split_def lifecycle_of_def clear_def)

theorem concurrent_Start_leaks_witness:
  "\<exists>s. (race_step empty_RuleSet)\<^sup>*\<^sup>* (race_init (NewEngine eth0_config)) s \<and>
     live_runners (race_trace s @ fst (snd (StopEngine stop_ok (race_engine s)))) = 1"
  using concurrent_Start_leaks [of "NewEngine eth0_config" empty_RuleSet stop_ok]
  by (auto simp: NewEngine_def)

end
