(* ===== verification/RouterCmd.thy ===== *)
theory RouterCmd
  imports RouterEngine GoFields
begin

text \<open>
  The router command (cmd/gecit/app/router.go) and the probe plan (pkg/router/probe): the conversion of
  the flags, \<open>router plan\<close>, \<open>router probe\<close> with its report, and \<open>router run\<close>, which puts the engine of
  theory RouterEngine between the privilege check and the signal, with the wiring of the two backends
  (engine.go, engine_linux.go, engine_other.go). The flag library and \<open>strings.ToLower\<close> beyond ASCII are
  parameters. What is proved: which configuration the flags amount to, that the plan and the report
  show the commands that a run applies, that a run touches the system only on Linux with the
  privileges, and that a run which returns leaves no runner, and no table that it could remove, while
  \<open>SIGTERM\<close> ends it with its table installed.
\<close>

subsection \<open>The flags\<close>

record router_flags =
  f_wan :: string
  f_lan :: "string list"
  f_table :: string
  f_backend :: string
  f_queue_num :: u64
  f_mark :: u32
  f_tcp_ports :: "int list"
  f_udp_ports :: "int list"
  f_quic :: bool
  f_postnat :: bool
  f_fake_ttl :: int
  f_max_flows :: int
  f_targets :: "string list"

text \<open>The defaults that \<open>addRouterFlags\<close> declares.\<close>

definition addRouterFlags :: router_flags where
  "addRouterFlags = \<lparr>f_wan = [], f_lan = [], f_table = [], f_backend = QueueBackendNFQueue, f_queue_num = 0, f_mark = 0,
     f_tcp_ports = [443], f_udp_ports = [443], f_quic = False, f_postnat = True, f_fake_ttl = 8, f_max_flows = 4096,
     f_targets = []\<rparr>"

fun intSliceToPorts :: "int list \<Rightarrow> u16 list" where
  "intSliceToPorts [] = []"
| "intSliceToPorts (value # values) =
     (if value \<le> 0 \<or> value > 65535 then intSliceToPorts values
      else of_int value # intSliceToPorts values)"

fun split_parts :: "string list \<Rightarrow> string list" where
  "split_parts [] = []"
| "split_parts (part # parts) =
     (let part = trim_space part in
      if part = [] then split_parts parts else part # split_parts parts)"

definition splitTargets :: "string list \<Rightarrow> string list" where
  "splitTargets targets = concat (map (\<lambda>target. split_parts (split_on CHR '','' target)) targets)"

text \<open>\<open>strings.ToLower\<close>: the ASCII path is written out, \<open>lower\<close> is the mapping of any other string.\<close>

definition ascii_lower :: "char \<Rightarrow> char" where
  "ascii_lower c = (if 65 \<le> (of_char c :: nat) \<and> (of_char c :: nat) \<le> 90 then char_of (of_char c + 32 :: nat) else c)"

definition ToLower :: "(string \<Rightarrow> string) \<Rightarrow> string \<Rightarrow> string" where
  "ToLower lower s = (if \<forall>c \<in> set s. (of_char c :: nat) < 128 then map ascii_lower s else lower s)"

definition routerConfigFromFlags :: "(string \<Rightarrow> string) \<Rightarrow> router_flags \<Rightarrow> Config" where
  "routerConfigFromFlags lower f =
     \<lparr>WANInterface = f_wan f, LANInterfaces = f_lan f, TableName = f_table f,
      Backend = trim_space (ToLower lower (f_backend f)), QueueNum = ucast (f_queue_num f), PacketMark = f_mark f,
      TCPPorts = intSliceToPorts (f_tcp_ports f), UDPPorts = intSliceToPorts (f_udp_ports f),
      FakeTTL = f_fake_ttl f, MaxFlows = f_max_flows f, ProbeTargets = splitTargets (f_targets f),
      AutoHostlistPath = [], EnableQUIC = f_quic f, EnablePostNAT = f_postnat f\<rparr>"

subsection \<open>The probe plan\<close>

record Candidate =
  cName :: string
  cTCP :: bool
  cUDP :: bool
  cRequiresPostNAT :: bool
  cNotes :: string

record Plan =
  pQueueNum :: u16
  pTargets :: "string list"
  pCandidates :: "Candidate list"

definition DefaultPlan :: Plan where
  "DefaultPlan = \<lparr>pQueueNum = 200, pTargets = [''discord.com'', ''youtube.com''],
     pCandidates = [\<lparr>cName = ''tcp-fake-clienthello-low-ttl'', cTCP = True, cUDP = False, cRequiresPostNAT = True,
       cNotes = ''Baseline TCP desync candidate for router mode.''\<rparr>]\<rparr>"

definition normalizePlan :: "Config \<Rightarrow> Plan \<Rightarrow> Plan" where
  "normalizePlan cfg plan =
     (let plan = (if pQueueNum plan = 0 then plan\<lparr>pQueueNum := QueueNum cfg\<rparr> else plan);
          plan = (if length (pTargets plan) = 0 then plan\<lparr>pTargets := ProbeTargets cfg\<rparr> else plan)
      in if length (pCandidates plan) = 0 then plan\<lparr>pCandidates := pCandidates DefaultPlan\<rparr> else plan)"

definition joinPorts :: "u16 list \<Rightarrow> string" where
  "joinPorts ports =
     (if length ports = 0 then ''(none)'' else join_with '', '' (map (\<lambda>port. dec (unat port)) ports))"

record DryRun =
  dQueueNum :: u16
  dTargets :: "string list"
  dCandidates :: "Candidate list"
  dSetupCommands :: "string list"
  dTeardownCommands :: "string list"
  dSteps :: "string list"

definition dry_run_steps :: "(nat \<Rightarrow> bool) \<Rightarrow> Config \<Rightarrow> RuleSet \<Rightarrow> Plan \<Rightarrow> string list" where
  "dry_run_steps isp cfg rules plan =
     [''Install '' @ dec (length (Setup rules)) @ '' nftables setup commands for table '' @ go_quote isp (RuleTable rules) @ ''.'',
      ''Queue the first outbound TCP packets on '' @ joinPorts (TCPPorts cfg) @ '' through NFQUEUE '' @
        dec (unat (QueueNum cfg)) @ ''.'',
      ''Probe '' @ dec (length (pTargets plan)) @ '' target domains with '' @ dec (length (pCandidates plan)) @
        '' candidate strategy profiles.'',
      ''Mark generated packets to avoid queue loops and conntrack corruption.''] @
     (if EnableQUIC cfg
      then [''Queue outbound UDP packets on '' @ joinPorts (UDPPorts cfg) @ '' for QUIC-specific candidate evaluation.'']
      else [''Keep UDP passthrough until a QUIC strategy is explicitly enabled and validated.''])"

definition BuildDryRun :: "(nat \<Rightarrow> bool) \<Rightarrow> Config \<Rightarrow> Plan \<Rightarrow> config_error + DryRun" where
  "BuildDryRun isp cfg plan =
     (let cfg = Normalized cfg in
      (case BuildRuleSet isp cfg of
         Inl err \<Rightarrow> Inl err
       | Inr rules \<Rightarrow>
           let plan = normalizePlan cfg plan in
           Inr \<lparr>dQueueNum = pQueueNum plan, dTargets = pTargets plan, dCandidates = pCandidates plan,
             dSetupCommands = Setup rules, dTeardownCommands = Teardown rules,
             dSteps = dry_run_steps isp cfg rules plan\<rparr>))"

definition candidate_mode :: "Candidate \<Rightarrow> string" where
  "candidate_mode c = (if cUDP c \<and> cTCP c then ''tcp+udp'' else if cUDP c then ''udp'' else ''tcp'')"

definition bullets :: "string list \<Rightarrow> string" where
  "bullets xs = concat (map (\<lambda>x. ''- '' @ x @ [nl]) xs)"

definition Text :: "DryRun \<Rightarrow> string" where
  "Text d =
     ''Router probe dry run'' @ [nl] @
     ''Queue: '' @ dec (unat (dQueueNum d)) @ [nl] @
     ''Targets: '' @ join_with '', '' (dTargets d) @ [nl] @
     [nl] @ ''Candidates:'' @ [nl] @
     concat (map (\<lambda>c. ''- '' @ cName c @ '' ['' @ candidate_mode c @ '']'' @ [nl]) (dCandidates d)) @
     [nl] @ ''Setup commands:'' @ [nl] @ bullets (dSetupCommands d) @
     [nl] @ ''Steps:'' @ [nl] @ bullets (dSteps d) @
     [nl] @ ''Teardown commands:'' @ [nl] @ bullets (dTeardownCommands d)"

subsection \<open>The commands\<close>

definition runRouterPlan :: "(string \<Rightarrow> string) \<Rightarrow> (nat \<Rightarrow> bool) \<Rightarrow> router_flags \<Rightarrow> config_error + string" where
  "runRouterPlan lower isp f =
     (case BuildRuleSet isp (routerConfigFromFlags lower f) of
        Inl err \<Rightarrow> Inl err
      | Inr rules \<Rightarrow> Inr (ShellScript rules))"

definition runRouterProbe :: "(string \<Rightarrow> string) \<Rightarrow> (nat \<Rightarrow> bool) \<Rightarrow> router_flags \<Rightarrow> config_error + string" where
  "runRouterProbe lower isp f =
     (case BuildDryRun isp (routerConfigFromFlags lower f)
         \<lparr>pQueueNum = 0, pTargets = splitTargets (f_targets f), pCandidates = []\<rparr> of
        Inl err \<Rightarrow> Inl err
      | Inr dryRun \<Rightarrow> Inr (Text dryRun))"

text \<open>
  The host of \<open>router run\<close>: its system, the privilege check, the command \<open>nft -f -\<close> (its output and its
  error), what the NFQUEUE runner answers, and the signal that ends a run. The dry-run backend has an idle runner, which returns
  when its context is cancelled, and applies nothing.
\<close>

datatype end_signal = SigInterrupt | SigTerm

record host =
  goos :: string
  privileges :: "string err"
  nft_cmd :: "string \<Rightarrow> string \<times> string err"
  queue_runner :: "string err"
  queue_outcome :: "string err option"
  queue_stop :: "string err"
  queue_done :: "done_error err"
  stop_signal :: end_signal

definition unsupported :: string where
  "unsupported = ''router nfqueue backend is only supported on Linux''"

definition defaultBatchApplier :: "host \<Rightarrow> string \<Rightarrow> string err" where
  "defaultBatchApplier h batch =
     (if goos h \<noteq> ''linux'' then Some unsupported
      else if trim_space batch = [] then None
      else
        let (out, err) = nft_cmd h batch in
        (case err of
           None \<Rightarrow> None
         | Some e \<Rightarrow>
             let msg = trim_space out in
             if msg = [] then Some (''nft -f -: '' @ e) else Some (''nft -f -: '' @ msg @ '': '' @ e)))"

definition defaultRunnerFactory :: "host \<Rightarrow> string err" where
  "defaultRunnerFactory h = (if goos h \<noteq> ''linux'' then Some unsupported else queue_runner h)"

definition start_env_of :: "host \<Rightarrow> QueueBackend \<Rightarrow> RuleSet \<Rightarrow> start_env" where
  "start_env_of h backend rules =
     (if backend = QueueBackendDryRun
      then \<lparr>factory_result = None, setup_result = None, start_outcome = None, rollback_stop = None, rollback_teardown = None\<rparr>
      else \<lparr>factory_result = defaultRunnerFactory h, setup_result = defaultBatchApplier h (SetupBatch rules),
        start_outcome = queue_outcome h, rollback_stop = queue_stop h,
        rollback_teardown = defaultBatchApplier h (TeardownBatch rules)\<rparr>)"

definition stop_env_of :: "host \<Rightarrow> QueueBackend \<Rightarrow> RuleSet \<Rightarrow> stop_env" where
  "stop_env_of h backend rules =
     (if backend = QueueBackendDryRun
      then \<lparr>stop_result = None, done_result = Some Canceled, teardown_result = None\<rparr>
      else \<lparr>stop_result = queue_stop h, done_result = queue_done h,
        teardown_result = defaultBatchApplier h (TeardownBatch rules)\<rparr>)"

datatype run_router_error = RouterUnsupported | PrivilegesMissing string | RouterEngineError engine_error

definition rules_of :: "(nat \<Rightarrow> bool) \<Rightarrow> Config \<Rightarrow> RuleSet" where
  "rules_of isp cfg = (case BuildRuleSet isp cfg of Inl err \<Rightarrow> empty_RuleSet | Inr rules \<Rightarrow> rules)"

text \<open>
  \<open>signal.Notify\<close> catches \<open>os.Interrupt\<close> only: \<open>SIGTERM\<close> ends the process where it stands. (A signal
  before \<open>signal.Notify\<close> does so too; here the signal comes once the command waits for it.)
\<close>

datatype router_end = RouterReturned "run_router_error option" | RouterKilled

definition runRouterEngine ::
  "(string \<Rightarrow> string) \<Rightarrow> (nat \<Rightarrow> bool) \<Rightarrow> host \<Rightarrow> router_flags \<Rightarrow> router_end \<times> engine_effect list" where
  "runRouterEngine lower isp h f =
     (let cfg = Normalized (routerConfigFromFlags lower f) in
      if Backend cfg = QueueBackendNFQueue \<and> goos h \<noteq> ''linux'' then (RouterReturned (Some RouterUnsupported), [])
      else (case (if Backend cfg \<noteq> QueueBackendDryRun then privileges h else None) of
        Some e \<Rightarrow> (RouterReturned (Some (PrivilegesMissing e)), [])
      | None \<Rightarrow>
          let rules = rules_of isp cfg;
              (err, effs, eng) = StartEngine isp (start_env_of h (Backend cfg) rules) (NewEngine cfg) in
          (case err of
             Some e \<Rightarrow> (RouterReturned (Some (RouterEngineError e)), effs)
           | None \<Rightarrow>
          (case stop_signal h of
             SigTerm \<Rightarrow> (RouterKilled, effs)
           | SigInterrupt \<Rightarrow>
               let (err, effs', eng) = StopEngine (stop_env_of h (Backend cfg) rules) eng
               in (RouterReturned (map_option RouterEngineError err), effs @ effs')))))"

subsection \<open>Lemmas\<close>

definition valid_ports :: "int list \<Rightarrow> nat list" where
  "valid_ports vs = map nat (filter (\<lambda>p. 0 < p \<and> p < 65536) vs)"

lemma unat_of_int_u16: "0 \<le> v \<Longrightarrow> v < 65536 \<Longrightarrow> unat (of_int v :: u16) = nat v"
  by (simp add: unsigned_of_int take_bit_int_eq_self)

lemma unat_intSliceToPorts: "map unat (intSliceToPorts vs) = valid_ports vs"
  by (induction vs) (auto simp: valid_ports_def unat_of_int_u16)

lemma intSliceToPorts_Nil: "intSliceToPorts vs = [] \<longleftrightarrow> valid_ports vs = []"
  using unat_intSliceToPorts [of vs] by (metis map_is_Nil_conv)

lemma unat_ucast_u16: "unat (ucast q :: u16) = unat (q :: u64) mod 65536"
  by (simp add: unsigned_ucast_eq take_bit_eq_mod)

lemma ucast_u16_zero: "(ucast q :: u16) = 0 \<longleftrightarrow> unat (q :: u64) mod 65536 = 0"
  using unat_ucast_u16 [of q] by (metis unsigned_0 unsigned_word_eqI)

text \<open>The batches that reach \<open>nft\<close>.\<close>

definition nft_batches :: "host \<Rightarrow> QueueBackend \<Rightarrow> engine_effect list \<Rightarrow> string list" where
  "nft_batches h backend effs =
     concat (map (\<lambda>e. case e of
       ApplyBatch b ok \<Rightarrow>
         (if backend \<noteq> QueueBackendDryRun \<and> goos h = ''linux'' \<and> trim_space b \<noteq> [] then [b] else [])
     | _ \<Rightarrow> []) effs)"

lemma BuildRuleSet_rules_of: "Validate cfg = None \<Longrightarrow> BuildRuleSet isp cfg = Inr (rules_of isp cfg)"
  using BuildRuleSet_valid [of cfg isp] by (auto simp: rules_of_def)

lemma NewEngine_cfg [simp]: "eng_cfg (NewEngine c) = Normalized c" "\<not> runner_set (NewEngine c)"
  by (simp_all add: NewEngine_def)

text \<open>A run is a start, followed by a stop if it succeeds; after a failed start the engine is idle.\<close>

lemma failed_start_idle:
  assumes "\<not> runner_set e" and "StartEngine isp env e = (Some x, effs, e')"
  shows "\<not> runner_set e'"
  using assms(1) by (cases rule: StartEngine_outcomes [of e isp env]) (use assms in \<open>auto simp: clear_def\<close>)

lemma stopped_idle: "\<not> runner_set (snd (snd (StopEngine env e)))"
  by (simp add: StopEngine_def Let_def split_def clear_def)

lemma runRouterEngine_calls:
  assumes "runRouterEngine lower isp h f = (res, effs)"
  obtains (skipped) "effs = []" "res \<noteq> RouterKilled"
  | (returned) cs e err where "do_calls isp cs (NewEngine (routerConfigFromFlags lower f)) = (effs, e)"
      "\<not> runner_set e" "res = RouterReturned err"
  | (killed) env e where "StartEngine isp env (NewEngine (routerConfigFromFlags lower f)) = (None, effs, e)"
      "res = RouterKilled" "stop_signal h = SigTerm"
      "env = start_env_of h (Backend (Normalized (routerConfigFromFlags lower f)))
         (rules_of isp (Normalized (routerConfigFromFlags lower f)))"
proof -
  let ?cfg = "Normalized (routerConfigFromFlags lower f)"
  let ?b = "Backend ?cfg"
  let ?senv = "start_env_of h ?b (rules_of isp ?cfg)"
  let ?tenv = "stop_env_of h ?b (rules_of isp ?cfg)"
  have n: "NewEngine ?cfg = NewEngine (routerConfigFromFlags lower f)"
    by (simp only: NewEngine_def Normalized_idem)
  obtain x e1 eng where st: "StartEngine isp ?senv (NewEngine ?cfg) = (x, e1, eng)"
    by (rule prod_cases3)
  obtain y e2 eng2 where sp: "StopEngine ?tenv eng = (y, e2, eng2)"
    by (rule prod_cases3)
  consider "effs = []" "res \<noteq> RouterKilled"
    | z where "x = Some z" "effs = e1" "res = RouterReturned (Some (RouterEngineError z))"
    | "x = None" "effs = e1" "res = RouterKilled" "stop_signal h = SigTerm"
    | "x = None" "effs = e1 @ e2" "res = RouterReturned (map_option RouterEngineError y)"
    using assms unfolding runRouterEngine_def Let_def st sp prod.case
    by (cases x; cases "stop_signal h") (auto split: if_splits option.splits)
  then show ?thesis
  proof cases
    case 1
    then show ?thesis by (rule skipped)
  next
    case 2
    then have "\<not> runner_set eng"
      using failed_start_idle [OF NewEngine_cfg(2)] st by blast
    moreover have "do_calls isp [CallStart ?senv] (NewEngine ?cfg) = (effs, eng)"
      using st 2 by simp
    ultimately show ?thesis
      using 2(3) returned n by metis
  next
    case 3
    then show ?thesis
      using killed st n by simp
  next
    case 4
    have "\<not> runner_set eng2"
      using stopped_idle [of ?tenv eng] sp by simp
    moreover have "do_calls isp [CallStart ?senv, CallStop ?tenv] (NewEngine ?cfg) = (effs, eng2)"
      using st sp 4 by simp
    ultimately show ?thesis
      using 4(3) returned n by metis
  qed
qed

lemma do_calls_batches:
  assumes "engine_inv isp e" and "BuildRuleSet isp (eng_cfg e) = Inr r" and "do_calls isp cs e = (effs, e')"
    and "ApplyBatch b ok \<in> set effs"
  shows "b = SetupBatch r \<or> b = TeardownBatch r"
  using assms
proof (induction cs arbitrary: e effs)
  case (Cons c cs)
  obtain x e1 eng where c: "do_call isp c e = (x, e1, eng)"
    by (rule prod_cases3)
  obtain e2 where cs: "do_calls isp cs eng = (e2, e')" and effs: "effs = e1 @ e2"
    using Cons.prems(3) c by (auto split: prod.splits)
  have inv: "engine_inv isp eng"
    using engine_inv_calls [OF Cons.prems(1), of "[c]"] c by simp
  have cfg: "BuildRuleSet isp (eng_cfg eng) = Inr r"
    using cfg_kept [of isp c e] c Cons.prems(2) by simp
  have "b = SetupBatch r \<or> b = TeardownBatch r" if "ApplyBatch b ok \<in> set e1"
  proof (cases c)
    case (CallStart env)
    show ?thesis
    proof (cases "runner_set e")
      case True
      with CallStart c that StartEngine_running [of e isp env] show ?thesis by auto
    next
      case False
      then show ?thesis
        by (cases rule: StartEngine_outcomes [of e isp env]) (use CallStart c that Cons.prems(2) in auto)
    qed
  next
    case (CallStop env)
    show ?thesis
    proof (cases "runner_set e")
      case True
      with Cons.prems(1,2) have "eng_rules e = r"
        by (simp add: engine_inv_def)
      with True CallStop c that StopEngine_running [OF Cons.prems(1), of env] show ?thesis by auto
    next
      case False
      with CallStop c that StopEngine_idle [OF Cons.prems(1), of env] show ?thesis by auto
    qed
  qed
  with Cons.IH [OF inv cfg cs] effs Cons.prems(4) show ?case by auto
qed simp

subsection \<open>A sample host\<close>

text \<open>A Linux host on which every call succeeds, and the flags \<open>--wan eth0\<close> with either backend.\<close>

definition linux_host :: host where
  "linux_host = \<lparr>goos = ''linux'', privileges = None, nft_cmd = (\<lambda>_. ([], None)), queue_runner = None,
     queue_outcome = None, queue_stop = None, queue_done = Some Canceled, stop_signal = SigInterrupt\<rparr>"

definition eth0_flags :: "string \<Rightarrow> router_flags" where
  "eth0_flags backend = addRouterFlags\<lparr>f_wan := ''eth0'', f_backend := backend\<rparr>"

lemma ToLower_samples: "trim_space (ToLower lower ''nfqueue'') = ''nfqueue''" "trim_space (ToLower lower ''DryRun'') = ''dryrun''"
proof -
  have "map ascii_lower ''nfqueue'' = ''nfqueue''" "map ascii_lower ''DryRun'' = ''dryrun''"
    by code_simp+
  then have "ToLower lower ''nfqueue'' = ''nfqueue''" "ToLower lower ''DryRun'' = ''dryrun''"
    by (simp_all add: ToLower_def)
  moreover have "trim_space ''nfqueue'' = ''nfqueue''" "trim_space ''dryrun'' = ''dryrun''"
    by (intro trim_space_id trimmed_visible; simp add: visible_def)+
  ultimately show "trim_space (ToLower lower ''nfqueue'') = ''nfqueue''" "trim_space (ToLower lower ''DryRun'') = ''dryrun''"
    by simp_all
qed

lemma eth0_flags_config:
  "trim_space (ToLower lower b) = Backend c \<Longrightarrow> c \<in> {eth0_config, eth0_config\<lparr>Backend := ''dryrun''\<rparr>} \<Longrightarrow>
   Normalized (routerConfigFromFlags lower (eth0_flags b)) = Normalized c"
  by (rule Config.equality)
    (auto simp: routerConfigFromFlags_def eth0_flags_def addRouterFlags_def DefaultConfig_def splitTargets_def
      default_targets_trimmed [unfolded DefaultConfig_def, simplified])

lemma eth0_nfqueue: "Normalized (routerConfigFromFlags lower (eth0_flags ''nfqueue'')) = Normalized eth0_config"
  by (rule eth0_flags_config) (simp_all add: ToLower_samples DefaultConfig_def)

lemma eth0_dryrun: "Normalized (routerConfigFromFlags lower (eth0_flags ''DryRun'')) = Normalized (eth0_config\<lparr>Backend := ''dryrun''\<rparr>)"
  by (rule eth0_flags_config) (simp_all add: ToLower_samples)

lemma same_normalized:
  "Normalized c = Normalized d \<Longrightarrow> Validate c = Validate d \<and> BuildRuleSet isp c = BuildRuleSet isp d"
  by (metis Validate_Normalized BuildRuleSet_Normalized)

lemma linux_host_calls [simp]:
  "goos linux_host = ''linux''" "privileges linux_host = None" "queue_outcome linux_host = None"
  "queue_stop linux_host = None" "queue_done linux_host = Some Canceled" "stop_signal linux_host = SigInterrupt"
  "defaultBatchApplier linux_host b = None"
  "defaultRunnerFactory linux_host = None"
  by (simp_all add: linux_host_def defaultBatchApplier_def defaultRunnerFactory_def)

lemma eth0_nfqueue_rules: "\<exists>r. BuildRuleSet isp (routerConfigFromFlags lower (eth0_flags ''nfqueue'')) = Inr r"
  using same_normalized [OF eth0_nfqueue] eth0_rules by metis

subsection \<open>Properties\<close>

text \<open>
  C30. What the flags of the router command amount to: out-of-range ports are dropped, and when none is
  left (so also for \<open>--tcp-ports 70000\<close>) the default 443 is intercepted instead; the queue number is
  taken modulo 65536, and 0 means the default 200.
\<close>

theorem router_flags_effective:
  "let cfg = Normalized (routerConfigFromFlags lower f);
       dflt = (\<lambda>ps. if ps = [] then [443] else ps)
   in map unat (TCPPorts cfg) = dflt (valid_ports (f_tcp_ports f)) \<and>
      map unat (UDPPorts cfg) = dflt (valid_ports (f_udp_ports f)) \<and>
      unat (QueueNum cfg) = (let q = unat (f_queue_num f) mod 65536 in if q = 0 then 200 else q)"
  by (simp add: Let_def routerConfigFromFlags_def Normalized_def DefaultConfig_def unat_intSliceToPorts
      intSliceToPorts_Nil unat_ucast_u16 ucast_u16_zero)

text \<open>
  The tables in the kernel after a run: the dry-run backend applies nothing.
\<close>

definition run_tables :: "QueueBackend \<Rightarrow> RuleSet \<Rightarrow> engine_effect list \<Rightarrow> string set \<Rightarrow> string set" where
  "run_tables backend r effs tables = (if backend = QueueBackendDryRun then tables else nft_effects r effs tables)"

lemma router_run_tidy:
  assumes "BuildRuleSet isp (routerConfigFromFlags lower f) = Inr r" and "runRouterEngine lower isp h f = (RouterReturned err, effs)"
  shows "live_runners effs = 0" and "RuleTable r \<in> run_tables backend r effs tables \<Longrightarrow> RuleTable r \<in> tables \<or> left_over r effs"
proof -
  have "live_runners effs = 0 \<and> (RuleTable r \<in> nft_effects r effs tables \<longrightarrow> RuleTable r \<in> tables \<or> left_over r effs)"
    using assms(2)
  proof (cases rule: runRouterEngine_calls)
    case skipped
    then show ?thesis by (simp add: live_runners_def)
  next
    case (returned cs e err)
    let ?e = "NewEngine (routerConfigFromFlags lower f)"
    have "table_after r tables ?e effs e"
      by (rule calls_table_after [OF engine_inv_New _ _ returned(1)]) (use assms(1) in \<open>simp_all del: Normalized_fields\<close>)
    then show ?thesis
      using returned(2) by (auto simp: table_after_def)
  next
    case (killed env e)
    then show ?thesis by simp
  qed
  then show "live_runners effs = 0" "RuleTable r \<in> run_tables backend r effs tables \<Longrightarrow> RuleTable r \<in> tables \<or> left_over r effs"
    by (auto simp: run_tables_def split: if_splits)
qed

lemma router_run_killed:
  assumes "BuildRuleSet isp (routerConfigFromFlags lower f) = Inr r" and "runRouterEngine lower isp h f = (RouterKilled, effs)"
    and "backend = Backend (Normalized (routerConfigFromFlags lower f))" and "backend \<noteq> QueueBackendDryRun"
  shows "stop_signal h = SigTerm \<and> (RuleTable r \<in> nft_effects r effs tables \<longleftrightarrow> queue_outcome h = None)"
  using assms(2)
proof (cases rule: runRouterEngine_calls)
  case (killed env e)
  let ?e = "NewEngine (routerConfigFromFlags lower f)"
  have r: "BuildRuleSet isp (eng_cfg ?e) = Inr r"
    using assms(1) by (simp del: Normalized_fields)
  have env: "start_outcome env = queue_outcome h"
    using killed(4) assms(3,4) by (simp add: start_env_of_def del: Normalized_fields)
  show ?thesis
    by (cases rule: StartEngine_outcomes [OF NewEngine_cfg(2), of isp env "routerConfigFromFlags lower f"])
      (use killed(1,3) r env batches_differ [OF r] in \<open>auto simp: nft_apply_def\<close>)
qed simp_all

text \<open>
  C29. What a run of the router leaves behind, for flags that amount to a valid configuration. If it
  returns, however its calls end, every runner it started is stopped, and its table is there only if it
  was there before or if nft refused to delete it and has accepted no batch since. But only the interrupt
  signal stops a run in an orderly way: if \<open>SIGTERM\<close> ends it, its table stays in the kernel, with the rules
  that queue packets for a process that is gone, unless the worker had returned during \<open>Start\<close>. (The
  dry-run backend applies nothing.)
\<close>

theorem router_run_leaves_nothing:
  assumes "BuildRuleSet isp (routerConfigFromFlags lower f) = Inr r" and "runRouterEngine lower isp h f = (res, effs)"
    and "backend = Backend (Normalized (routerConfigFromFlags lower f))"
  shows "case res of
      RouterReturned err \<Rightarrow> live_runners effs = 0 \<and>
        (RuleTable r \<in> run_tables backend r effs tables \<longrightarrow> RuleTable r \<in> tables \<or> left_over r effs)
    | RouterKilled \<Rightarrow> backend \<noteq> QueueBackendDryRun \<longrightarrow>
        stop_signal h = SigTerm \<and> (RuleTable r \<in> run_tables backend r effs tables \<longleftrightarrow> queue_outcome h = None)"
proof (cases res)
  case (RouterReturned err)
  with router_run_tidy [OF assms(1), of h err effs] assms(2) show ?thesis by simp
next
  case RouterKilled
  with router_run_killed [OF assms(1) _ assms(3), of h effs tables] assms(2) show ?thesis by (simp add: run_tables_def)
qed

lemma linux_start:
  assumes "BuildRuleSet ascii_print (routerConfigFromFlags id (eth0_flags ''nfqueue'')) = Inr r"
  shows "runRouterEngine id ascii_print linux_host (eth0_flags ''nfqueue'') =
      (RouterReturned None, [NewRunner, ApplyBatch (SetupBatch r) True, RunnerStart, CancelCtx, RunnerStop, AwaitDone,
        ApplyBatch (TeardownBatch r) True])"
    and "runRouterEngine id ascii_print (linux_host\<lparr>stop_signal := SigTerm\<rparr>) (eth0_flags ''nfqueue'') =
      (RouterKilled, [NewRunner, ApplyBatch (SetupBatch r) True, RunnerStart])"
proof -
  let ?cfg = "Normalized eth0_config"
  have b: "BuildRuleSet ascii_print eth0_config = Inr r" and ro: "rules_of ascii_print ?cfg = r"
    using assms same_normalized [OF eth0_nfqueue [of id]] by (simp_all add: rules_of_def)
  have v: "Validate eth0_config = None"
    by (rule eth0_valid)
  have be: "Backend ?cfg = ''nfqueue''"
    by (simp add: DefaultConfig_def)
  have h: "defaultBatchApplier (linux_host\<lparr>stop_signal := SigTerm\<rparr>) b = None"
    "defaultRunnerFactory (linux_host\<lparr>stop_signal := SigTerm\<rparr>) = None" for b
    by (simp_all add: linux_host_def defaultBatchApplier_def defaultRunnerFactory_def)
  show "runRouterEngine id ascii_print linux_host (eth0_flags ''nfqueue'') =
      (RouterReturned None, [NewRunner, ApplyBatch (SetupBatch r) True, RunnerStart, CancelCtx, RunnerStop, AwaitDone,
        ApplyBatch (TeardownBatch r) True])"
    unfolding runRouterEngine_def eth0_nfqueue Let_def be ro
    by (simp add: StartEngine_def StopEngine_def NewEngine_def v b start_env_of_def stop_env_of_def clear_def Let_def
        del: Normalized_fields)
  show "runRouterEngine id ascii_print (linux_host\<lparr>stop_signal := SigTerm\<rparr>) (eth0_flags ''nfqueue'') =
      (RouterKilled, [NewRunner, ApplyBatch (SetupBatch r) True, RunnerStart])"
    unfolding runRouterEngine_def eth0_nfqueue Let_def be ro
    by (simp add: StartEngine_def NewEngine_def v b start_env_of_def h Let_def del: Normalized_fields)
qed

theorem router_run_leaves_nothing_witness:
  "\<exists>r effs effs'. runRouterEngine id ascii_print linux_host (eth0_flags ''nfqueue'') = (RouterReturned None, effs) \<and>
     ApplyBatch (SetupBatch r) True \<in> set effs \<and> live_runners effs = 0 \<and>
     runRouterEngine id ascii_print (linux_host\<lparr>stop_signal := SigTerm\<rparr>) (eth0_flags ''nfqueue'') = (RouterKilled, effs') \<and>
     RuleTable r \<in> nft_effects r effs' {}"
proof -
  obtain r where r: "BuildRuleSet ascii_print (routerConfigFromFlags id (eth0_flags ''nfqueue'')) = Inr r"
    using eth0_nfqueue_rules by blast
  note run = linux_start [OF r]
  have be: "''nfqueue'' = Backend (Normalized (routerConfigFromFlags id (eth0_flags ''nfqueue'')))"
    unfolding eth0_nfqueue by (simp add: DefaultConfig_def)
  from router_run_leaves_nothing [OF r run(1) be] router_run_leaves_nothing [OF r run(2) be, of "{}"] run show ?thesis
    by (intro exI [of _ r] exI) (auto simp: run_tables_def)
qed

text \<open>
  The plan is what a run does: if \<open>router plan\<close> prints a script, it is the script of the rules whose
  setup and teardown batches are the only ones that \<open>router run\<close> applies with the same flags; if the
  plan is refused, a run applies nothing.
\<close>

theorem router_plan_is_what_run_applies:
  assumes "runRouterEngine lower isp h f = (res, effs)"
  shows "case runRouterPlan lower isp f of
      Inr script \<Rightarrow> \<exists>r. script = ShellScript r \<and>
        (\<forall>b ok. ApplyBatch b ok \<in> set effs \<longrightarrow> b \<in> {SetupBatch r, TeardownBatch r})
    | Inl e \<Rightarrow> effs = [] \<and> (\<exists>x. res = RouterReturned (Some x))"
proof (cases "BuildRuleSet isp (routerConfigFromFlags lower f)")
  case (Inl x)
  let ?cfg = "Normalized (routerConfigFromFlags lower f)"
  have "Validate (eng_cfg (NewEngine ?cfg)) = Some x"
    using Inl BuildRuleSet_Inl [of isp "routerConfigFromFlags lower f" x] by (simp del: Normalized_fields)
  then have "StartEngine isp env (NewEngine ?cfg) = (Some (ConfigError x), [], NewEngine ?cfg)" for env
    by (simp add: StartEngine_def del: NewEngine_cfg)
  then have "effs = [] \<and> (\<exists>x. res = RouterReturned (Some x))"
    using assms by (auto simp: runRouterEngine_def Let_def split: if_splits option.splits)
  with Inl show ?thesis
    by (simp add: runRouterPlan_def)
next
  case (Inr r)
  have "b \<in> {SetupBatch r, TeardownBatch r}" if b: "ApplyBatch b ok \<in> set effs" for b ok
    using assms
  proof (cases rule: runRouterEngine_calls)
    case (returned cs e err)
    then show ?thesis
      using do_calls_batches [OF engine_inv_New _ returned(1) b] Inr by (simp del: Normalized_fields)
  next
    case (killed env e)
    then have "do_calls isp [CallStart env] (NewEngine (routerConfigFromFlags lower f)) = (effs, e)"
      by simp
    then show ?thesis
      using do_calls_batches [OF engine_inv_New _ _ b] Inr by (metis NewEngine_cfg(1) BuildRuleSet_Normalized insertCI)
  qed (use b in simp)
  with Inr show ?thesis
    by (auto simp: runRouterPlan_def)
qed

theorem router_plan_is_what_run_applies_witness:
  "\<exists>r. runRouterPlan id ascii_print (eth0_flags ''nfqueue'') = Inr (ShellScript r) \<and>
     (\<forall>b ok. ApplyBatch b ok \<in> set (snd (runRouterEngine id ascii_print linux_host (eth0_flags ''nfqueue''))) \<longrightarrow>
        b \<in> {SetupBatch r, TeardownBatch r})"
proof -
  obtain r where "BuildRuleSet ascii_print (routerConfigFromFlags id (eth0_flags ''nfqueue'')) = Inr r"
    using eth0_nfqueue_rules by blast
  then have plan: "runRouterPlan id ascii_print (eth0_flags ''nfqueue'') = Inr (ShellScript r)"
    by (simp add: runRouterPlan_def)
  have "runRouterEngine id ascii_print linux_host (eth0_flags ''nfqueue'') =
      (fst (runRouterEngine id ascii_print linux_host (eth0_flags ''nfqueue'')),
       snd (runRouterEngine id ascii_print linux_host (eth0_flags ''nfqueue'')))"
    by simp
  from router_plan_is_what_run_applies [OF this] show ?thesis
    unfolding plan by auto
qed

text \<open>
  A run touches the system only when it may: nft is run, or a packet queue is opened, only on Linux,
  with the backend \<open>nfqueue\<close> and the privileges; the dry-run backend succeeds on every valid
  configuration, on any system, without them and without running nft.
\<close>

theorem router_run_needs_privileges:
  assumes "runRouterEngine lower isp h f = (res, effs)"
    and "cfg = Normalized (routerConfigFromFlags lower f)"
  shows "(nft_batches h (Backend cfg) effs \<noteq> [] \<or> Backend cfg \<noteq> QueueBackendDryRun \<and> NewRunner \<in> set effs \<longrightarrow>
      goos h = ''linux'' \<and> Backend cfg = QueueBackendNFQueue \<and> privileges h = None) \<and>
    (Backend cfg = QueueBackendDryRun \<and> Validate cfg = None \<longrightarrow> res \<in> {RouterReturned None, RouterKilled} \<and> nft_batches h (Backend cfg) effs = [])"
proof (cases "Validate cfg")
  case None
  then have b: "Backend cfg = QueueBackendNFQueue \<or> Backend cfg = QueueBackendDryRun"
    using Validate_None [of cfg] assms(2) by (simp add: sound_config_def)
  show ?thesis
  proof (cases "Backend cfg = QueueBackendDryRun")
    case True
    let ?e = "NewEngine cfg" and ?r = "rules_of isp cfg"
    let ?env = "start_env_of h QueueBackendDryRun ?r"
    have c: "eng_cfg ?e = cfg"
      using assms(2) by (simp del: Normalized_fields)
    then have r: "BuildRuleSet isp (eng_cfg ?e) = Inr ?r" and v: "Validate (eng_cfg ?e) = None"
      using BuildRuleSet_rules_of [OF None] None by simp_all
    obtain e1 where st: "StartEngine isp ?env ?e = (None, e1)"
      using r v by (simp add: StartEngine_def start_env_of_def)
    have "StopEngine (stop_env_of h QueueBackendDryRun ?r) eng = (x, t) \<Longrightarrow> x = None" for eng x t
      by (auto simp: StopEngine_def Let_def stop_env_of_def split_def split: if_splits)
    with st True assms(1) have "res \<in> {RouterReturned None, RouterKilled}"
      by (cases "stop_signal h") (auto simp: runRouterEngine_def Let_def assms(2) [symmetric] split: prod.splits)
    with True show ?thesis
      by (simp add: nft_batches_def) (induction effs; simp split: engine_effect.splits)
  next
    case False
    with b assms show ?thesis
      by (auto simp: runRouterEngine_def Let_def nft_batches_def split: if_splits option.splits)
  qed
next
  case (Some x)
  have "Validate (eng_cfg (NewEngine cfg)) = Some x"
    using Some assms(2) by (simp del: Normalized_fields)
  then have "StartEngine isp env (NewEngine cfg) = (Some (ConfigError x), [], NewEngine cfg)" for env
    by (simp add: StartEngine_def del: NewEngine_cfg)
  then have "effs = []"
    using assms by (auto simp: runRouterEngine_def Let_def split: if_splits option.splits)
  with Some show ?thesis
    by (simp add: nft_batches_def)
qed

theorem router_run_needs_privileges_witness:
  "fst (runRouterEngine id ascii_print (linux_host\<lparr>goos := ''darwin'', privileges := Some ''not root''\<rparr>) (eth0_flags ''DryRun''))
     \<in> {RouterReturned None, RouterKilled}"
proof -
  let ?h = "linux_host\<lparr>goos := ''darwin'', privileges := Some ''not root''\<rparr>"
  have v: "Validate (Normalized (routerConfigFromFlags id (eth0_flags ''DryRun''))) = None"
  proof -
    have s: "sound_config (Normalized eth0_config)"
      using eth0_valid by (simp only: Validate_None)
    have "Normalized (eth0_config\<lparr>Backend := ''dryrun''\<rparr>) = (Normalized eth0_config)\<lparr>Backend := ''dryrun''\<rparr>"
      by (rule Config.equality) simp_all
    moreover have "sound_config c \<Longrightarrow> sound_config (c\<lparr>Backend := ''dryrun''\<rparr>)" for c
      by (cases c) (auto simp: sound_config_def simp del: tableNameRE.simps)
    ultimately have "sound_config (Normalized (eth0_config\<lparr>Backend := ''dryrun''\<rparr>))"
      using s by metis
    then show ?thesis
      using same_normalized [OF eth0_dryrun] by (simp add: Validate_None del: Normalized_fields)
  qed
  have b: "Backend (Normalized (routerConfigFromFlags id (eth0_flags ''DryRun''))) = QueueBackendDryRun"
    unfolding eth0_dryrun by simp
  obtain err effs where run: "runRouterEngine id ascii_print ?h (eth0_flags ''DryRun'') = (err, effs)"
    by fastforce
  from router_run_needs_privileges [OF run refl] v b run show ?thesis by simp
qed

subsection \<open>The report\<close>

lemma concat_lines: "concat (map (\<lambda>x. ''- '' @ x @ [nl]) xs) = concat (map (\<lambda>l. l @ [nl]) (map (\<lambda>x. ''- '' @ x) xs))"
  by (simp add: o_def)

definition report_lines :: "DryRun \<Rightarrow> string list" where
  "report_lines d =
     [''Router probe dry run'', ''Queue: '' @ dec (unat (dQueueNum d)), ''Targets: '' @ join_with '', '' (dTargets d), [],
      ''Candidates:''] @ map (\<lambda>c. ''- '' @ cName c @ '' ['' @ candidate_mode c @ '']'') (dCandidates d) @
     [[], ''Setup commands:''] @ map (\<lambda>x. ''- '' @ x) (dSetupCommands d) @
     [[], ''Steps:''] @ map (\<lambda>x. ''- '' @ x) (dSteps d) @
     [[], ''Teardown commands:''] @ map (\<lambda>x. ''- '' @ x) (dTeardownCommands d)"

lemma Text_lines: "Text d = concat (map (\<lambda>l. l @ [nl]) (report_lines d))"
  by (simp add: Text_def report_lines_def bullets_def o_def)

lemma nl_not_joinPorts: "nl \<notin> set (joinPorts ports)"
  using set_join_with [of "'', ''" "map (\<lambda>p. dec (unat p)) ports"] by (auto simp: joinPorts_def)

lemma nl_not_steps: "s \<in> set (dry_run_steps isp cfg rules plan) \<Longrightarrow> nl \<notin> set s"
  by (auto simp: dry_run_steps_def nl_not_joinPorts go_quote_no_newline split: if_splits)

lemma nl_not_queue_rule: "nl \<notin> set (TableName cfg) \<Longrightarrow> nl \<notin> set ch \<Longrightarrow> nl \<notin> set pr \<Longrightarrow> nl \<notin> set (queue_rule isp cfg ch pr ports)"
  by (simp add: queue_rule_def go_quote_no_newline)

lemma nl_not_commands:
  assumes "nl \<notin> set (TableName cfg)" and "s \<in> set (setup_commands isp cfg)"
  shows "nl \<notin> set s"
  using assms nl_not_queue_rule [OF assms(1)]
  by (auto simp: setup_commands_def Let_def queue_rule_def go_quote_no_newline split: if_splits)

lemma nl_not_parts: "\<forall>t \<in> set ts. nl \<notin> set t \<Longrightarrow> t \<in> set (splitTargets ts) \<Longrightarrow> nl \<notin> set t"
proof -
  have part: "nl \<notin> set l \<Longrightarrow> p \<in> set (split_on CHR '','' l) \<Longrightarrow> nl \<notin> set p" for l p
  proof (induction l arbitrary: p)
    case (Cons x l)
    then show ?case
      by (cases "split_on CHR '','' l") (auto split: if_splits)
  qed simp
  have "t \<in> set (split_parts ps) \<Longrightarrow> \<exists>p \<in> set ps. t = trim_space p" for ps
    by (induction ps) (auto simp: Let_def split: if_splits)
  then show "\<forall>t \<in> set ts. nl \<notin> set t \<Longrightarrow> t \<in> set (splitTargets ts) \<Longrightarrow> nl \<notin> set t"
    using part set_trim_space by (fastforce simp: splitTargets_def)
qed

text \<open>
  The report of \<open>router probe\<close>, line by line: the effective queue number, the targets of the flags
  (or the default ones), the one default candidate, every setup and teardown command of the rules of
  the same flags, and five steps; nothing in it can break a line, whatever the interface name.
\<close>

theorem router_probe_report:
  assumes "runRouterProbe lower isp f = Inr out" and "\<forall>t \<in> set (f_targets f). nl \<notin> set t"
  shows "\<exists>r steps. BuildRuleSet isp (routerConfigFromFlags lower f) = Inr r \<and> length steps = 5 \<and>
    split_on nl out =
      [''Router probe dry run'',
       ''Queue: '' @ dec (unat (QueueNum (Normalized (routerConfigFromFlags lower f)))),
       ''Targets: '' @ join_with '', '' (if splitTargets (f_targets f) = [] then [''discord.com'', ''youtube.com'']
          else splitTargets (f_targets f)), [],
       ''Candidates:'', ''- tcp-fake-clienthello-low-ttl [tcp]'', [],
       ''Setup commands:''] @ map (\<lambda>x. ''- '' @ x) (Setup r) @
      [[], ''Steps:''] @ map (\<lambda>x. ''- '' @ x) steps @
      [[], ''Teardown commands:''] @ map (\<lambda>x. ''- '' @ x) (Teardown r) @ [[]]"
proof -
  let ?cfg = "routerConfigFromFlags lower f"
  let ?plan = "\<lparr>pQueueNum = 0, pTargets = splitTargets (f_targets f), pCandidates = []\<rparr>"
  let ?p = "normalizePlan (Normalized ?cfg) ?plan"
  obtain d where d: "BuildDryRun isp ?cfg ?plan = Inr d" and out: "out = Text d"
    using assms(1) by (auto simp: runRouterProbe_def split: sum.splits)
  from d obtain r where r: "BuildRuleSet isp ?cfg = Inr r"
    by (auto simp: BuildDryRun_def Let_def simp del: Normalized_fields split: sum.splits)
  let ?steps = "dry_run_steps isp (Normalized ?cfg) r ?p"
  have d': "d = \<lparr>dQueueNum = pQueueNum ?p, dTargets = pTargets ?p, dCandidates = pCandidates ?p,
      dSetupCommands = Setup r, dTeardownCommands = Teardown r, dSteps = ?steps\<rparr>"
    using d r by (simp add: BuildDryRun_def Let_def del: Normalized_fields)
  have probe: "ProbeTargets (Normalized ?cfg) = [''discord.com'', ''youtube.com'']" if "splitTargets (f_targets f) = []"
    using that by (simp add: Normalized_def routerConfigFromFlags_def DefaultConfig_def Let_def)
  have p: "pQueueNum ?p = QueueNum (Normalized ?cfg)"
    "pTargets ?p = (if splitTargets (f_targets f) = [] then [''discord.com'', ''youtube.com''] else splitTargets (f_targets f))"
    "pCandidates ?p = pCandidates DefaultPlan"
    using probe by (simp_all add: normalizePlan_def Let_def del: Normalized_fields)
  have rs: "Setup r = setup_commands isp (Normalized ?cfg)" "Teardown r = [''nft delete table inet '' @ TableName (Normalized ?cfg)]"
    "RuleTable r = TableName (Normalized ?cfg)" "nl \<notin> set (TableName (Normalized ?cfg))"
    using r BuildRuleSet_Inr(2) [OF r] nl_not_table
    by (auto simp: BuildRuleSet_def Let_def simp del: Normalized_fields split: option.splits)
  have targets: "nl \<notin> set (join_with '', '' (pTargets ?p))"
    using set_join_with [of "'', ''" "pTargets ?p"] nl_not_parts [OF assms(2)] unfolding p(2)
    by (auto split: if_splits)
  have clean: "nl \<notin> set l" if "l \<in> set (report_lines d)" for l
    using that targets nl_not_steps [of _ isp "Normalized ?cfg" r ?p] nl_not_commands [OF rs(4)] rs(4)
    unfolding report_lines_def d' DryRun.simps p(3) rs(1,2)
    by (auto simp: DefaultPlan_def candidate_mode_def simp del: Normalized_fields)
  have "split_on nl out = report_lines d @ [[]]"
    unfolding out Text_lines by (rule split_lines_concat [OF clean])
  moreover have "length ?steps = 5"
    by (simp add: dry_run_steps_def)
  ultimately show ?thesis
    using r by (intro exI [of _ r] exI [of _ ?steps])
      (simp add: report_lines_def d' p DefaultPlan_def candidate_mode_def del: Normalized_fields)
qed

lemma dec_200: "dec 200 = ''200''"
  by code_simp

theorem router_probe_report_witness:
  "\<exists>out. runRouterProbe id ascii_print (eth0_flags ''nfqueue'') = Inr out \<and>
     ''Queue: 200'' \<in> set (split_on nl out) \<and> ''- tcp-fake-clienthello-low-ttl [tcp]'' \<in> set (split_on nl out)"
proof -
  let ?f = "eth0_flags ''nfqueue''"
  obtain r where "BuildRuleSet ascii_print (routerConfigFromFlags id ?f) = Inr r"
    using eth0_nfqueue_rules by blast
  then have "\<exists>out. runRouterProbe id ascii_print ?f = Inr out"
    by (simp add: runRouterProbe_def BuildDryRun_def Let_def del: Normalized_fields)
  then obtain out where run: "runRouterProbe id ascii_print ?f = Inr out" by blast
  have "\<forall>t \<in> set (f_targets ?f). nl \<notin> set t"
    by (simp add: eth0_flags_def addRouterFlags_def)
  moreover have "dec (unat (QueueNum (Normalized (routerConfigFromFlags id ?f)))) = ''200''"
    unfolding eth0_nfqueue using dec_200 by (simp add: DefaultConfig_def del: dec.simps)
  ultimately show ?thesis
    using router_probe_report [OF run] run by auto
qed

end
