(* ===== verification/CmdTree.thy ===== *)
theory CmdTree
  imports RunTun RouterCmd
begin

text \<open>
  The other commands of gecit and what surrounds all of them (cmd/gecit/main.go, cmd/gecit/app): the
  defaults of the flags, the check of the privileges, \<open>gecit status\<close>, \<open>gecit cleanup\<close>, and the exit code.
  Parsing the command line is the work of cobra and viper: a command comes with its parsed flags. What is
  proved: the defaults amount to the default configuration, a refused command touches nothing, any
  sequence of commands closes what it opens, and a machine whose \<open>gecit run\<close> was killed is put in order
  by one \<open>gecit cleanup\<close>.
\<close>

subsection \<open>Flags and privileges\<close>

text \<open>The defaults of the flags of \<open>run\<close>, under the keys viper binds them to.\<close>

definition run_defaults :: run_flags where
  "run_defaults = \<lparr>v_mss = 88, v_restore_mss = 0, v_restore_after_bytes = 600, v_ports = [443], v_interface = [],
     v_cgroup_path = ''/sys/fs/cgroup'', v_fake_ttl = 8, v_doh_enabled = True, v_doh_upstream = ''cloudflare''\<rparr>"

text \<open>A dash U+2014 in the texts, three bytes of UTF-8.\<close>

definition dash :: string where
  "dash = [CHR 0xE2, CHR 0x80, CHR 0x94]"

definition checkPrivileges_unix :: "nat \<Rightarrow> string err" where
  "checkPrivileges_unix euid =
     (if euid \<noteq> 0 then Some (''gecit requires root privileges '' @ dash @ '' run with sudo'') else None)"

text \<open>\<open>sid\<close> is the error of building the administrators' SID, \<open>member\<close> the answer of the token.\<close>

definition checkPrivileges_windows :: "string err \<Rightarrow> string + bool \<Rightarrow> string err" where
  "checkPrivileges_windows sid member =
     (case sid of
        Some e \<Rightarrow> Some (''check admin: '' @ e)
      | None \<Rightarrow>
          (case member of
             Inl e \<Rightarrow> Some (''check admin: '' @ e)
           | Inr m \<Rightarrow>
               if \<not> m then Some (''gecit requires Administrator privileges '' @ dash @ '' run as Administrator'') else None))"

subsection \<open>status\<close>

definition boolStatus :: "bool \<Rightarrow> string" where
  "boolStatus ok = (if ok then ''supported'' else ''NOT supported'')"

definition platform_status_linux :: "nat \<Rightarrow> bool \<Rightarrow> bool \<Rightarrow> string list" where
  "platform_status_linux euid sock_ops setsockopt =
     [''  engine:     ebpf-sockops''] @
     (if euid \<noteq> 0 then [''  (run with sudo for accurate capability detection)'']
      else [''  sock_ops:   '' @ boolStatus sock_ops, ''  setsockopt: '' @ boolStatus setsockopt])"

definition platform_status_darwin :: "nat \<Rightarrow> string list" where
  "platform_status_darwin euid =
     [''  engine:     tun''] @
     (if euid \<noteq> 0 then [''  (run with sudo for accurate capability detection)''] else [''  raw socket: available''])"

definition platform_status_windows :: "string err \<Rightarrow> string list" where
  "platform_status_windows refused =
     [''  engine:     tun (wintun)''] @
     (if refused \<noteq> None then [''  (run as Administrator for accurate capability detection)''] else [''  wintun:     available''])"

definition showStatus :: "string \<Rightarrow> string \<Rightarrow> string list \<Rightarrow> string list" where
  "showStatus os arch platform_status =
     [''gecit status'', ''  platform: '' @ os @ ''/'' @ arch] @ platform_status"

subsection \<open>cleanup\<close>

definition runCleanup :: "bool \<Rightarrow> string" where
  "runCleanup cleaned = (if cleaned then ''cleanup complete '' @ dash @ '' system settings restored'' else ''nothing to clean up'')"

text \<open>The command on Linux: its output and resolv.conf.\<close>

definition cleanup_linux :: "writer \<Rightarrow> string option \<Rightarrow> string \<times> string option" where
  "cleanup_linux w conf = (let (cleaned, conf) = platformCleanup_linux w conf in (runCleanup cleaned, conf))"

subsection \<open>The commands of the Linux build\<close>

datatype gecit_command =
    RunCommand bool "string list" run_flags
  | RouterRunCommand router_flags
  | RouterPlanCommand router_flags
  | RouterProbeCommand router_flags
  | StatusCommand
  | CleanupCommand

text \<open>
  The machine: the user, what the calls of \<open>run\<close> and \<open>router\<close> return, the kernel's features, and the
  mapping of lower case outside ASCII and of printable runes.
\<close>

record machine =
  m_euid :: nat
  m_goarch :: string
  m_run :: run_host
  m_router :: host
  m_sock_ops :: bool
  m_setsockopt :: bool
  m_lower :: "string \<Rightarrow> string"
  m_printable :: "nat \<Rightarrow> bool"
  m_write :: writer

text \<open>
  What a command does: whether it ends in an error or is killed by \<open>SIGTERM\<close>, its output, the effects of
  an engine, resolv.conf.
\<close>

record outcome =
  o_failed :: bool
  o_killed :: bool
  o_output :: string
  o_engine :: "engine_eff list"
  o_router :: "engine_effect list"
  o_conf :: "string option"

definition lines_text :: "string list \<Rightarrow> string" where
  "lines_text ls = concat (map (\<lambda>l. l @ [nl]) ls)"

definition as_root :: "machine \<Rightarrow> machine" where
  "as_root m = m\<lparr>m_run := (m_run m)\<lparr>rh_privileges := checkPrivileges_unix (m_euid m)\<rparr>,
     m_router := (m_router m)\<lparr>goos := ''linux'', privileges := checkPrivileges_unix (m_euid m)\<rparr>\<rparr>"

text \<open>
  \<open>rootCmd.Execute\<close> runs the function that was registered for the chosen command as its \<open>RunE\<close> (\<open>runCmd\<close>,
  \<open>routerRunCmd\<close>, \<open>routerPlanCmd\<close>, \<open>routerProbeCmd\<close>, \<open>statusCmd\<close>, \<open>cleanupCmd\<close>) and returns its error.
\<close>

definition Execute :: "machine \<Rightarrow> gecit_command \<Rightarrow> string option \<Rightarrow> outcome" where
  "Execute m cmd conf =
     (let m = as_root m in
      case cmd of
        RunCommand detach args v \<Rightarrow>
          let (result, effs, conf) = runEngine (m_run m) (m_write m) detach args v conf
          in \<lparr>o_failed = (case result of Returned (Some e) \<Rightarrow> True | _ \<Rightarrow> False), o_killed = False, o_output = [], o_engine = effs, o_router = [], o_conf = conf\<rparr>
      | RouterRunCommand f \<Rightarrow>
          let (res, effs) = runRouterEngine (m_lower m) (m_printable m) (m_router m) f
          in \<lparr>o_failed = (case res of RouterReturned (Some e) \<Rightarrow> True | _ \<Rightarrow> False), o_killed = (res = RouterKilled), o_output = [], o_engine = [], o_router = effs, o_conf = conf\<rparr>
      | RouterPlanCommand f \<Rightarrow>
          (case runRouterPlan (m_lower m) (m_printable m) f of
             Inl e \<Rightarrow> \<lparr>o_failed = True, o_killed = False, o_output = [], o_engine = [], o_router = [], o_conf = conf\<rparr>
           | Inr text \<Rightarrow> \<lparr>o_failed = False, o_killed = False, o_output = text, o_engine = [], o_router = [], o_conf = conf\<rparr>)
      | RouterProbeCommand f \<Rightarrow>
          (case runRouterProbe (m_lower m) (m_printable m) f of
             Inl e \<Rightarrow> \<lparr>o_failed = True, o_killed = False, o_output = [], o_engine = [], o_router = [], o_conf = conf\<rparr>
           | Inr text \<Rightarrow> \<lparr>o_failed = False, o_killed = False, o_output = text, o_engine = [], o_router = [], o_conf = conf\<rparr>)
      | StatusCommand \<Rightarrow>
          \<lparr>o_failed = False, o_killed = False,
           o_output = lines_text (showStatus ''linux'' (m_goarch m) (platform_status_linux (m_euid m) (m_sock_ops m) (m_setsockopt m))),
           o_engine = [], o_router = [], o_conf = conf\<rparr>
      | CleanupCommand \<Rightarrow>
          let (text, conf) = cleanup_linux (m_write m) conf
          in \<lparr>o_failed = False, o_killed = False, o_output = lines_text [text], o_engine = [], o_router = [], o_conf = conf\<rparr>)"

text \<open>The exit code of a command that is not killed.\<close>

definition exit_code :: "outcome \<Rightarrow> nat" where
  "exit_code out = (if o_failed out then 1 else 0)"

subsection \<open>Lemmas\<close>

lemma run_defaults_config: "run_config run_defaults = DefaultEngineConfig"
  by (simp add: run_config_def run_defaults_def DefaultEngineConfig_def toUint16Slice_def)

text \<open>What a set and a restore make of resolv.conf stays the same from then on.\<close>

lemma tidy_idem: "tidy_lines (tidy_lines ls) = tidy_lines ls"
proof -
  have keep: "(if is_nameserver l then trim_space l else l) = l" "\<not> blank l" "\<not> is_gecit l"
    if l: "l \<in> set (tidy_lines ls)" for l
  proof -
    show "\<not> blank l" "\<not> is_gecit l"
      using tidy_clean(1,2) [OF l] by (simp_all add: blank_def is_gecit_def)
    from l obtain k where "l = (if is_nameserver k then trim_space k else k)"
      unfolding tidy_lines_def set_map by blast
    then show "(if is_nameserver l then trim_space l else l) = l"
      by (cases "is_nameserver k") (auto simp: is_nameserver_def)
  qed
  have "tidy_lines ks = ks" if "\<And>l. l \<in> set ks \<Longrightarrow> (if is_nameserver l then trim_space l else l) = l \<and> \<not> blank l \<and> \<not> is_gecit l" for ks
    using that by (induction ks) (auto simp: tidy_lines_def split: if_splits)
  with keep show ?thesis by blast
qed

definition final_lines :: "string \<Rightarrow> string list" where
  "final_lines orig = (let kept = tidy_lines (split_on nl orig) in if kept = [] then [''nameserver 8.8.8.8''] else kept)"

lemma restored_eq: "restored orig = file_text (final_lines orig)"
  by (simp add: restored_def final_lines_def Let_def)

lemma final_lines_clean:
  "final_lines orig \<noteq> []" "l \<in> set (final_lines orig) \<Longrightarrow> \<not> has_prefix (trim_space l) ''# gecit'' \<and> nl \<notin> set l"
  "tidy_lines (final_lines orig) = final_lines orig"
proof -
  have ns: "trim_space ''nameserver 8.8.8.8'' = ''nameserver 8.8.8.8''"
    by (intro trim_space_id trimmed_visible) (simp_all add: visible_def)
  show "final_lines orig \<noteq> []"
    by (simp add: final_lines_def Let_def)
  show "\<not> has_prefix (trim_space l) ''# gecit'' \<and> nl \<notin> set l" if l: "l \<in> set (final_lines orig)"
  proof (cases "tidy_lines (split_on nl orig) = []")
    case True
    with l have "l = ''nameserver 8.8.8.8''"
      by (simp add: final_lines_def)
    then show ?thesis by (simp only: ns) simp
  next
    case False
    with l have "l \<in> set (tidy_lines (split_on nl orig))"
      by (simp add: final_lines_def)
    then show ?thesis
      using tidy_clean(1,3) split_on_no_sep by blast
  qed
  have "tidy_lines [''nameserver 8.8.8.8''] = [''nameserver 8.8.8.8'']"
    by (simp add: tidy_lines_def is_nameserver_def is_gecit_def blank_def ns)
  then show "tidy_lines (final_lines orig) = final_lines orig"
    by (simp add: final_lines_def Let_def tidy_idem)
qed

lemma restored_no_state: "\<not> hasGecitDNSState (restored orig)"
  unfolding restored_eq by (rule file_text_clean [OF final_lines_clean(1,2)])

lemma restored_idem: "restored (restored orig) = restored orig"
proof -
  have "split_on nl (restored orig) = final_lines orig @ [[]]"
    unfolding restored_eq file_text_def using final_lines_clean by (intro split_file_lines) auto
  moreover have "tidy_lines [[]] = []"
    by (simp add: tidy_lines_def blank_def)
  ultimately have "final_lines (restored orig) = final_lines orig"
    using final_lines_clean [of orig] by (simp add: final_lines_def [of "restored orig"])
  then show ?thesis
    by (simp add: restored_eq)
qed

text \<open>
  How one command ends. \<open>gecit router run\<close>, if it is not killed, has stopped every runner it started and
  leaves its table only if it was there before or if nft refused to delete it.
\<close>

definition router_tidy :: "machine \<Rightarrow> router_flags \<Rightarrow> engine_effect list \<Rightarrow> bool" where
  "router_tidy m f effs \<longleftrightarrow> live_runners effs = 0 \<and>
     (\<forall>r tables. BuildRuleSet (m_printable m) (routerConfigFromFlags (m_lower m) f) = Inr r \<longrightarrow>
        RuleTable r \<in> run_tables (Backend (Normalized (routerConfigFromFlags (m_lower m) f))) r effs tables \<longrightarrow>
        RuleTable r \<in> tables \<or> left_over r effs)"

definition router_flags_of :: "gecit_command \<Rightarrow> router_flags option" where
  "router_flags_of cmd = (case cmd of RouterRunCommand f \<Rightarrow> Some f | _ \<Rightarrow> None)"

definition ends_tidy :: "machine \<Rightarrow> gecit_command \<Rightarrow> outcome \<Rightarrow> bool" where
  "ends_tidy m cmd out \<longleftrightarrow> eng_track (o_engine out) {} = Some {} \<and>
     (case router_flags_of cmd of
        Some f \<Rightarrow> (if o_killed out then stop_signal (m_router m) = SigTerm else router_tidy m f (o_router out)) \<and>
          (m_euid m \<noteq> 0 \<longrightarrow>
             nft_batches (m_router (as_root m)) (Backend (Normalized (routerConfigFromFlags (m_lower m) f))) (o_router out) = [])
      | None \<Rightarrow> \<not> o_killed out \<and> o_router out = []) \<and>
     (m_euid m \<noteq> 0 \<longrightarrow> o_engine out = [])"

lemma run_unprivileged:
  assumes "m_euid m \<noteq> 0" and "runEngine (m_run (as_root m)) w detach args v conf = (result, effs, conf')"
  shows "effs = []" and "conf' = conf"
  using assms by (auto simp: runEngine_def as_root_def checkPrivileges_unix_def split: if_splits option.splits)

lemma router_run_ends_tidy:
  assumes "runRouterEngine (m_lower m) (m_printable m) h f = (RouterReturned err, effs)"
  shows "router_tidy m f effs"
proof (cases "BuildRuleSet (m_printable m) (routerConfigFromFlags (m_lower m) f)")
  case (Inl x)
  then have "effs = []"
    using router_plan_is_what_run_applies [OF assms] by (simp add: runRouterPlan_def)
  with Inl show ?thesis
    by (simp add: router_tidy_def live_runners_def)
next
  case (Inr r)
  from router_run_tidy [OF Inr assms] Inr show ?thesis
    by (auto simp: router_tidy_def)
qed

lemma Execute_router_tidy: "ends_tidy m (RouterRunCommand f) (Execute m (RouterRunCommand f) conf)"
proof -
  let ?h = "m_router (as_root m)"
  obtain res effs where r: "runRouterEngine (m_lower m) (m_printable m) ?h f = (res, effs)"
    by fastforce
  have e: "Execute m (RouterRunCommand f) conf =
      \<lparr>o_failed = (case res of RouterReturned (Some e) \<Rightarrow> True | _ \<Rightarrow> False), o_killed = (res = RouterKilled),
       o_output = [], o_engine = [], o_router = effs, o_conf = conf\<rparr>"
  proof -
    have "m_lower (as_root m) = m_lower m" "m_printable (as_root m) = m_printable m"
      by (simp_all add: as_root_def)
    with r show ?thesis by (simp add: Execute_def Let_def)
  qed
  have sig: "stop_signal ?h = stop_signal (m_router m)"
    by (simp add: as_root_def)
  have "nft_batches ?h (Backend (Normalized (routerConfigFromFlags (m_lower m) f))) effs = []" if "m_euid m \<noteq> 0"
  proof -
    have "privileges ?h \<noteq> None"
      using that by (simp add: as_root_def checkPrivileges_unix_def)
    with router_run_needs_privileges [OF r refl] show ?thesis by blast
  qed
  moreover have "if res = RouterKilled then stop_signal (m_router m) = SigTerm else router_tidy m f effs"
  proof (cases res)
    case (RouterReturned err)
    with router_run_ends_tidy r show ?thesis by simp
  next
    case RouterKilled
    show ?thesis
      using r [unfolded RouterKilled] by (cases rule: runRouterEngine_calls) (simp_all add: RouterKilled sig)
  qed
  ultimately show ?thesis
    unfolding ends_tidy_def e router_flags_of_def by simp
qed

lemma Execute_tidy: "ends_tidy m cmd (Execute m cmd conf)"
proof (cases cmd)
  case (RunCommand detach args v)
  obtain result effs conf' where r: "runEngine (m_run (as_root m)) (m_write (as_root m)) detach args v conf = (result, effs, conf')"
    by (rule prod_cases3)
  from runEngine_closed [OF r] run_unprivileged(1) [OF _ r] r show ?thesis
    by (simp add: ends_tidy_def router_flags_of_def RunCommand Execute_def Let_def)
next
  case (RouterRunCommand f)
  then show ?thesis by (simp only: Execute_router_tidy)
qed (auto simp: ends_tidy_def router_flags_of_def Execute_def Let_def split: sum.splits prod.splits)

lemma Execute_conf:
  assumes "m_write m = write_ok" and "\<not> hasGecitDNSState orig" and "conf \<in> {Some orig, Some (restored orig)}"
  shows "o_conf (Execute m cmd conf) \<in> {Some orig, Some (restored orig)}"
proof (cases cmd)
  case (RunCommand detach args v)
  have w: "m_write (as_root m) = write_ok"
    by (simp add: as_root_def assms(1))
  obtain result effs conf' where r: "runEngine (m_run (as_root m)) write_ok detach args v conf = (result, effs, conf')"
    by (rule prod_cases3)
  obtain cur where c: "conf = Some cur" "cur \<in> {orig, restored orig}"
    using assms(3) by auto
  from runEngine_conf [OF r [unfolded c(1)]] c(2) r show ?thesis
    by (auto simp: restored_idem RunCommand Execute_def w Let_def)
next
  case CleanupCommand
  have "\<exists>cur. conf = Some cur \<and> \<not> hasGecitDNSState cur"
    using assms(2,3) restored_no_state by auto
  then show ?thesis
    using assms(3) by (auto simp: CleanupCommand Execute_def cleanup_linux_def cleanup_linux_untouched
        Let_def split: prod.splits)
qed (use assms(3) in \<open>auto simp: Execute_def Let_def split: sum.splits prod.splits\<close>)

text \<open>A sequence of commands, each by its own user and with what its calls return.\<close>

fun run_all :: "(machine \<times> gecit_command) list \<Rightarrow> string option \<Rightarrow> outcome list \<times> string option" where
  "run_all [] conf = ([], conf)"
| "run_all ((m, cmd) # cmds) conf =
     (let out = Execute m cmd conf; (outs, conf) = run_all cmds (o_conf out) in (out # outs, conf))"

lemma run_all_tidy: "run_all cmds conf = (outs, conf') \<Longrightarrow> list_all2 (\<lambda>(m, cmd) out. ends_tidy m cmd out) cmds outs"
  by (induction cmds arbitrary: conf outs) (auto simp: Let_def Execute_tidy split: prod.splits)

lemma run_all_conf:
  assumes "\<not> hasGecitDNSState orig"
  shows "\<forall>(m, cmd) \<in> set cmds. m_write m = write_ok \<Longrightarrow> conf \<in> {Some orig, Some (restored orig)} \<Longrightarrow>
    run_all cmds conf = (outs, conf') \<Longrightarrow>
    conf' \<in> {Some orig, Some (restored orig)} \<and> (\<forall>out \<in> set outs. o_conf out \<in> {Some orig, Some (restored orig)})"
proof (induction cmds arbitrary: conf outs)
  case (Cons mc cmds)
  obtain m cmd where mc: "mc = (m, cmd)" by fastforce
  have t: "o_conf (Execute m cmd conf) \<in> {Some orig, Some (restored orig)}"
    using Execute_conf [OF _ assms Cons.prems(2)] Cons.prems(1) by (simp add: mc)
  obtain os where r: "run_all cmds (o_conf (Execute m cmd conf)) = (os, conf')" "outs = Execute m cmd conf # os"
    using Cons.prems(3) by (auto simp: mc Let_def split: prod.splits)
  have "conf' \<in> {Some orig, Some (restored orig)} \<and> (\<forall>out \<in> set os. o_conf out \<in> {Some orig, Some (restored orig)})"
    by (rule Cons.IH [OF _ t r(1)]) (use Cons.prems(1) in auto)
  with t r(2) show ?case by simp
qed auto

subsection \<open>Properties\<close>

text \<open>
  C4. Any sequence of commands on a Linux machine, by any users and with whatever results of the system's
  calls, leaves nothing open: every listener, socket and kernel object a command opened is closed when
  it ends; \<open>gecit router run\<close>, unless \<open>SIGTERM\<close> kills it, has stopped its runner and leaves its nftables
  table only if it was there before or if nft refused to delete it; an unprivileged command starts no
  engine and applies no batch. If resolv.conf carried no trace of gecit at first and every write of it
  succeeds, it is after every command what it was before the first one or, once a \<open>gecit run\<close> has used it,
  its meaningful lines; further sessions do not change it again. (The child of a detached run is a command
  of its own; a \<open>gecit run\<close> that is killed is the subject of another property.)
\<close>

theorem commands_leave_nothing:
  assumes "run_all cmds conf = (outs, conf')"
  shows "list_all2 (\<lambda>(m, cmd) out. ends_tidy m cmd out) cmds outs \<and>
    (\<forall>orig. conf = Some orig \<and> \<not> hasGecitDNSState orig \<and> (\<forall>(m, cmd) \<in> set cmds. m_write m = write_ok) \<longrightarrow>
       conf' \<in> {Some orig, Some (restored orig)} \<and> (\<forall>out \<in> set outs. o_conf out \<in> {Some orig, Some (restored orig)}))"
  using run_all_tidy [OF assms] run_all_conf assms by blast

definition sample_machine :: "nat \<Rightarrow> machine" where
  "sample_machine euid = \<lparr>m_euid = euid, m_goarch = ''amd64'', m_run = sample_host, m_router = linux_host, m_sock_ops = True,
     m_setsockopt = True, m_lower = id, m_printable = (\<lambda>_. True), m_write = write_ok\<rparr>"

theorem commands_leave_nothing_witness:
  "\<exists>outs conf. run_all [(sample_machine 1000, StatusCommand), (sample_machine 0, RunCommand False [''run''] sample_flags),
       (sample_machine 0, RouterRunCommand (eth0_flags ''nfqueue'')), (sample_machine 0, CleanupCommand)]
       (Some ''nameserver 9.9.9.9'') = (outs, conf) \<and>
     conf \<in> {Some ''nameserver 9.9.9.9'', Some (restored ''nameserver 9.9.9.9'')} \<and>
     eng_track (o_engine (outs ! 1)) {} = Some {} \<and>
     (o_killed (outs ! 2) \<or> router_tidy (sample_machine 0) (eth0_flags ''nfqueue'') (o_router (outs ! 2)))"
proof -
  let ?cmds = "[(sample_machine 1000, StatusCommand), (sample_machine 0, RunCommand False [''run''] sample_flags),
    (sample_machine 0, RouterRunCommand (eth0_flags ''nfqueue'')), (sample_machine 0, CleanupCommand)]"
  obtain outs conf where r: "run_all ?cmds (Some ''nameserver 9.9.9.9'') = (outs, conf)" by fastforce
  have n: "\<not> hasGecitDNSState ''nameserver 9.9.9.9''"
    by code_simp
  have w: "\<forall>(m, cmd) \<in> set ?cmds. m_write m = write_ok"
    by (simp add: sample_machine_def)
  note c = commands_leave_nothing [OF r]
  from c n w have "conf \<in> {Some ''nameserver 9.9.9.9'', Some (restored ''nameserver 9.9.9.9'')}"
    by blast
  moreover from c have "list_all2 (\<lambda>(m, cmd) out. ends_tidy m cmd out) ?cmds outs"
    by blast
  then have "ends_tidy (sample_machine 0) (RunCommand False [''run''] sample_flags) (outs ! 1)"
    "ends_tidy (sample_machine 0) (RouterRunCommand (eth0_flags ''nfqueue'')) (outs ! 2)"
    by (auto simp: list_all2_Cons1)
  ultimately show ?thesis
    using r by (auto simp: ends_tidy_def router_flags_of_def split: if_splits)
qed

text \<open>
  C24. A killed session is cleaned up: whenever \<open>gecit run\<close> with DoH has started on Linux and is then killed,
  \<open>gecit cleanup\<close> says so and gives resolv.conf back, line by line, just as an orderly end would have, and
  a second \<open>gecit cleanup\<close> finds nothing to do.
\<close>

theorem killed_run_cleaned_up:
  assumes "eng_dohEnabled e" and "StartEbpf dns_result env write_ok write_ok e (Some orig) = (None, effs, e', conf)"
  shows "SystemDNSNeedsRestore conf \<and>
    cleanup_linux write_ok conf = (''cleanup complete '' @ dash @ '' system settings restored'', Some (restored orig)) \<and>
    cleanup_linux write_ok (Some (restored orig)) = (''nothing to clean up'', Some (restored orig))"
proof -
  have "conf = Some (set_text orig)"
    using assms by (auto simp: StartEbpf_def start_mgr_def SetSystemDNS_def do_write_def write_ok_def Let_def
        split: option.splits prod.splits)
  then show ?thesis
    using cleanup_linux_untouched [OF restored_no_state, of write_ok orig]
    by (simp add: cleanup_linux_def cleanup_linux_after_set restore_after_set runCleanup_def SystemDNSNeedsRestore_def
        has_state_set_text)
qed

theorem killed_run_cleaned_up_witness:
  "\<exists>effs e conf. StartEbpf None all_accepted write_ok write_ok
     (newPlatformEngine sample_net sample_parse_ip DefaultEngineConfig) (Some ''nameserver 9.9.9.9'') = (None, effs, e, conf) \<and>
     cleanup_linux write_ok conf = (''cleanup complete '' @ dash @ '' system settings restored'', Some (restored ''nameserver 9.9.9.9''))"
proof -
  let ?e = "newPlatformEngine sample_net sample_parse_ip DefaultEngineConfig"
  have set: "SetSystemDNS write_ok (Some ''nameserver 9.9.9.9'') = (None, Some (set_text ''nameserver 9.9.9.9''))"
    by (simp add: SetSystemDNS_def do_write_def write_ok_def)
  have "\<exists>c. eng_mgr (?e\<lparr>eng_dns_server := True\<rparr>) = NewManager c"
    by (auto simp: newPlatformEngine_def Let_def)
  then obtain effs e conf where "start_mgr all_accepted write_ok (?e\<lparr>eng_dns_server := True\<rparr>) [DnsListen]
      (Some (set_text ''nameserver 9.9.9.9'')) = (None, effs, e, conf)"
    using start_mgr_accepted by blast
  then have s: "StartEbpf None all_accepted write_ok write_ok ?e (Some ''nameserver 9.9.9.9'') = (None, effs, e, conf)"
    using new_engine_doh by (simp add: StartEbpf_def set Let_def)
  from killed_run_cleaned_up [OF new_engine_doh s] s show ?thesis by blast
qed

end
