(* ===== verification/KilledRun.thy ===== *)
theory KilledRun
  imports CmdTree
begin

text \<open>
  A \<open>gecit run\<close> on macOS or Windows that is killed while it runs, followed by \<open>gecit cleanup\<close>
  (cmd/gecit/app/cleanup_darwin.go, cleanup_windows.go; Linux is in theory CmdTree). The locale
  \<open>system_dns_cleanup\<close> extends \<open>system_dns\<close> by what the clean-up has to promise, and is interpreted on
  Windows and, for services with one name server at most, on macOS. What is proved: the clean-up finds
  the backup of the killed session and gives the machine the settings an orderly end would have given.
\<close>

subsection \<open>The contract\<close>

text \<open>The variables of the killed process are gone; the clean-up works on what it left on disk.\<close>

locale system_dns_cleanup = system_dns +
  fixes cleanup :: "'a \<Rightarrow> bool \<times> 'b list"
  assumes cleanup_undoes: "ready s d \<Longrightarrow> op_set ops s = (None, cmds, s') \<Longrightarrow> cleanup s' = (cleaned, cmds') \<Longrightarrow>
    cleaned \<and> fold exec cmds' (fold exec cmds d) = given_back s d"
begin

lemma killed_run:
  assumes "ready s d" and "StartTunEngine ops True dns_result env s m = (None, effs, s', m')"
    and "cleanup s' = (cleaned, cmds)"
  shows "localdns (fold exec (trace_cmds effs) d) \<and> cleaned \<and> fold exec (trace_cmds effs @ cmds) d = given_back s d"
proof -
  have "localdns (fold exec (trace_cmds effs) d)"
    using start_settings(3) [OF assms(1,2)] by simp
  moreover have "cleaned \<and> fold exec cmds (fold exec (trace_cmds effs) d) = given_back s d"
    using assms(2) by (cases rule: StartTunEngine_cases)
      (auto simp: pause_keeps dest: cleanup_undoes [OF assms(1) _ assms(3)])
  ultimately show ?thesis by simp
qed

end

subsection \<open>Windows\<close>

text \<open>Stale routes may be left, too (\<open>route\<close> is what \<open>route print\<close> shows); deleting them touches no resolver.\<close>

lemma route_deletes_keep: "\<forall>c \<in> set cmds. \<exists>r. c = RouteDelete r \<Longrightarrow> fold (win_exec ok) cmds d = d"
  by (induction cmds arbitrary: d) auto

lemma cleanup_windows_cmds:
  fixes s :: win_state
  assumes "win_crumb s = Some (win_backup prev iface)" and "nl \<notin> set prev" and "trimmed prev" and "prev \<noteq> []"
    and "trimmed iface" and "iface \<noteq> []"
  obtains routes where "platformCleanup_windows route (win_crumb s) = (True, routes @ [restore_cmd iface prev, FlushDns])"
    and "\<forall>c \<in> set routes. \<exists>r. c = RouteDelete r"
proof -
  have "\<exists>routes. platformCleanup_windows route (win_crumb s) = (True, routes @ [restore_cmd iface prev, FlushDns]) \<and>
      (\<forall>c \<in> set routes. \<exists>r. c = RouteDelete r)"
    using win_restore(2) [OF assms]
    by (cases route) (auto simp: platformCleanup_windows_def assms(1) Let_def split: prod.splits)
  then show ?thesis using that by blast
qed

interpretation winc: system_dns_cleanup "win_ops h parse_ip" "win_exec ok" "win_session h ok"
  "\<lambda>d. \<exists>iface. detectWindowsInterface h = Inr iface \<and> d iface = StaticDns [''127.0.0.1'']"
  "\<lambda>s. win_back h parse_ip ok" "\<lambda>s. platformCleanup_windows route (win_crumb s)" for h parse_ip ok route
proof
  show "cleaned \<and> fold (win_exec ok) cmds' (fold (win_exec ok) cmds d) = win_back h parse_ip ok d"
    if w: "win_session h ok s d" and set: "op_set (win_ops h parse_ip) s = (None, cmds, s')"
      and res: "platformCleanup_windows route (win_crumb s') = (cleaned, cmds')" for s d cmds s' cleaned cmds'
  proof (cases "detectWindowsInterface h")
    case (Inl y)
    with set win_no_interface [OF Inl, of parse_ip Some s] show ?thesis by (simp add: win_ops_def)
  next
    case (Inr iface)
    have set': "SetSystemDNS_windows h parse_ip Some s = (None, cmds, s')"
      using set by (simp add: win_ops_def)
    note c = win_set_cmds [OF w Inr set']
    have i: "iface \<noteq> []" "trimmed iface"
      using w Inr by (simp_all add: win_session_def)
    have p: "nl \<notin> set (getCurrentDNS h parse_ip iface)" "trimmed (getCurrentDNS h parse_ip iface)"
      "getCurrentDNS h parse_ip iface \<noteq> []"
      using getCurrentDNS_clean [of h parse_ip iface] by simp_all
    obtain routes where r: "platformCleanup_windows route (win_crumb s') =
        (True, routes @ [restore_cmd iface (getCurrentDNS h parse_ip iface), FlushDns])"
      "\<forall>c \<in> set routes. \<exists>r. c = RouteDelete r"
      by (rule cleanup_windows_cmds [OF c(3) p i(2,1)])
    then show ?thesis
      using c(1,2) res exec_restore_cmd [OF Inr, of ok parse_ip d] route_deletes_keep [OF r(2), of ok] by auto
  qed
qed

subsection \<open>macOS\<close>

text \<open>
  The clean-up reads the second line of the backup as the name of the service, which is right if the
  service had one name server or none (PlatformDns shows what happens otherwise). \<open>getdns\<close> is what
  \<open>networksetup -getdnsservers\<close> prints when the clean-up asks: the local server is not shown for Wi-Fi.
\<close>

definition mac_one_server :: "mac_host \<Rightarrow> (string \<Rightarrow> string list \<Rightarrow> bool) \<Rightarrow> (string \<Rightarrow> string option) \<Rightarrow> mac_state \<Rightarrow> mac_settings \<Rightarrow> bool" where
  "mac_one_server h ok getdns s d \<longleftrightarrow> (let svc = DetectActiveService h in
     mac_session h ok s d \<and> mac_getdns h svc = Some (mac_output (d svc) svc) \<and> (\<forall>w \<in> set (d svc). is_word w) \<and>
     length (d svc) \<le> 1 \<and> trimmed svc \<and> nl \<notin> set svc \<and>
     (\<forall>out. getdns ''Wi-Fi'' = Some out \<longrightarrow> trim_space out \<noteq> ''127.0.0.1''))"

lemma mac_one_server_session: "mac_one_server h ok getdns s d \<Longrightarrow> mac_session h ok s d"
  by (simp add: mac_one_server_def Let_def)

lemma cleanup_darwin_one:
  assumes "is_word w" and "trimmed svc" and "svc \<noteq> []" and "nl \<notin> set svc"
    and "\<forall>out. getdns ''Wi-Fi'' = Some out \<longrightarrow> trim_space out \<noteq> ''127.0.0.1''"
  shows "platformCleanup_darwin getdns (Some (mac_backup [w] svc)) = (True, [SetServers svc [w], HupMDNS])"
proof -
  obtain rest where p: "split_n 3 nl (mac_backup [w] svc) = w # svc # rest"
    using backup_parts [of w "[]" svc] assms(1,4) by auto
  have t: "trim_space w = w" "w \<noteq> []" "\<not> contains w arent_any" "Fields w = [w]"
    using assms(1) is_word_trimmed is_word_ends contains_word fields_word by auto
  have "crumb_service ''Wi-Fi'' (w # svc # rest) = svc"
    using assms(2,3) by (simp add: crumb_service_def)
  then show ?thesis
    using t assms(5) by (auto simp: platformCleanup_darwin_def p Let_def split: option.split)
qed

lemma word_list_short: "length ws \<le> 1 \<Longrightarrow> \<exists>w. words_of ws = [w]"
  by (cases ws) (auto simp: words_of_def)

interpretation macc: system_dns_cleanup "mac_ops h free" "mac_exec ok" "mac_one_server h ok getdns"
  "\<lambda>d. d (DetectActiveService h) = [''127.0.0.1'']" "\<lambda>s. mac_back h ok" "\<lambda>s. platformCleanup_darwin getdns (mac_crumb s)" for h free ok getdns
proof (unfold_locales, goal_cases)
  case (1 d)
  show ?case by (rule mac.pause_keeps)
next
  case (2 d)
  show ?case by (rule mac.resume_keeps)
next
  case (3 s d x cmds s')
  then show ?case by (meson mac.set_failed mac_one_server_session)
next
  case (4 s d cmds s')
  then show ?case by (meson mac.set_done mac_one_server_session)
next
  case (5 s d cmds s' r cmds' s'')
  then show ?case by (meson mac.restore_gives mac_one_server_session)
next
  case (6 s d cmds s' cleaned cmds')
  let ?svc = "DetectActiveService h"
  note m = mac_one_server_session [OF 6(1)]
  have set: "SetSystemDNS_darwin h Some [] s = (None, cmds, s')"
    using 6(2) by (simp add: mac_ops_def)
  have one: "mac_getdns h ?svc = Some (mac_output (d ?svc) ?svc)" "\<forall>w \<in> set (d ?svc). is_word w" "length (d ?svc) \<le> 1"
    "trimmed ?svc" "nl \<notin> set ?svc" "\<forall>out. getdns ''Wi-Fi'' = Some out \<longrightarrow> trim_space out \<noteq> ''127.0.0.1''"
    using 6(1) by (simp_all add: mac_one_server_def Let_def)
  obtain w1 where w1: "words_of (d ?svc) = [w1]"
    using word_list_short [OF one(3)] by blast
  have word: "is_word w1"
    using one(2) w1 by (auto simp: words_of_def is_word_def visible_def split: if_splits)
  have "mac_crumb s' = Some (mac_backup [w1] ?svc)"
    using mac_set_crumb [OF m set one(1,2)] w1 by simp
  moreover have "platformCleanup_darwin getdns (Some (mac_backup [w1] ?svc)) = (True, [SetServers ?svc [w1], HupMDNS])"
    by (rule cleanup_darwin_one) (use word one DetectActiveService_named in auto)
  ultimately have c: "cleaned" "cmds' = [SetServers ?svc [w1], HupMDNS]"
    using 6(3) by simp_all
  have "cmds = [SetServers ?svc [''127.0.0.1'']]" "ok ?svc [''127.0.0.1'']"
    using mac_set_cmds(1,2) [OF m set] by simp_all
  moreover have "mac_words h = [w1]"
    using mac_saved_shown(1) [where h = h and d = d, OF one(1,2)] w1 by simp
  ultimately show ?case
    using c by (simp add: mac_back_def)
qed

subsection \<open>Properties\<close>


lemma sample_tun_start: "\<exists>effs m. StartTun tm_ok (NewTunManager en0_config) = (None, effs, m)"
  by (simp add: StartTun_def tm_ok_def en0_config_def NewTunManager_def initNetworking_def start_device_def Let_def)

lemma sample_engine_start:
  assumes "op_set ops s = (None, cmds, s')"
  shows "\<exists>effs m. StartTunEngine ops True None tm_ok s (NewTunManager en0_config) = (None, effs, s', m)"
  using sample_tun_start assms by (auto simp: StartTunEngine_def)


text \<open>
  The same on macOS when \<open>networksetup\<close> printed the servers of the active service, one or none, and
  accepts them again, and Wi-Fi is not left pointing to the local server.
\<close>

theorem killed_mac_run_cleaned_up:
  assumes "mac_one_server h ok getdns s d" and "d (DetectActiveService h) \<noteq> [''empty'']"
    and "ok (DetectActiveService h) (words_of (d (DetectActiveService h)))"
    and "StartTunEngine (mac_ops h free) True dns_result env s m = (None, effs, s', m')"
    and "platformCleanup_darwin getdns (mac_crumb s') = (cleaned, cmds)"
  shows "fold (mac_exec ok) (trace_cmds effs) d (DetectActiveService h) = [''127.0.0.1''] \<and>
    runCleanup cleaned = ''cleanup complete '' @ dash @ '' system settings restored'' \<and>
    fold (mac_exec ok) (trace_cmds effs @ cmds) d = d"
proof -
  have "mac_back h ok d = d"
    by (rule mac_back_same) (use assms(1-3) in \<open>simp_all add: mac_one_server_def Let_def\<close>)
  then show ?thesis
    using macc.killed_run [OF assms(1,4,5)] by (simp add: runCleanup_def)
qed

lemma mac_one_server_sample:
  "mac_one_server (mac_sample\<lparr>mac_getdns := \<lambda>_. Some (''8.8.8.8'' @ [nl])\<rparr>) (\<lambda>_ _. True) (\<lambda>_. None) mac_fresh (\<lambda>_. [''8.8.8.8''])"
proof -
  have "is_word ''Wi-Fi''" "is_word ''8.8.8.8''"
    by (simp_all add: is_word_def visible_def)
  then show ?thesis
    using is_word_trimmed nl_not_word
    by (simp add: mac_one_server_def mac_session_def mac_sample_def mac_fresh_def DetectActiveService_def mac_output_def words_of_def)
qed

theorem killed_mac_run_cleaned_up_witness:
  "\<exists>h. \<forall>dns_result env m effs s' m' cleaned cmds.
     StartTunEngine (mac_ops h (\<lambda>_. True)) True dns_result env mac_fresh m = (None, effs, s', m') \<and>
     platformCleanup_darwin (\<lambda>_. None) (mac_crumb s') = (cleaned, cmds) \<longrightarrow>
     fold (mac_exec (\<lambda>_ _. True)) (trace_cmds effs @ cmds) (\<lambda>_. [''8.8.8.8'']) = (\<lambda>_. [''8.8.8.8''])"
  using killed_mac_run_cleaned_up [OF mac_one_server_sample] by simp blast

end
