(* ===== verification/TunHandler.thy ===== *)
theory TunHandler
  imports Capture FakeWire DnsServer Soundness
begin

text \<open>
  The data path of the TUN engine on macOS and Windows (pkg/tun/handler.go): for every connection the
  network stack hands over, \<open>NewConnectionEx\<close> dials the real server, injects three fakes before it
  forwards the ClientHello of a target port, and then copies both directions; \<open>NewPacketConnectionEx\<close>
  relays datagrams. The connections are parameters: what each read returns and whether each write is
  accepted. What is proved: both byte streams are forwarded unchanged whatever fails, and a treated
  connection has its fakes on the wire, with the real sequence numbers, before its ClientHello.
\<close>

subsection \<open>The environment and the effects of one connection\<close>

text \<open>The fields of \<open>M.Socksaddr\<close> the handler uses.\<close>

record Socksaddr =
  IsValid :: bool
  AddrString :: string
  dst_Port :: u16

text \<open>
  \<open>has_conn\<close> and \<open>has_onClose\<close>: the argument is not nil. \<open>dial_ok\<close>: \<open>dialServer\<close> succeeds. The local and
  remote address of the server connection are \<open>None\<close> when they are not a \<open>*net.TCPAddr\<close> (for a
  \<open>*net.TCPConn\<close> they are). A read gives data and whether an error came with it; a write is accepted
  or not, given what was written before.
\<close>

record conn_env =
  has_conn :: bool
  has_onClose :: bool
  dial_ok :: bool
  hello_read :: "bytes option"
  srv_local :: "(ip \<times> int) option"
  srv_remote :: "(ip \<times> int) option"
  fake_ok :: "nat \<Rightarrow> bool"
  hello_write_ok :: bool
  app_reads :: "(bytes \<times> bool) list"
  srv_reads :: "(bytes \<times> bool) list"
  srv_write_ok :: "bytes list \<Rightarrow> bytes \<Rightarrow> bool"
  app_write_ok :: "bytes list \<Rightarrow> bytes \<Rightarrow> bool"
  seq_clock :: "nat \<Rightarrow> int"
  seq_arrive :: "nat \<Rightarrow> ConnInfo list"

text \<open>The state a connection changes: ClientHello counter, DNS server, sequence tracker.\<close>

record tun_state =
  tun_counter :: u64
  tun_dns :: "Server option"
  tun_tracker :: "conns option"

datatype tun_effect =
    Dial string string
  | ReadHello
  | TunSend transmission
  | LogFakes string u32 u32 int
  | SleepMs nat
  | ServerWrite bytes
  | Pipe (to_server: "bytes list") (to_app: "bytes list")
  | Relay (to_server: "bytes list") (to_app: "bytes list")
  | CloseServer
  | CloseApp
  | OnClose

subsection \<open>Copying\<close>

text \<open>
  The closure \<open>cp\<close> of \<open>pipe\<close>: the chunks it writes, until a write fails or a read reports an error.
  The two copies share nothing but the deadlines that end them, so a pipe is the pair of their writes.
\<close>

fun copy_loop :: "(bytes list \<Rightarrow> bytes \<Rightarrow> bool) \<Rightarrow> bytes list \<Rightarrow> (bytes \<times> bool) list \<Rightarrow> bytes list" where
  "copy_loop ok written [] = written"
| "copy_loop ok written ((data, failed) # reads) =
     (if length data > 0 \<and> \<not> ok written data then written
      else
        let written = (if length data > 0 then written @ [data] else written) in
        if failed then written else copy_loop ok written reads)"

definition pipe :: "conn_env \<Rightarrow> tun_effect" where
  "pipe tc = Pipe (copy_loop (srv_write_ok tc) [] (app_reads tc)) (copy_loop (app_write_ok tc) [] (srv_reads tc))"

text \<open>Both loops of \<open>NewPacketConnectionEx\<close>: a failed read ends the loop, a failed write too.\<close>

fun relay_loop :: "(bytes list \<Rightarrow> bytes \<Rightarrow> bool) \<Rightarrow> bytes list \<Rightarrow> (bytes \<times> bool) list \<Rightarrow> bytes list" where
  "relay_loop ok written [] = written"
| "relay_loop ok written ((data, failed) # reads) =
     (if failed then written
      else if \<not> ok written data then written
      else relay_loop ok (written @ [data]) reads)"

subsection \<open>The handler\<close>

definition resolveDst :: "string \<Rightarrow> string \<Rightarrow> u16 \<Rightarrow> tun_state \<Rightarrow> string \<times> tun_state" where
  "resolveDst addr host port s =
     (case tun_dns s of
        None \<Rightarrow> (addr, s)
      | Some srv \<Rightarrow>
          let (domain, srv) = PopDomain host srv; s = s\<lparr>tun_dns := Some srv\<rparr>
          in if domain \<noteq> [] then (domain @ '':'' @ dec (unat port), s) else (addr, s))"

text \<open>\<open>for i := 0; i < 3; i++\<close> with its break on an error: the transmissions attempted.\<close>

fun send_fakes :: "(nat \<Rightarrow> bool) \<Rightarrow> transmission \<Rightarrow> nat \<Rightarrow> nat \<Rightarrow> tun_effect list" where
  "send_fakes ok tx i 0 = []"
| "send_fakes ok tx i (Suc n) = TunSend tx # (if ok i then send_fakes ok tx (Suc i) n else [])"

text \<open>\<open>None\<close> is a panic (the type assertion on the remote address, the ClientHello generator) or a wait without end.\<close>

definition injectAndForward ::
  "(nat \<Rightarrow> nat \<Rightarrow> bytes option) \<Rightarrow> RawSocket \<Rightarrow> int \<Rightarrow> conn_env \<Rightarrow> string \<Rightarrow> tun_state
   \<Rightarrow> (tun_effect list \<times> tun_state) option" where
  "injectAndForward rnd sock ttl tc dst s =
     (case hello_read tc of
        None \<Rightarrow> Some ([ReadHello], s)
      | Some clientHello \<Rightarrow> do {
          sni \<leftarrow> ParseSNI clientHello;
          dst \<leftarrow> (if sni \<noteq> [] then map_option (\<lambda>(_, port). sni @ '':'' @ dec (nat port)) (srv_remote tc) else Some dst);
          ((seq, ack), tracker) \<leftarrow> GetSeqAck (seq_clock tc) (seq_arrive tc) (map_option snd (srv_local tc)) (tun_tracker s);
          let s = s\<lparr>tun_tracker := tracker\<rparr> in
          (case srv_local tc of
             None \<Rightarrow> Some ([ReadHello], s)
           | Some (localIP, localPort) \<Rightarrow>
          (case srv_remote tc of
             None \<Rightarrow> Some ([ReadHello], s)
           | Some (remoteIP, remotePort) \<Rightarrow>
               let connInfo = \<lparr>SrcIP = localIP, DstIP = remoteIP, SrcPort = of_int localPort,
                     DstPort = of_int remotePort, Seq = seq, Ack = ack\<rparr>;
                   (hello, counter) = RandomTLSClientHello rnd (tun_counter s);
                   s = s\<lparr>tun_counter := counter\<rparr> in
               do {
                 fakePayload \<leftarrow> hello;
                 let effs = [ReadHello] @ send_fakes (fake_ok tc) (SendFake sock connInfo fakePayload ttl) 0 3 @
                       [LogFakes dst seq ack ttl, SleepMs 2, ServerWrite clientHello] in
                 if \<not> hello_write_ok tc then Some (effs, s) else Some (effs @ [pipe tc], s)
               }))
        })"

definition NewConnectionEx ::
  "(nat \<Rightarrow> nat \<Rightarrow> bytes option) \<Rightarrow> RawSocket \<Rightarrow> int \<Rightarrow> ports \<Rightarrow> conn_env \<Rightarrow> Socksaddr \<Rightarrow> tun_state
   \<Rightarrow> (tun_effect list \<times> tun_state) option" where
  "NewConnectionEx rnd sock ttl targetPorts tc destination s =
     (let closing = (if has_onClose tc then [OnClose] else []) in
      if \<not> has_conn tc \<or> \<not> IsValid destination then Some (closing, s)
      else
        let dstPort = dst_Port destination;
            addr = JoinHostPort (AddrString destination) (dec (unat dstPort));
            (dst, s) = resolveDst addr (AddrString destination) dstPort s;
            closing = [CloseApp] @ closing in
        if \<not> dial_ok tc then Some ([Dial ''tcp'' addr] @ closing, s)
        else
          let closing = [CloseServer] @ closing in
          if \<not> targetPorts dstPort then Some ([Dial ''tcp'' addr, pipe tc] @ closing, s)
          else do {
            (effs, s) \<leftarrow> injectAndForward rnd sock ttl tc dst s;
            Some ([Dial ''tcp'' addr] @ effs @ closing, s)
          })"

definition NewPacketConnectionEx :: "conn_env \<Rightarrow> Socksaddr \<Rightarrow> tun_effect list" where
  "NewPacketConnectionEx tc destination =
     (let closing = (if has_onClose tc then [OnClose] else []) in
      if \<not> has_conn tc \<or> \<not> IsValid destination then closing
      else
        let addr = JoinHostPort (AddrString destination) (dec (unat (dst_Port destination)));
            closing = [CloseApp] @ closing in
        if \<not> dial_ok tc then [Dial ''udp'' addr] @ closing
        else [Dial ''udp'' addr,
          Relay (relay_loop (srv_write_ok tc) [] (app_reads tc)) (relay_loop (app_write_ok tc) [] (srv_reads tc)),
          CloseServer] @ closing)"

text \<open>The byte streams the two peers receive in a trace.\<close>

fun server_stream :: "tun_effect list \<Rightarrow> bytes" where
  "server_stream [] = []"
| "server_stream (ServerWrite d # effs) = d @ server_stream effs"
| "server_stream (Pipe up down # effs) = concat up @ server_stream effs"
| "server_stream (_ # effs) = server_stream effs"

fun app_stream :: "tun_effect list \<Rightarrow> bytes" where
  "app_stream [] = []"
| "app_stream (Pipe up down # effs) = concat down @ app_stream effs"
| "app_stream (_ # effs) = app_stream effs"

lemma server_stream_append [simp]: "server_stream (xs @ ys) = server_stream xs @ server_stream ys"
  by (induction xs rule: server_stream.induct) auto

lemma app_stream_append [simp]: "app_stream (xs @ ys) = app_stream xs @ app_stream ys"
  by (induction xs rule: app_stream.induct) auto

subsection \<open>Lemmas\<close>

lemma copy_loop_prefix:
  "prefix (concat (copy_loop ok w reads)) (concat w @ concat (map fst reads))"
proof (induction ok w reads rule: copy_loop.induct)
  case (2 ok w data failed reads)
  show ?case
  proof (cases "length data > 0 \<and> \<not> ok w data")
    case True
    then show ?thesis by simp
  next
    case False
    define v where "v = (if length data > 0 then w @ [data] else w)"
    have v: "concat v = concat w @ data"
      by (simp add: v_def)
    show ?thesis
    proof (cases failed)
      case True
      with False show ?thesis by (simp add: v_def [symmetric] v)
    next
      case nf: False
      with "2.IH" [OF False v_def nf] False v show ?thesis
        by (cases "data = []") (simp_all add: v_def)
    qed
  qed
qed simp

text \<open>A direction that ends cleanly: every write is accepted and the last read reports the end.\<close>

definition ends_cleanly :: "(bytes list \<Rightarrow> bytes \<Rightarrow> bool) \<Rightarrow> (bytes \<times> bool) list \<Rightarrow> bool" where
  "ends_cleanly ok reads \<longleftrightarrow> (\<forall>w d. ok w d) \<and> reads \<noteq> [] \<and> (\<forall>r \<in> set (butlast reads). \<not> snd r) \<and> snd (last reads)"

lemma copy_loop_complete:
  "ends_cleanly ok reads \<Longrightarrow> concat (copy_loop ok w reads) = concat w @ concat (map fst reads)"
proof (induction reads arbitrary: w)
  case (Cons r reads)
  show ?case
  proof (cases "reads = []")
    case True
    with Cons.prems show ?thesis by (cases r) (simp add: ends_cleanly_def)
  next
    case False
    with Cons.prems have e: "ends_cleanly ok reads" "\<not> snd r" "\<And>w d. ok w d"
      by (auto simp: ends_cleanly_def)
    then show ?thesis
      using Cons.IH [OF e(1)] by (cases r) simp
  qed
qed (simp add: ends_cleanly_def)

lemma relay_loop_prefix: "prefix (relay_loop ok w reads) (w @ map fst reads)"
proof (induction ok w reads rule: relay_loop.induct)
  case (2 ok w data failed reads)
  then show ?case by (cases failed; cases "ok w data") simp_all
qed simp

lemma send_fakes_streams [simp]:
  "server_stream (send_fakes ok tx i n) = []" "app_stream (send_fakes ok tx i n) = []"
  "CloseApp \<notin> set (send_fakes ok tx i n)" "CloseServer \<notin> set (send_fakes ok tx i n)"
  by (induction ok tx i n rule: send_fakes.induct) simp_all

lemma send_fakes_all: "\<forall>i. ok i \<Longrightarrow> send_fakes ok tx i n = replicate n (TunSend tx)"
  by (induction ok tx i n rule: send_fakes.induct) simp_all

lemma injectAndForward_streams:
  assumes "injectAndForward rnd sock ttl tc dst s = Some (effs, s')"
  shows "server_stream effs = [] \<and> app_stream effs = [] \<and>
      (hello_read tc = None \<or> srv_local tc = None \<or> srv_remote tc = None) \<or>
    (\<exists>h. hello_read tc = Some h \<and> (server_stream effs = h \<and> app_stream effs = [] \<and> \<not> hello_write_ok tc \<or>
      server_stream effs = h @ concat (to_server (pipe tc)) \<and> app_stream effs = concat (to_app (pipe tc))))"
    and "CloseApp \<notin> set effs" and "CloseServer \<notin> set effs"
proof -
  consider "effs = [ReadHello]" "hello_read tc = None \<or> srv_local tc = None \<or> srv_remote tc = None"
    | h tx dst' seq ack where "hello_read tc = Some h" "\<not> hello_write_ok tc"
        "effs = [ReadHello] @ send_fakes (fake_ok tc) tx 0 3 @ [LogFakes dst' seq ack ttl, SleepMs 2, ServerWrite h]"
    | h tx dst' seq ack where "hello_read tc = Some h"
        "effs = [ReadHello] @ send_fakes (fake_ok tc) tx 0 3 @ [LogFakes dst' seq ack ttl, SleepMs 2, ServerWrite h] @ [pipe tc]"
    using assms unfolding injectAndForward_def Let_def
    by (auto split: option.splits prod.splits if_splits bind_splits)
  note cases = this
  show "server_stream effs = [] \<and> app_stream effs = [] \<and>
      (hello_read tc = None \<or> srv_local tc = None \<or> srv_remote tc = None) \<or>
    (\<exists>h. hello_read tc = Some h \<and> (server_stream effs = h \<and> app_stream effs = [] \<and> \<not> hello_write_ok tc \<or>
      server_stream effs = h @ concat (to_server (pipe tc)) \<and> app_stream effs = concat (to_app (pipe tc))))"
    by (cases rule: cases) (simp_all add: pipe_def)
  show "CloseApp \<notin> set effs" "CloseServer \<notin> set effs"
    by (cases rule: cases; simp add: pipe_def)+
qed

lemma injectAndForward_defers:
  assumes "injectAndForward rnd sock ttl tc dst s = Some (effs, s')"
  shows "OnClose \<notin> set effs"
proof -
  have "OnClose \<notin> set (send_fakes ok tx i n)" for ok tx i n
    by (induction ok tx i n rule: send_fakes.induct) simp_all
  then show ?thesis
    using assms unfolding injectAndForward_def Let_def pipe_def
    by (auto split: option.splits prod.splits if_splits bind_splits)
qed

subsection \<open>Soundness\<close>

text \<open>
  The handler over the connections it is given, one after the other. A connection comes with the remote
  address every \<open>*net.TCPConn\<close> has, and with a clock that advances.
\<close>

definition serve_connection ::
  "(nat \<Rightarrow> nat \<Rightarrow> bytes option) \<Rightarrow> RawSocket \<Rightarrow> int \<Rightarrow> ports \<Rightarrow> conn_env \<times> Socksaddr \<Rightarrow> tun_state
   \<Rightarrow> tun_effect list option \<times> tun_state" where
  "serve_connection rnd sock ttl targets c s =
     (case NewConnectionEx rnd sock ttl targets (fst c) (snd c) s of None \<Rightarrow> (None, s) | Some (effs, s') \<Rightarrow> (Some effs, s'))"

definition acceptable :: "conn_env \<times> Socksaddr \<Rightarrow> bool" where
  "acceptable c \<longleftrightarrow> clock_ok (seq_clock (fst c)) \<and> srv_remote (fst c) \<noteq> None"

definition tun_ok :: "tun_state \<Rightarrow> bool" where
  "tun_ok s \<longleftrightarrow> (\<forall>c. tun_tracker s = Some c \<longrightarrow> filed c)"

definition tun_budget :: "tun_state \<Rightarrow> nat" where
  "tun_budget s = 2 ^ 63 - unat (tun_counter s)"

text \<open>A connection is closed exactly once if there is one to handle, and its callback is called once.\<close>

definition finished :: "conn_env \<times> Socksaddr \<Rightarrow> tun_effect list \<Rightarrow> bool" where
  "finished c effs \<longleftrightarrow>
     count_list effs CloseApp = (if has_conn (fst c) \<and> IsValid (snd c) then 1 else 0) \<and>
     count_list effs OnClose = (if has_onClose (fst c) then 1 else 0)"

lemma GetSeqAck_filed:
  assumes "clock_ok clock" and "\<forall>c. tracker = Some c \<longrightarrow> filed c"
  obtains nums tracker' where "GetSeqAck clock arrive port tracker = Some (nums, tracker')" "\<forall>c. tracker' = Some c \<longrightarrow> filed c"
proof (cases "tracker = None \<or> port = None")
  case True
  then show ?thesis
    using that assms(2) by (cases tracker) (auto simp: GetSeqAck_def)
next
  case False
  then obtain c p where c: "tracker = Some c" "port = Some p" "filed c"
    using assms(2) by auto
  obtain evt c' where w: "WaitForSeqAck (of_int p) 500000000 clock arrive c = Some (evt, c')" "filed c'"
    using WaitForSeqAck_returns [OF assms(1) c(3), of "of_int p" arrive] by blast
  show ?thesis
    by (rule that [of "case evt of None \<Rightarrow> (1, 1) | Some e \<Rightarrow> (Seq e, Ack e)" "Some c'"])
      (simp_all add: c(1,2) GetSeqAck_def w split: option.split)
qed

lemma injectAndForward_sound:
  assumes "clock_ok (seq_clock tc)" and "srv_remote tc \<noteq> None" and "tun_ok s" and "unat (tun_counter s) < 2 ^ 63"
  shows "\<exists>effs s'. injectAndForward rnd sock ttl tc dst s = Some (effs, s') \<and> tun_ok s' \<and>
    unat (tun_counter s') \<le> Suc (unat (tun_counter s))"
proof (cases "hello_read tc")
  case None
  with assms(3) show ?thesis by (simp add: injectAndForward_def)
next
  case (Some hello)
  obtain sni where sni: "ParseSNI hello = Some sni"
    using ParseSNI_total by blast
  obtain remote port where r: "srv_remote tc = Some (remote, port)"
    using assms(2) by auto
  obtain seq ack tracker where g: "GetSeqAck (seq_clock tc) (seq_arrive tc) (map_option snd (srv_local tc)) (tun_tracker s)
      = Some ((seq, ack), tracker)" "\<forall>c. tracker = Some c \<longrightarrow> filed c"
    using GetSeqAck_filed [OF assms(1), of "tun_tracker s"] assms(3) by (metis tun_ok_def prod.collapse)
  have next_counter: "unat (tun_counter s + 1) = Suc (unat (tun_counter s))"
    using assms(4) by (simp add: unat_word_ariths)
  obtain pkt where h: "RandomTLSClientHello rnd (tun_counter s) = (Some pkt, tun_counter s + 1)"
    using RandomTLSClientHello_eq [OF assms(4), of rnd] by blast
  show ?thesis
    using Some sni r g h next_counter
    by (cases "srv_local tc"; cases "sni = []"; cases "hello_write_ok tc")
      (auto simp: injectAndForward_def Let_def tun_ok_def)
qed

lemma serve_connection_sound:
  assumes "tun_ok s" and "acceptable c" and "0 < tun_budget s"
  shows "\<exists>effs s'. serve_connection rnd sock ttl targets c s = (Some effs, s') \<and> tun_ok s' \<and>
    tun_budget s \<le> Suc (tun_budget s') \<and> finished c effs"
proof -
  obtain tc d where c: "c = (tc, d)" by (cases c)
  have a: "clock_ok (seq_clock tc)" "srv_remote tc \<noteq> None" "unat (tun_counter s) < 2 ^ 63"
    using assms by (auto simp: c acceptable_def tun_budget_def)
  obtain addr where addr: "addr = JoinHostPort (AddrString d) (dec (unat (dst_Port d)))" by simp
  obtain dst s1 where r: "resolveDst addr (AddrString d) (dst_Port d) s = (dst, s1)" by fastforce
  then have s1: "tun_counter s1 = tun_counter s" "tun_ok s1"
    using assms(1) by (auto simp: resolveDst_def tun_ok_def Let_def split: option.splits prod.splits if_splits)
  show ?thesis
  proof (cases "has_conn tc \<and> IsValid d \<and> dial_ok tc \<and> targets (dst_Port d)")
    case False
    then show ?thesis
      using assms(1) r s1 by (cases "has_conn tc \<and> IsValid d"; cases "dial_ok tc")
        (auto simp: serve_connection_def c NewConnectionEx_def Let_def addr [symmetric] finished_def tun_budget_def pipe_def)
  next
    case True
    obtain effs s2 where i: "injectAndForward rnd sock ttl tc dst s1 = Some (effs, s2)" "tun_ok s2"
      "unat (tun_counter s2) \<le> Suc (unat (tun_counter s))"
      using injectAndForward_sound [OF a(1,2) s1(2), of rnd sock ttl dst] a(3) s1(1) by auto
    then have "count_list effs CloseApp = 0" "count_list effs OnClose = 0"
      using injectAndForward_streams(2) [OF i(1)] injectAndForward_defers [OF i(1)] by (simp_all add: count_list_0_iff)
    then show ?thesis
      using True i(2,3) r i(1)
      by (auto simp: serve_connection_def c NewConnectionEx_def Let_def addr [symmetric] finished_def tun_budget_def)
  qed
qed

interpretation tunh: sound_machine "serve_connection rnd sock ttl targets" acceptable tun_ok tun_budget finished
  for rnd sock ttl targets
  by unfold_locales (rule serve_connection_sound)

subsection \<open>Properties\<close>

text \<open>
  C7. The handler never panics: over any sequence of connections that leaves the counter of the decoys
  within 2^63, whatever their ClientHellos hold, whatever is captured and whatever fails, every handler
  returns; each connection with a valid destination is closed exactly once, the callback \<open>onClose\<close> is
  called exactly once for each connection that has one, and the tracker stays consistent.
\<close>

theorem handler_sound:
  assumes "tun_ok s" and "\<forall>c \<in> set conns. acceptable c" and "length conns + unat (tun_counter s) \<le> 2 ^ 63"
  shows "\<exists>outs s'. serve (serve_connection rnd sock ttl targets) conns s = (Some outs, s') \<and> tun_ok s' \<and>
    list_all2 finished conns outs"
proof -
  have "length conns \<le> tun_budget s"
    using assms(3) by (simp add: tun_budget_def)
  from tunh.serve_sound [OF assms(1,2) this, of rnd sock ttl targets] show ?thesis by blast
qed

text \<open>
  C6. The handler is transparent: whatever fails (the dial, a read, a fake, a write on either side), the
  bytes the server receives are a prefix of what the application sent (the ClientHello first), the bytes
  the application receives are a prefix of what the server sent, and both connections are closed exactly
  once. Nothing is missing if the server is reached and both directions end cleanly (every write is
  accepted and the last read reports the end); for a target port, where also the ClientHello is read
  and its write accepted and the server connection has both addresses, this includes everything after the
  ClientHello, even if the fakes could not be sent.
\<close>

theorem tun_transparent:
  assumes "NewConnectionEx rnd sock ttl targets tc destination s = Some (effs, s')"
    and "has_conn tc" and "IsValid destination"
  defines "first \<equiv> (if targets (dst_Port destination) then (case hello_read tc of Some h \<Rightarrow> h | None \<Rightarrow> []) else [])"
  shows "prefix (server_stream effs) (first @ concat (map fst (app_reads tc))) \<and>
    prefix (app_stream effs) (concat (map fst (srv_reads tc))) \<and>
    count_list effs CloseApp = 1 \<and> count_list effs CloseServer = (if dial_ok tc then 1 else 0) \<and>
    (dial_ok tc \<and> ends_cleanly (srv_write_ok tc) (app_reads tc) \<and> ends_cleanly (app_write_ok tc) (srv_reads tc) \<and>
       (targets (dst_Port destination) \<longrightarrow>
         hello_read tc \<noteq> None \<and> hello_write_ok tc \<and> srv_local tc \<noteq> None \<and> srv_remote tc \<noteq> None)
     \<longrightarrow> server_stream effs = first @ concat (map fst (app_reads tc)) \<and>
         app_stream effs = concat (map fst (srv_reads tc)))"
proof -
  define addr where "addr = JoinHostPort (AddrString destination) (dec (unat (dst_Port destination)))"
  let ?tail = "if has_onClose tc then [OnClose] else []"
  have tail: "server_stream ?tail = []" "app_stream ?tail = []" "count_list ?tail CloseApp = 0" "count_list ?tail CloseServer = 0"
    by simp_all
  have up: "prefix (concat (to_server (pipe tc))) (concat (map fst (app_reads tc)))"
    using copy_loop_prefix [of "srv_write_ok tc" "[]" "app_reads tc"] by (simp add: pipe_def)
  have down: "prefix (concat (to_app (pipe tc))) (concat (map fst (srv_reads tc)))"
    using copy_loop_prefix [of "app_write_ok tc" "[]" "srv_reads tc"] by (simp add: pipe_def)
  have pipe: "server_stream (pipe tc # es) = concat (to_server (pipe tc)) @ server_stream es"
    "app_stream (pipe tc # es) = concat (to_app (pipe tc)) @ app_stream es" "pipe tc \<noteq> CloseApp" "pipe tc \<noteq> CloseServer" for es
    by (simp_all add: pipe_def)
  have clean: "ends_cleanly (srv_write_ok tc) (app_reads tc) \<Longrightarrow> concat (to_server (pipe tc)) = concat (map fst (app_reads tc))"
    "ends_cleanly (app_write_ok tc) (srv_reads tc) \<Longrightarrow> concat (to_app (pipe tc)) = concat (map fst (srv_reads tc))"
    using copy_loop_complete [of "srv_write_ok tc" "app_reads tc" "[]"] copy_loop_complete [of "app_write_ok tc" "srv_reads tc" "[]"]
    by (simp_all add: pipe_def)
  obtain dst s1 where r: "resolveDst addr (AddrString destination) (dst_Port destination) s = (dst, s1)" by fastforce
  consider (nodial) "\<not> dial_ok tc" "effs = [Dial ''tcp'' addr, CloseApp] @ ?tail"
    | (plain) "dial_ok tc" "\<not> targets (dst_Port destination)" "effs = [Dial ''tcp'' addr, pipe tc, CloseServer, CloseApp] @ ?tail"
    | (target) es where "dial_ok tc" "targets (dst_Port destination)" "injectAndForward rnd sock ttl tc dst s1 = Some (es, s')"
        "effs = [Dial ''tcp'' addr] @ es @ [CloseServer, CloseApp] @ ?tail"
    using assms(1-3) r by (auto simp: NewConnectionEx_def Let_def addr_def [symmetric] split: if_splits bind_splits)
  then show ?thesis
  proof cases
    case nodial
    then show ?thesis by simp
  next
    case plain
    then show ?thesis
      using up down clean pipe by (simp add: first_def)
  next
    case target
    have c: "count_list es CloseApp = 0" "count_list es CloseServer = 0"
      using injectAndForward_streams(2,3) [OF target(3)] by (simp_all add: count_list_0_iff)
    show ?thesis
      using injectAndForward_streams(1) [OF target(3)] up down clean c target(1,2,4)
      by (auto simp: first_def)
  qed
qed

text \<open>A sample connection: a ClientHello from one application, answered by one chunk.\<close>

definition sample_tc :: conn_env where
  "sample_tc = \<lparr>has_conn = True, has_onClose = True, dial_ok = True, hello_read = Some TLSClientHello,
     srv_local = Some ([192, 168, 1, 2], 50000), srv_remote = Some ([93, 184, 216, 34], 443),
     fake_ok = (\<lambda>_. True), hello_write_ok = True,
     app_reads = [([1, 2], False), ([3], True)], srv_reads = [([9], False), ([], True)],
     srv_write_ok = (\<lambda>_ _. True), app_write_ok = (\<lambda>_ _. True),
     seq_clock = sample_clock, seq_arrive = (\<lambda>_. [])\<rparr>"

definition sample_destination :: Socksaddr where
  "sample_destination = \<lparr>IsValid = True, AddrString = ''93.184.216.34'', dst_Port = 443\<rparr>"

definition idle_tun :: tun_state where
  "idle_tun = \<lparr>tun_counter = 0, tun_dns = None, tun_tracker = Some (\<lambda>_. None)\<rparr>"

theorem handler_sound_witness:
  "\<exists>outs s'. serve (serve_connection (\<lambda>k n. None) (platformRawSocket Darwin) 8 (port_map [443]))
      [(sample_tc, sample_destination), (sample_tc\<lparr>hello_read := None\<rparr>, sample_destination), (sample_tc\<lparr>dial_ok := False\<rparr>, sample_destination)]
      idle_tun = (Some outs, s') \<and>
    list_all2 finished [(sample_tc, sample_destination), (sample_tc\<lparr>hello_read := None\<rparr>, sample_destination),
      (sample_tc\<lparr>dial_ok := False\<rparr>, sample_destination)] outs"
proof -
  let ?conns = "[(sample_tc, sample_destination), (sample_tc\<lparr>hello_read := None\<rparr>, sample_destination),
    (sample_tc\<lparr>dial_ok := False\<rparr>, sample_destination)]"
  have "tun_ok idle_tun" "unat (tun_counter idle_tun) = 0"
    by (simp_all add: tun_ok_def idle_tun_def filed_empty)
  moreover have "\<forall>c \<in> set ?conns. acceptable c"
    by (simp add: acceptable_def sample_clock_ok sample_tc_def)
  ultimately show ?thesis
    using handler_sound [of idle_tun ?conns "\<lambda>k n. None" "platformRawSocket Darwin" 8 "port_map [443]"] by auto
qed

theorem tun_transparent_witness:
  "\<exists>effs s'. NewConnectionEx (\<lambda>k n. None) (platformRawSocket Darwin) 8 (port_map [443]) sample_tc sample_destination idle_tun
      = Some (effs, s') \<and> server_stream effs = TLSClientHello @ [1, 2, 3] \<and> app_stream effs = [9]"
proof -
  have "acceptable (sample_tc, sample_destination)" "tun_ok idle_tun" "0 < tun_budget idle_tun"
    by (simp_all add: acceptable_def sample_clock_ok sample_tc_def tun_ok_def idle_tun_def filed_empty tun_budget_def)
  from serve_connection_sound [OF this(2,1,3), of "\<lambda>k n. None" "platformRawSocket Darwin" 8 "port_map [443]"]
  obtain effs s' where n: "NewConnectionEx (\<lambda>k n. None) (platformRawSocket Darwin) 8 (port_map [443]) sample_tc sample_destination idle_tun
      = Some (effs, s')"
    by (auto simp: serve_connection_def split: option.splits)
  from tun_transparent [OF n] n show ?thesis
    by (simp add: sample_tc_def sample_destination_def ends_cleanly_def port_map_def)
qed

text \<open>The trace of a treated connection.\<close>

lemma decoys_first:
  assumes "rand_ok rnd" and "unat (tun_counter s) < 2 ^ 63" and "clock_ok (seq_clock tc)"
    and "tun_tracker s = Some c" and "filed c"
    and "has_conn tc" and "IsValid destination" and "dial_ok tc" and "targets (dst_Port destination)"
    and "hello_read tc = Some hello" and "\<forall>i. fake_ok tc i" and "hello_write_ok tc"
    and "srv_local tc = Some (localIP, localPort)" and "srv_remote tc = Some (remoteIP, remotePort)"
    and "to4 localIP \<noteq> []" and "to4 remoteIP \<noteq> []"
  shows "\<exists>seq ack c' pre tx log post s'.
    GetSeqAck (seq_clock tc) (seq_arrive tc) (Some localPort) (Some c) = Some ((seq, ack), Some c') \<and>
    NewConnectionEx rnd sock ttl targets tc destination s =
      Some (pre @ [TunSend tx, TunSend tx, TunSend tx, log, SleepMs 2, ServerWrite hello] @ post, s') \<and>
    server_stream (pre @ [TunSend tx, TunSend tx, TunSend tx, log]) = [] \<and>
    server_stream post = concat (copy_loop (srv_write_ok tc) [] (app_reads tc)) \<and>
    decoy_on (socket_os sock) \<lparr>SrcIP = localIP, DstIP = remoteIP, SrcPort = of_int localPort, DstPort = of_int remotePort,
      Seq = seq, Ack = ack\<rparr> ttl tx"
proof -
  define addr where "addr = JoinHostPort (AddrString destination) (dec (unat (dst_Port destination)))"
  obtain dst s1 where r: "resolveDst addr (AddrString destination) (dst_Port destination) s = (dst, s1)" by fastforce
  then have s1: "tun_counter s1 = tun_counter s" "tun_tracker s1 = Some c"
    using assms(4) by (auto simp: resolveDst_def Let_def split: option.splits prod.splits if_splits)
  obtain seq ack c' where g: "GetSeqAck (seq_clock tc) (seq_arrive tc) (Some localPort) (Some c) = Some ((seq, ack), Some c')"
    using GetSeqAck_total [OF assms(3,5)] by blast
  obtain sni where sni: "ParseSNI hello = Some sni"
    using ParseSNI_total by blast
  obtain pkt host where h: "RandomTLSClientHello rnd (tun_counter s) = (Some pkt, tun_counter s + 1)"
    "length pkt \<le> 65495" "host \<in> decoy_hosts" "ParseSNI pkt = Some host"
    by (rule random_hello [OF assms(1,2)])
  let ?conn = "\<lparr>SrcIP = localIP, DstIP = remoteIP, SrcPort = of_int localPort, DstPort = of_int remotePort,
      Seq = seq, Ack = ack\<rparr>"
  let ?tx = "SendFake sock ?conn pkt ttl"
  have fakes: "send_fakes (fake_ok tc) ?tx 0 3 = [TunSend ?tx, TunSend ?tx, TunSend ?tx]"
    using assms(11) by (simp add: send_fakes_all numeral_3_eq_3)
  have "\<exists>log s'. injectAndForward rnd sock ttl tc dst s1 =
      Some ([ReadHello, TunSend ?tx, TunSend ?tx, TunSend ?tx, log, SleepMs 2, ServerWrite hello, pipe tc], s') \<and>
      server_stream [log] = []"
    using assms(10,12-14) g sni h(1) s1 fakes
    by (cases "sni = []") (simp_all add: injectAndForward_def Let_def)
  then obtain log s' where i: "injectAndForward rnd sock ttl tc dst s1 =
      Some ([ReadHello, TunSend ?tx, TunSend ?tx, TunSend ?tx, log, SleepMs 2, ServerWrite hello, pipe tc], s')"
    "server_stream [log] = []" by blast
  let ?pre = "[Dial ''tcp'' addr, ReadHello]"
  let ?post = "[pipe tc, CloseServer, CloseApp] @ (if has_onClose tc then [OnClose] else [])"
  have "NewConnectionEx rnd sock ttl targets tc destination s =
      Some (?pre @ [TunSend ?tx, TunSend ?tx, TunSend ?tx, log, SleepMs 2, ServerWrite hello] @ ?post, s')"
    using assms(6-9) r i(1) by (simp add: NewConnectionEx_def Let_def addr_def)
  moreover have "server_stream ?post = concat (copy_loop (srv_write_ok tc) [] (app_reads tc))"
    by (simp add: pipe_def)
  moreover have "server_stream (?pre @ [TunSend ?tx, TunSend ?tx, TunSend ?tx, log]) = []"
    using i(2) by simp
  moreover have "decoy_on (socket_os sock) ?conn ttl ?tx"
    by (rule decoy_on_SendFake [OF _ h(2,4,3)]) (simp add: v4_conn_def assms(15,16))
  ultimately show ?thesis using g by blast
qed

text \<open>
  A treated connection is disguised before it speaks: for a connection to a target port over IPv4
  whose reads and writes succeed, \<open>GetSeqAck\<close> returns and three copies of one fake go out on the raw
  socket before the ClientHello is written, each a valid TCP segment on the server connection with the
  numbers \<open>GetSeqAck\<close> gave, the configured TTL and a decoy server name; the ClientHello itself and
  everything after it is unchanged.
\<close>

theorem tun_decoys_first:
  assumes "rand_ok rnd" and "unat (tun_counter s) < 2 ^ 63" and "clock_ok (seq_clock tc)"
    and "tun_tracker s = Some c" and "filed c"
    and "has_conn tc" and "IsValid destination" and "dial_ok tc" and "targets (dst_Port destination)"
    and "hello_read tc = Some hello" and "\<forall>i. fake_ok tc i" and "hello_write_ok tc"
    and "srv_local tc = Some (localIP, localPort)" and "srv_remote tc = Some (remoteIP, remotePort)"
    and "to4 localIP \<noteq> []" and "to4 remoteIP \<noteq> []"
  shows "\<exists>seq ack c' pre tx log post s'.
    GetSeqAck (seq_clock tc) (seq_arrive tc) (Some localPort) (Some c) = Some ((seq, ack), Some c') \<and>
    NewConnectionEx rnd sock ttl targets tc destination s =
      Some (pre @ [TunSend tx, TunSend tx, TunSend tx, log, SleepMs 2, ServerWrite hello] @ post, s') \<and>
    server_stream (pre @ [TunSend tx, TunSend tx, TunSend tx, log]) = [] \<and>
    server_stream post = concat (copy_loop (srv_write_ok tc) [] (app_reads tc)) \<and>
    decoy_on (socket_os sock) \<lparr>SrcIP = localIP, DstIP = remoteIP, SrcPort = of_int localPort, DstPort = of_int remotePort,
      Seq = seq, Ack = ack\<rparr> ttl tx"
  by (rule decoys_first [where targets = targets, OF assms])

theorem tun_decoys_first_witness:
  "\<exists>tx effs s'. NewConnectionEx (\<lambda>k n. None) (pcapRawSocket [2,0,0,0,0,1] [2,0,0,0,0,9]) 8 (port_map [443]) sample_tc sample_destination idle_tun
      = Some (effs, s') \<and> TunSend tx \<in> set effs \<and> ServerWrite TLSClientHello \<in> set effs \<and>
      (\<exists>w. parse_packet Windows (ip_packet tx) = Some w \<and> DstIP (wire_conn w) = [93, 184, 216, 34])"
proof -
  have "\<exists>seq ack c' pre tx log post s'.
    GetSeqAck (seq_clock sample_tc) (seq_arrive sample_tc) (Some 50000) (Some (\<lambda>_. None)) = Some ((seq, ack), Some c') \<and>
    NewConnectionEx (\<lambda>k n. None) (pcapRawSocket [2,0,0,0,0,1] [2,0,0,0,0,9]) 8 (port_map [443]) sample_tc sample_destination idle_tun =
      Some (pre @ [TunSend tx, TunSend tx, TunSend tx, log, SleepMs 2, ServerWrite TLSClientHello] @ post, s') \<and>
    server_stream (pre @ [TunSend tx, TunSend tx, TunSend tx, log]) = [] \<and>
    server_stream post = concat (copy_loop (srv_write_ok sample_tc) [] (app_reads sample_tc)) \<and>
    decoy_on (socket_os (pcapRawSocket [2,0,0,0,0,1] [2,0,0,0,0,9])) \<lparr>SrcIP = [192, 168, 1, 2], DstIP = [93, 184, 216, 34], SrcPort = of_int 50000, DstPort = of_int 443,
      Seq = seq, Ack = ack\<rparr> 8 tx"
    by (rule tun_decoys_first [OF rand_ok_None _ _ _ filed_empty])
      (simp_all add: idle_tun_def sample_tc_def sample_destination_def sample_clock_ok port_map_def)
  then obtain effs tx s' conn where n: "NewConnectionEx (\<lambda>k n. None) (pcapRawSocket [2,0,0,0,0,1] [2,0,0,0,0,9]) 8
      (port_map [443]) sample_tc sample_destination idle_tun = Some (effs, s')"
    "TunSend tx \<in> set effs" "ServerWrite TLSClientHello \<in> set effs" "decoy_on Windows conn 8 tx"
    "DstIP conn = [93, 184, 216, 34]"
    by force
  with decoy_on_parsed [OF n(4)] show ?thesis by auto
qed

end
