(* ===== verification/TunPipe.thy ===== *)
theory TunPipe
  imports TunHandler
begin

text \<open>
  The two goroutines of \<open>pipe\<close> (pkg/tun/handler.go), which theory TunHandler treats as two independent
  copies: here every interleaving of them is a run of a step relation, with the deadlines through which
  one ends the other and the wait group \<open>pipe\<close> returns on. The connections are parameters, used as
  package net documents them: \<open>Read\<close> blocks until there are data, the connection ends or its deadline
  passes, \<open>Write\<close> until the data are taken, the connection breaks or its deadline passes. What is proved:
  \<open>pipe\<close> returns unless both directions block in \<open>Write\<close>, which has no deadline; each direction has
  then written what the sequential copy loop of TunHandler writes; and the first direction to end wakes the
  other one and cuts it.
\<close>

subsection \<open>The goroutines\<close>

text \<open>
  \<open>Up\<close> is \<open>cp(b, a)\<close>, from the application to the server, and \<open>Down\<close> is \<open>cp(a, b)\<close>, where \<open>a\<close> is the
  connection of the application and \<open>b\<close> that of the server.
\<close>

datatype dir = Up | Down

fun opposite :: "dir \<Rightarrow> dir" where
  "opposite Up = Down"
| "opposite Down = Up"

text \<open>
  The program counter of \<open>cp\<close>: before \<open>SetReadDeadline\<close>, in \<open>Read\<close>, with what it returned (data, and
  whether an error came with it), before the two calls of \<open>SetDeadline\<close> behind the loop, and in the
  deferred \<open>wg.Done\<close>.
\<close>

datatype cp_pc = Arming | Reading | Got bytes bool | EndingA | EndingB | Leaving | Finished

text \<open>A deadline: none was set, one in the future (\<open>now + idleTimeout\<close>), or one that has passed.\<close>

datatype deadline = Never | Ahead | Passed

text \<open>
  \<open>cp_input d\<close> is what the source of \<open>d\<close> still has to deliver, \<open>cp_log d\<close> what the reads have returned,
  \<open>cp_written d\<close> the chunks the destination has accepted. \<open>read_dl d\<close> is the read deadline of the source
  of \<open>d\<close>, \<open>write_dl d\<close> the write deadline of its destination. The destination takes \<open>cp_room d\<close> more
  writes, and then blocks them; \<open>write_breaks d\<close> says whether its connection may fail in a write.
\<close>

record pipe_run =
  cp_pc :: "dir \<Rightarrow> cp_pc"
  cp_input :: "dir \<Rightarrow> (bytes \<times> bool) list"
  cp_log :: "dir \<Rightarrow> (bytes \<times> bool) list"
  cp_written :: "dir \<Rightarrow> bytes list"
  read_dl :: "dir \<Rightarrow> deadline"
  write_dl :: "dir \<Rightarrow> deadline"
  cp_room :: "dir \<Rightarrow> nat"
  write_breaks :: "dir \<Rightarrow> bool"
  wait_group :: nat
  pipe_returned :: bool

definition pipe_init ::
  "(dir \<Rightarrow> (bytes \<times> bool) list) \<Rightarrow> (dir \<Rightarrow> nat) \<Rightarrow> (dir \<Rightarrow> bool) \<Rightarrow> pipe_run" where
  "pipe_init input room breaks = \<lparr>cp_pc = (\<lambda>_. Arming), cp_input = input, cp_log = (\<lambda>_. []), cp_written = (\<lambda>_. []),
     read_dl = (\<lambda>_. Never), write_dl = (\<lambda>_. Never), cp_room = room, write_breaks = breaks, wait_group = 2,
     pipe_returned = False\<rparr>"

text \<open>\<open>a.SetDeadline(time.Now())\<close> and \<open>b.SetDeadline(time.Now())\<close>: reads and writes of one connection.\<close>

definition expire_a :: "pipe_run \<Rightarrow> pipe_run" where
  "expire_a s = s\<lparr>read_dl := (read_dl s)(Up := Passed), write_dl := (write_dl s)(Down := Passed)\<rparr>"

definition expire_b :: "pipe_run \<Rightarrow> pipe_run" where
  "expire_b s = s\<lparr>read_dl := (read_dl s)(Down := Passed), write_dl := (write_dl s)(Up := Passed)\<rparr>"

abbreviation goto_pc :: "dir \<Rightarrow> cp_pc \<Rightarrow> pipe_run \<Rightarrow> pipe_run" where
  "goto_pc d pc s \<equiv> s\<lparr>cp_pc := (cp_pc s)(d := pc)\<rparr>"

text \<open>Where the loop goes after a chunk that was written, or that was empty.\<close>

definition after_chunk :: "bool \<Rightarrow> cp_pc" where
  "after_chunk failed = (if failed then EndingA else Arming)"

inductive pipe_step :: "pipe_run \<Rightarrow> pipe_run \<Rightarrow> bool" where
  arm: "cp_pc s d = Arming \<Longrightarrow> pipe_step s (goto_pc d Reading (s\<lparr>read_dl := (read_dl s)(d := Ahead)\<rparr>))"
| read: "cp_pc s d = Reading \<Longrightarrow> read_dl s d \<noteq> Passed \<Longrightarrow> cp_input s d = (data, failed) # rest \<Longrightarrow>
    pipe_step s (goto_pc d (Got data failed)
      (s\<lparr>cp_input := (cp_input s)(d := rest), cp_log := (cp_log s)(d := cp_log s d @ [(data, failed)])\<rparr>))"
| timeout: "cp_pc s d = Reading \<Longrightarrow> read_dl s d \<noteq> Never \<Longrightarrow>
    pipe_step s (goto_pc d (Got [] True) (s\<lparr>cp_log := (cp_log s)(d := cp_log s d @ [([], True)])\<rparr>))"
| write_done: "cp_pc s d = Got data failed \<Longrightarrow> data \<noteq> [] \<Longrightarrow> write_dl s d \<noteq> Passed \<Longrightarrow> cp_room s d = Suc n \<Longrightarrow>
    pipe_step s (goto_pc d (after_chunk failed)
      (s\<lparr>cp_written := (cp_written s)(d := cp_written s d @ [data]), cp_room := (cp_room s)(d := n)\<rparr>))"
| write_failed: "cp_pc s d = Got data failed \<Longrightarrow> data \<noteq> [] \<Longrightarrow> write_dl s d = Passed \<or> write_breaks s d \<Longrightarrow>
    pipe_step s (goto_pc d EndingA s)"
| nothing_read: "cp_pc s d = Got [] failed \<Longrightarrow> pipe_step s (goto_pc d (after_chunk failed) s)"
| end_a: "cp_pc s d = EndingA \<Longrightarrow> pipe_step s (goto_pc d EndingB (expire_a s))"
| end_b: "cp_pc s d = EndingB \<Longrightarrow> pipe_step s (goto_pc d Leaving (expire_b s))"
| leave: "cp_pc s d = Leaving \<Longrightarrow> pipe_step s (goto_pc d Finished (s\<lparr>wait_group := wait_group s - 1\<rparr>))"
| wait_over: "wait_group s = 0 \<Longrightarrow> \<not> pipe_returned s \<Longrightarrow> pipe_step s (s\<lparr>pipe_returned := True\<rparr>)"

inductive_cases pipe_stepE: "pipe_step s s'"

abbreviation pipe_reach ::
  "(dir \<Rightarrow> (bytes \<times> bool) list) \<Rightarrow> (dir \<Rightarrow> nat) \<Rightarrow> (dir \<Rightarrow> bool) \<Rightarrow> pipe_run \<Rightarrow> bool" where
  "pipe_reach input room breaks s \<equiv> pipe_step\<^sup>*\<^sup>* (pipe_init input room breaks) s"

text \<open>A direction that blocks in \<open>Write\<close>: nothing is taken, nothing breaks, no deadline passes.\<close>

definition write_blocks :: "pipe_run \<Rightarrow> dir \<Rightarrow> bool" where
  "write_blocks s d \<longleftrightarrow> (case cp_pc s d of Got data _ \<Rightarrow> data \<noteq> [] | _ \<Rightarrow> False) \<and>
     cp_room s d = 0 \<and> \<not> write_breaks s d \<and> write_dl s d \<noteq> Passed"

subsection \<open>The variant\<close>

fun cp_rank :: "cp_pc \<Rightarrow> nat" where
  "cp_rank Arming = 6"
| "cp_rank Reading = 5"
| "cp_rank (Got data failed) = (if failed then 4 else 7)"
| "cp_rank EndingA = 3"
| "cp_rank EndingB = 2"
| "cp_rank Leaving = 1"
| "cp_rank Finished = 0"

definition dir_rank :: "pipe_run \<Rightarrow> dir \<Rightarrow> nat" where
  "dir_rank s d = 3 * length (cp_input s d) + cp_rank (cp_pc s d)"

definition pipe_rank :: "pipe_run \<Rightarrow> nat" where
  "pipe_rank s = dir_rank s Up + dir_rank s Down + (if pipe_returned s then 0 else 1)"

lemma opposite_simps [simp]: "opposite (opposite d) = d" "opposite d \<noteq> d" "d \<noteq> opposite d"
  by (cases d; simp)+

lemma pipe_rank_split: "pipe_rank s = dir_rank s d + dir_rank s (opposite d) + (if pipe_returned s then 0 else 1)"
  by (cases d) (simp_all add: pipe_rank_def)

text \<open>What a step of one direction leaves alone.\<close>

lemma pipe_rank_dec:
  assumes "dir_rank s' d < dir_rank s d" and "dir_rank s' (opposite d) = dir_rank s (opposite d)"
    and "pipe_returned s' = pipe_returned s"
  shows "pipe_rank s' < pipe_rank s"
  using assms by (simp add: pipe_rank_split [of _ d])

lemma pipe_rank_step: "pipe_step s s' \<Longrightarrow> pipe_rank s' < pipe_rank s"
proof (induction rule: pipe_step.induct)
  case (arm s d)
  then show ?case by (intro pipe_rank_dec [of _ d]) (simp_all add: dir_rank_def)
next
  case (read s d data failed rest)
  then show ?case by (intro pipe_rank_dec [of _ d]) (simp_all add: dir_rank_def)
next
  case (timeout s d)
  then show ?case by (intro pipe_rank_dec [of _ d]) (simp_all add: dir_rank_def)
next
  case (write_done s d data failed n)
  then show ?case by (intro pipe_rank_dec [of _ d]) (simp_all add: dir_rank_def after_chunk_def)
next
  case (write_failed s d data failed)
  then show ?case by (intro pipe_rank_dec [of _ d]) (simp_all add: dir_rank_def)
next
  case (nothing_read s d failed)
  then show ?case by (intro pipe_rank_dec [of _ d]) (simp_all add: dir_rank_def after_chunk_def)
next
  case (end_a s d)
  then show ?case by (intro pipe_rank_dec [of _ d]) (simp_all add: dir_rank_def expire_a_def)
next
  case (end_b s d)
  then show ?case by (intro pipe_rank_dec [of _ d]) (simp_all add: dir_rank_def expire_b_def)
next
  case (leave s d)
  then show ?case by (intro pipe_rank_dec [of _ d]) (simp_all add: dir_rank_def)
next
  case (wait_over s)
  then show ?case by (simp add: pipe_rank_def dir_rank_def)
qed

subsection \<open>Invariants\<close>

text \<open>The chunks that are written for a log of reads without an error.\<close>

definition chunks :: "(bytes \<times> bool) list \<Rightarrow> bytes list" where
  "chunks reads = filter (\<lambda>data. data \<noteq> []) (map fst reads)"

lemma chunks_simps [simp]:
  "chunks [] = []" "chunks ((data, failed) # reads) = (if data = [] then chunks reads else data # chunks reads)"
  "chunks (xs @ ys) = chunks xs @ chunks ys"
  by (simp_all add: chunks_def)

definition clean :: "(bytes \<times> bool) list \<Rightarrow> bytes list \<Rightarrow> bool" where
  "clean reads w \<longleftrightarrow> (\<forall>r \<in> set reads. \<not> snd r) \<and> w = chunks reads"

definition copied :: "(bytes \<times> bool) list \<Rightarrow> bytes list \<Rightarrow> bool" where
  "copied reads w \<longleftrightarrow> (\<exists>ok. w = copy_loop ok [] reads)"

fun cp_inv :: "cp_pc \<Rightarrow> (bytes \<times> bool) list \<Rightarrow> bytes list \<Rightarrow> bool" where
  "cp_inv Arming reads w \<longleftrightarrow> clean reads w"
| "cp_inv Reading reads w \<longleftrightarrow> clean reads w"
| "cp_inv (Got data failed) reads w \<longleftrightarrow> (\<exists>before. reads = before @ [(data, failed)] \<and> clean before w)"
| "cp_inv pc reads w \<longleftrightarrow> copied reads w"

text \<open>The loop of TunHandler with a destination that accepts \<open>n\<close> chunks.\<close>

lemma copy_loop_accepting:
  "\<forall>r \<in> set xs. \<not> snd r \<Longrightarrow> length w + length (chunks xs) \<le> n \<Longrightarrow>
   copy_loop (\<lambda>w _. length w < n) w (xs @ ys) = copy_loop (\<lambda>w _. length w < n) (w @ chunks xs) ys"
  by (induction xs arbitrary: w) auto

lemma copied_refused:
  assumes "clean before w" and "data \<noteq> []"
  shows "copied (before @ [(data, failed)]) w"
  unfolding copied_def
  by (rule exI [of _ "\<lambda>w _. length w < length (chunks before)"])
    (use assms in \<open>simp add: clean_def copy_loop_accepting\<close>)

lemma copied_accepted:
  assumes "clean before w" and "data \<noteq> []"
  shows "copied (before @ [(data, True)]) (w @ [data])"
  unfolding copied_def
  by (rule exI [of _ "\<lambda>w _. length w < Suc (length (chunks before))"])
    (use assms in \<open>simp add: clean_def copy_loop_accepting\<close>)

lemma copied_end:
  assumes "clean before w"
  shows "copied (before @ [([], True)]) w"
  unfolding copied_def
  by (rule exI [of _ "\<lambda>w _. length w < length (chunks before)"])
    (use assms in \<open>simp add: clean_def copy_loop_accepting\<close>)

lemma clean_snoc: "clean before w \<Longrightarrow> clean (before @ [(data, False)]) (if data = [] then w else w @ [data])"
  by (simp add: clean_def)

abbreviation dir_inv :: "pipe_run \<Rightarrow> dir \<Rightarrow> bool" where
  "dir_inv s d \<equiv> cp_inv (cp_pc s d) (cp_log s d) (cp_written s d)"

lemma dir_inv_upd:
  assumes "\<forall>e. dir_inv s e" and "dir_inv s' d"
    and "\<And>e. e \<noteq> d \<Longrightarrow> cp_pc s' e = cp_pc s e \<and> cp_log s' e = cp_log s e \<and> cp_written s' e = cp_written s e"
  shows "\<forall>e. dir_inv s' e"
proof
  fix e
  show "dir_inv s' e"
    using assms by (cases "e = d") simp_all
qed

lemma dir_inv_step: "pipe_step s s' \<Longrightarrow> \<forall>e. dir_inv s e \<Longrightarrow> \<forall>e. dir_inv s' e"
proof (induction rule: pipe_step.induct)
  case (arm s d)
  then show ?case by (intro dir_inv_upd [OF arm(2), of _ d]) (auto dest: spec [of _ d])
next
  case (read s d data failed rest)
  then show ?case by (intro dir_inv_upd [OF read(4), of _ d]) (auto dest: spec [of _ d])
next
  case (timeout s d)
  then show ?case by (intro dir_inv_upd [OF timeout(3), of _ d]) (auto dest: spec [of _ d])
next
  case (write_done s d data failed n)
  then obtain before where b: "cp_log s d = before @ [(data, failed)]" "clean before (cp_written s d)"
    by (metis cp_inv.simps(3))
  show ?case
    using write_done(1,2) b clean_snoc [OF b(2), of data] copied_accepted [OF b(2), of data]
    by (intro dir_inv_upd [OF write_done(5), of _ d]; cases failed) (simp_all add: after_chunk_def)
next
  case (write_failed s d data failed)
  then obtain before where b: "cp_log s d = before @ [(data, failed)]" "clean before (cp_written s d)"
    by (metis cp_inv.simps(3))
  show ?case
    using write_failed(1,2) b copied_refused [OF b(2)]
    by (intro dir_inv_upd [OF write_failed(4), of _ d]) simp_all
next
  case (nothing_read s d failed)
  then obtain before where b: "cp_log s d = before @ [([], failed)]" "clean before (cp_written s d)"
    by (metis cp_inv.simps(3))
  show ?case
    using nothing_read(1) b clean_snoc [OF b(2), of "[]"] copied_end [OF b(2)]
    by (intro dir_inv_upd [OF nothing_read(2), of _ d]; cases failed) (simp_all add: after_chunk_def)
next
  case (end_a s d)
  then show ?case by (intro dir_inv_upd [OF end_a(2), of _ d]) (auto simp: expire_a_def dest: spec [of _ d])
next
  case (end_b s d)
  then show ?case by (intro dir_inv_upd [OF end_b(2), of _ d]) (auto simp: expire_b_def dest: spec [of _ d])
next
  case (leave s d)
  then show ?case by (intro dir_inv_upd [OF leave(2), of _ d]) (auto dest: spec [of _ d])
qed simp

lemma pipe_reach_inv: "pipe_reach input room breaks s \<Longrightarrow> \<forall>e. dir_inv s e"
  by (induction rule: rtranclp_induct) (simp_all add: pipe_init_def clean_def dir_inv_step)

text \<open>What was read is what was delivered so far.\<close>

lemma pipe_log_step: "pipe_step s s' \<Longrightarrow>
  concat (map fst (cp_log s' e)) @ concat (map fst (cp_input s' e)) = concat (map fst (cp_log s e)) @ concat (map fst (cp_input s e))"
  by (induction rule: pipe_step.induct) (auto simp: expire_a_def expire_b_def)

lemma pipe_log:
  "pipe_reach input room breaks s \<Longrightarrow> concat (map fst (cp_log s e)) @ concat (map fst (cp_input s e)) = concat (map fst (input e))"
  by (induction rule: rtranclp_induct) (simp_all add: pipe_init_def pipe_log_step)

text \<open>The wait group counts the goroutines that have not called \<open>Done\<close>.\<close>

definition running :: "pipe_run \<Rightarrow> dir \<Rightarrow> nat" where
  "running s d = (if cp_pc s d = Finished then 0 else 1)"

definition wait_inv :: "pipe_run \<Rightarrow> bool" where
  "wait_inv s \<longleftrightarrow> wait_group s = running s Up + running s Down \<and> (pipe_returned s \<longrightarrow> wait_group s = 0)"

lemma wait_inv_step: "pipe_step s s' \<Longrightarrow> wait_inv s \<Longrightarrow> wait_inv s'"
proof (induction rule: pipe_step.induct)
  case (leave s d)
  then show ?case by (cases d) (auto simp: wait_inv_def running_def)
next
  case (write_done s d data failed n)
  then show ?case by (cases d) (auto simp: wait_inv_def running_def after_chunk_def)
next
  case (nothing_read s d failed)
  then show ?case by (cases d) (auto simp: wait_inv_def running_def after_chunk_def)
next
  case (wait_over s)
  then show ?case by (simp add: wait_inv_def running_def)
qed (rename_tac s d, case_tac d; fastforce simp: wait_inv_def running_def expire_a_def expire_b_def)+

lemma pipe_reach_wait: "pipe_reach input room breaks s \<Longrightarrow> wait_inv s"
proof (induction rule: rtranclp_induct)
  case base
  show ?case by (simp add: pipe_init_def wait_inv_def running_def)
qed (rule wait_inv_step)

subsection \<open>How one direction ends the other\<close>

text \<open>A write deadline that has passed is never moved: \<open>cp\<close> sets read deadlines only.\<close>

lemma write_dl_stays: "pipe_step s s' \<Longrightarrow> write_dl s d = Passed \<Longrightarrow> write_dl s' d = Passed \<and> cp_written s' d = cp_written s d"
  by (induction rule: pipe_step.induct) (auto simp: expire_a_def expire_b_def)

lemma nothing_written_later:
  assumes "pipe_step\<^sup>*\<^sup>* s s'" and "write_dl s d = Passed"
  shows "write_dl s' d = Passed \<and> cp_written s' d = cp_written s d"
  using assms by (induction rule: rtranclp_induct) (auto dest: write_dl_stays)

fun expired_at :: "cp_pc \<Rightarrow> (dir \<Rightarrow> deadline) \<Rightarrow> bool" where
  "expired_at EndingB dl \<longleftrightarrow> dl Down = Passed"
| "expired_at Leaving dl \<longleftrightarrow> dl Down = Passed \<and> dl Up = Passed"
| "expired_at Finished dl \<longleftrightarrow> dl Down = Passed \<and> dl Up = Passed"
| "expired_at _ dl \<longleftrightarrow> True"

definition cut_inv :: "pipe_run \<Rightarrow> bool" where
  "cut_inv s \<longleftrightarrow> (\<forall>d. expired_at (cp_pc s d) (write_dl s))"

lemma expired_at_mono:
  "expired_at pc dl \<Longrightarrow> (\<And>d. dl d = Passed \<Longrightarrow> dl' d = Passed) \<Longrightarrow> expired_at pc dl'"
  by (cases pc) simp_all

lemma cut_inv_upd:
  assumes "pipe_step s s'" and "cut_inv s" and "expired_at (cp_pc s' d) (write_dl s')"
    and "\<And>e. e \<noteq> d \<Longrightarrow> cp_pc s' e = cp_pc s e"
  shows "cut_inv s'"
  unfolding cut_inv_def
proof
  fix e
  show "expired_at (cp_pc s' e) (write_dl s')"
  proof (cases "e = d")
    case False
    have "expired_at (cp_pc s e) (write_dl s)"
      using assms(2) by (simp add: cut_inv_def)
    then show ?thesis
      using expired_at_mono write_dl_stays [OF assms(1)] assms(4) [OF False] by metis
  qed (use assms(3) in simp)
qed

lemma cut_inv_step:
  assumes "pipe_step s s'" and "cut_inv s"
  shows "cut_inv s'"
proof -
  have e: "\<And>d. expired_at (cp_pc s d) (write_dl s)"
    using assms(2) by (simp add: cut_inv_def)
  note upd = cut_inv_upd [OF assms]
  show ?thesis
    using assms(1)
  proof cases
    case (end_a d)
    then show ?thesis using e [of d] by (intro upd [of d]) (simp_all add: expire_a_def)
  next
    case (end_b d)
    then show ?thesis using e [of d] by (intro upd [of d]) (simp_all add: expire_b_def)
  next
    case (leave d)
    then show ?thesis using e [of d] by (intro upd [of d]) simp_all
  next
    case wait_over
    then show ?thesis using assms(2) by (simp add: cut_inv_def)
  qed (rule upd; (assumption | simp add: after_chunk_def))+
qed

lemma pipe_reach_cut: "pipe_reach input room breaks s \<Longrightarrow> cut_inv s"
proof (induction rule: rtranclp_induct)
  case base
  show ?case by (simp add: pipe_init_def cut_inv_def)
qed (rule cut_inv_step)

lemma ended_cuts:
  assumes "pipe_reach input room breaks s" and "cp_pc s d = Leaving \<or> cp_pc s d = Finished"
  shows "write_dl s e = Passed"
proof -
  have "expired_at (cp_pc s d) (write_dl s)"
    using pipe_reach_cut [OF assms(1)] by (simp add: cut_inv_def)
  with assms(2) show ?thesis
    by (cases e) auto
qed

subsection \<open>Progress\<close>

definition armed :: "pipe_run \<Rightarrow> bool" where
  "armed s \<longleftrightarrow> (\<forall>d. cp_pc s d = Reading \<longrightarrow> read_dl s d \<noteq> Never)"

lemma armed_step: "pipe_step s s' \<Longrightarrow> armed s \<Longrightarrow> armed s'"
  by (induction rule: pipe_step.induct) (auto simp: armed_def expire_a_def expire_b_def after_chunk_def)

lemma pipe_reach_armed: "pipe_reach input room breaks s \<Longrightarrow> armed s"
  by (induction rule: rtranclp_induct) (simp add: pipe_init_def armed_def, rule armed_step)

lemma cp_progress:
  assumes "cp_pc s d \<noteq> Finished" and "armed s" and "\<not> write_blocks s d"
  shows "\<exists>s'. pipe_step s s'"
proof (cases "cp_pc s d")
  case (Got data failed)
  show ?thesis
  proof (cases "data = []")
    case True
    with Got show ?thesis using pipe_step.nothing_read [of s d failed] by auto
  next
    case False
    then show ?thesis
      using assms(3) Got pipe_step.write_failed [OF Got False] pipe_step.write_done [OF Got False]
      by (auto simp: write_blocks_def gr0_conv_Suc)
  qed
next
  case Reading
  then show ?thesis using assms(2) pipe_step.timeout [OF Reading] by (auto simp: armed_def)
qed (use assms(1) pipe_step.arm [of s d] pipe_step.end_a [of s d] pipe_step.end_b [of s d]
    pipe_step.leave [of s d] in blast)+

text \<open>Some step is possible until \<open>pipe\<close> has returned, unless both directions block in \<open>Write\<close>.\<close>

lemma pipe_progress:
  assumes "pipe_reach input room breaks s" and "\<not> pipe_returned s"
  shows "(\<exists>s'. pipe_step s s') \<longleftrightarrow> \<not> (\<forall>d. write_blocks s d)"
proof
  assume "\<exists>s'. pipe_step s s'"
  then obtain s' where st: "pipe_step s s'" ..
  show "\<not> (\<forall>d. write_blocks s d)"
  proof
    assume all: "\<forall>d. write_blocks s d"
    have b: "\<exists>data failed. cp_pc s d = Got data failed \<and> data \<noteq> []"
      "cp_room s d = 0" "\<not> write_breaks s d" "write_dl s d \<noteq> Passed" for d
      using all [THEN spec [of _ d]] unfolding write_blocks_def by (cases "cp_pc s d"; simp)+
    define f g where "f d = (case cp_pc s d of Got data _ \<Rightarrow> data)" and
      "g d = (case cp_pc s d of Got _ failed \<Rightarrow> failed)" for d
    have pc: "cp_pc s d = Got (f d) (g d)" "f d \<noteq> []" for d
      using b(1) [of d] by (auto simp: f_def g_def)
    then have "wait_group s \<noteq> 0"
      using pipe_reach_wait [OF assms(1)] by (simp add: wait_inv_def running_def)
    with st show False
      by cases (use b(2-4) pc in auto)
  qed
next
  assume free: "\<not> (\<forall>d. write_blocks s d)"
  show "\<exists>s'. pipe_step s s'"
  proof (cases "\<exists>d. cp_pc s d \<noteq> Finished \<and> \<not> write_blocks s d")
    case True
    then show ?thesis using cp_progress pipe_reach_armed [OF assms(1)] by blast
  next
    case False
    then have all: "cp_pc s d = Finished" for d
    proof -
      obtain e where e: "cp_pc s e = Finished"
        using free False by blast
      have "\<not> write_blocks s d"
        using ended_cuts [OF assms(1), of e d] e by (simp add: write_blocks_def)
      then show ?thesis using False by blast
    qed
    then have "wait_group s = 0"
      using pipe_reach_wait [OF assms(1)] by (simp add: wait_inv_def running_def)
    then show ?thesis using pipe_step.wait_over [OF _ assms(2)] by blast
  qed
qed

text \<open>The direction that ends wakes the other one: a \<open>Read\<close> that has not returned by then has timed out.\<close>

fun read_expired :: "cp_pc \<Rightarrow> dir \<Rightarrow> (dir \<Rightarrow> deadline) \<Rightarrow> bool" where
  "read_expired EndingA e dl \<longleftrightarrow> True"
| "read_expired EndingB e dl \<longleftrightarrow> e = Up \<longrightarrow> dl e = Passed"
| "read_expired Leaving e dl \<longleftrightarrow> dl e = Passed"
| "read_expired Finished e dl \<longleftrightarrow> dl e = Passed"
| "read_expired _ e dl \<longleftrightarrow> False"

definition woken_inv :: "dir \<Rightarrow> nat \<Rightarrow> pipe_run \<Rightarrow> bool" where
  "woken_inv d n s \<longleftrightarrow> n \<le> length (cp_log s (opposite d)) \<and>
     (length (cp_log s (opposite d)) = n \<longrightarrow>
        cp_pc s (opposite d) = Reading \<and> read_expired (cp_pc s d) (opposite d) (read_dl s))"

lemma dir_cases: "e = d \<or> e = opposite d"
  by (cases d; cases e) simp_all

lemma read_expired_ending: "read_expired pc e dl \<Longrightarrow> pc \<in> {EndingA, EndingB, Leaving, Finished}"
  by (cases pc) simp_all

lemma woken_inv_step:
  assumes "pipe_step s s'" and "woken_inv d n s"
  shows "woken_inv d n s'"
proof (cases "length (cp_log s (opposite d)) = n")
  case False
  have "length (cp_log s (opposite d)) \<le> length (cp_log s' (opposite d))"
    using assms(1) by cases (simp_all add: expire_a_def expire_b_def)
  with False assms(2) show ?thesis by (simp add: woken_inv_def)
next
  case True
  then have w: "cp_pc s (opposite d) = Reading" "read_expired (cp_pc s d) (opposite d) (read_dl s)"
    using assms(2) by (simp_all add: woken_inv_def)
  have own: "cp_pc s d \<in> {EndingA, EndingB, Leaving, Finished}"
    using read_expired_ending [OF w(2)] .
  show ?thesis
    using assms(1)
  proof cases
    case (arm e)
    then show ?thesis using w own dir_cases [of e d] by auto
  next
    case (read e data failed rest)
    then show ?thesis using w own dir_cases [of e d] True by (auto simp: woken_inv_def)
  next
    case (timeout e)
    then show ?thesis using w own dir_cases [of e d] True by (auto simp: woken_inv_def)
  next
    case (write_done e data failed n)
    then show ?thesis using w own dir_cases [of e d] by auto
  next
    case (write_failed e data failed)
    then show ?thesis using w own dir_cases [of e d] by auto
  next
    case (nothing_read e failed)
    then show ?thesis using w own dir_cases [of e d] by auto
  next
    case (end_a e)
    then have "e = d" using w dir_cases [of e d] by auto
    then show ?thesis using end_a w True by (cases d) (simp_all add: woken_inv_def expire_a_def)
  next
    case (end_b e)
    then have "e = d" using w dir_cases [of e d] by auto
    then show ?thesis using end_b w True by (cases d) (simp_all add: woken_inv_def expire_b_def)
  next
    case (leave e)
    then have "e = d" using w dir_cases [of e d] by auto
    then show ?thesis using leave w True by (simp add: woken_inv_def)
  next
    case wait_over
    then show ?thesis using w True by (simp add: woken_inv_def)
  qed
qed

lemma ending_wakes:
  assumes "cp_pc s d = EndingA" and "cp_pc s (opposite d) = Reading" and "pipe_step\<^sup>*\<^sup>* s s'"
    and "cp_pc s' d = Leaving \<or> cp_pc s' d = Finished" and "cp_log s' (opposite d) = cp_log s (opposite d)"
  shows "cp_pc s' (opposite d) = Reading \<and> read_dl s' (opposite d) = Passed"
proof -
  have "woken_inv d (length (cp_log s (opposite d))) s'"
    using assms(3)
  proof (induction rule: rtranclp_induct)
    case base
    show ?case using assms(1,2) by (simp add: woken_inv_def)
  qed (rule woken_inv_step)
  then show ?thesis
    using assms(4,5) by (auto simp: woken_inv_def)
qed

lemma returned_finished:
  assumes "wait_inv s" and "pipe_returned s"
  shows "cp_pc s d = Finished"
  using assms by (cases d) (auto simp: wait_inv_def running_def split: if_splits)

lemma concat_chunks: "concat (chunks reads) = concat (map fst reads)"
  by (induction reads) auto

lemma copied_prefix: "copied reads w \<Longrightarrow> prefix (concat w) (concat (map fst reads))"
  using copy_loop_prefix [of _ "[]" reads] by (auto simp: copied_def)

lemma pipe_written_prefix:
  assumes "pipe_reach input room breaks s"
  shows "prefix (concat (cp_written s d)) (concat (map fst (input d)))"
proof -
  have "prefix (concat (cp_written s d)) (concat (map fst (cp_log s d)))"
    using pipe_reach_inv [OF assms, THEN spec [of _ d]]
    by (cases "cp_pc s d") (auto simp: clean_def concat_chunks intro: copied_prefix)
  then obtain more where "concat (map fst (cp_log s d)) = concat (cp_written s d) @ more"
    by (elim prefixE)
  then show ?thesis
    using pipe_log [OF assms, of d] by (intro prefixI [of _ _ "more @ concat (map fst (cp_input s d))"]) simp
qed

text \<open>The writes of a run that has returned are those of \<open>pipe\<close> in TunHandler.\<close>

lemma returned_pipe:
  assumes "pipe_reach input room breaks s" and "pipe_returned s"
  shows "\<exists>srv_ok app_ok. pipe (tc\<lparr>app_reads := cp_log s Up, srv_reads := cp_log s Down,
    srv_write_ok := srv_ok, app_write_ok := app_ok\<rparr>) = Pipe (cp_written s Up) (cp_written s Down)"
proof -
  have "copied (cp_log s d) (cp_written s d)" for d
    using pipe_reach_inv [OF assms(1), THEN spec [of _ d]] returned_finished [OF pipe_reach_wait [OF assms(1)] assms(2), of d]
    by simp
  then obtain f g where "cp_written s Up = copy_loop f [] (cp_log s Up)" "cp_written s Down = copy_loop g [] (cp_log s Down)"
    unfolding copied_def by blast
  then show ?thesis by (auto simp: pipe_def)
qed

lemma pipe_rank_le:
  "pipe_reach input room breaks s \<Longrightarrow> pipe_rank s \<le> 3 * (length (input Up) + length (input Down)) + 13"
proof (induction rule: rtranclp_induct)
  case base
  show ?case by (simp add: pipe_init_def pipe_rank_def dir_rank_def)
next
  case (step s s')
  then show ?case using pipe_rank_step [of s s'] by simp
qed

subsection \<open>Properties\<close>

text \<open>
  C8. The two goroutines of \<open>pipe\<close>, over all their interleavings, timeouts and failures. Every step
  brings the run closer to its end, by a bound linear in what the two sides deliver, and until \<open>pipe\<close> has
  returned some step is possible, where a \<open>Read\<close> without data returns by its deadline only, except if both
  directions block in \<open>Write\<close>, which no deadline ends: then no step is. Each side has received a prefix of
  what the other one sent; when \<open>pipe\<close> returns, the chunks written are those of two independent
  sequential copy loops. Once either direction has ended, for whatever reason, a \<open>Read\<close> in which it found
  the other one has returned or has timed out, and nothing more is written in the other one: a side
  that only closes its sending half cuts off the answer.
\<close>

theorem pipe_ends:
  assumes "pipe_reach input room breaks s"
  shows "(\<forall>s'. pipe_step s s' \<longrightarrow> pipe_rank s' < pipe_rank s) \<and>
    pipe_rank s \<le> 3 * (length (input Up) + length (input Down)) + 13 \<and>
    (\<not> pipe_returned s \<longrightarrow> ((\<exists>s'. pipe_step s s') \<longleftrightarrow> \<not> (\<forall>d. write_blocks s d))) \<and>
    (\<forall>d. prefix (concat (cp_written s d)) (concat (map fst (input d)))) \<and>
    (pipe_returned s \<longrightarrow> (\<forall>tc. \<exists>srv_ok app_ok. pipe (tc\<lparr>app_reads := cp_log s Up, srv_reads := cp_log s Down,
       srv_write_ok := srv_ok, app_write_ok := app_ok\<rparr>) = Pipe (cp_written s Up) (cp_written s Down))) \<and>
    (\<forall>d s'. cp_pc s d = EndingA \<and> cp_pc s (opposite d) = Reading \<and> pipe_step\<^sup>*\<^sup>* s s' \<and>
       (cp_pc s' d = Leaving \<or> cp_pc s' d = Finished) \<and> cp_log s' (opposite d) = cp_log s (opposite d) \<longrightarrow>
       cp_pc s' (opposite d) = Reading \<and> read_dl s' (opposite d) = Passed) \<and>
    (\<forall>d s'. (cp_pc s d = Leaving \<or> cp_pc s d = Finished) \<and> pipe_step\<^sup>*\<^sup>* s s' \<longrightarrow> (\<forall>e. cp_written s' e = cp_written s e))"
proof (intro conjI)
  show "\<not> pipe_returned s \<longrightarrow> ((\<exists>s'. pipe_step s s') \<longleftrightarrow> \<not> (\<forall>d. write_blocks s d))"
    by (intro impI, rule pipe_progress [OF assms])
  show "\<forall>d s'. (cp_pc s d = Leaving \<or> cp_pc s d = Finished) \<and> pipe_step\<^sup>*\<^sup>* s s' \<longrightarrow> (\<forall>e. cp_written s' e = cp_written s e)"
    using nothing_written_later [OF _ ended_cuts [OF assms]] by blast
  show "\<forall>d s'. cp_pc s d = EndingA \<and> cp_pc s (opposite d) = Reading \<and> pipe_step\<^sup>*\<^sup>* s s' \<and>
       (cp_pc s' d = Leaving \<or> cp_pc s' d = Finished) \<and> cp_log s' (opposite d) = cp_log s (opposite d) \<longrightarrow>
       cp_pc s' (opposite d) = Reading \<and> read_dl s' (opposite d) = Passed"
    using ending_wakes by blast
  show "pipe_rank s \<le> 3 * (length (input Up) + length (input Down)) + 13"
    by (rule pipe_rank_le [OF assms])
qed (simp_all add: pipe_rank_step pipe_written_prefix [OF assms] returned_pipe [OF assms])

text \<open>An application that sends one byte and the end of its stream, and never gets the answer.\<close>

definition half_closing :: "dir \<Rightarrow> (bytes \<times> bool) list" where
  "half_closing d = (case d of Up \<Rightarrow> [([71], False), ([], True)] | Down \<Rightarrow> [([1, 2], False)])"

definition up_run :: "nat \<Rightarrow> cp_pc \<Rightarrow> (bytes \<times> bool) list \<Rightarrow> (bytes \<times> bool) list \<Rightarrow> bytes list
   \<Rightarrow> (dir \<Rightarrow> deadline) \<Rightarrow> (dir \<Rightarrow> deadline) \<Rightarrow> pipe_run" where
  "up_run room pc inp reads w rd wd = \<lparr>cp_pc = (\<lambda>_. Arming)(Up := pc), cp_input = half_closing(Up := inp),
     cp_log = (\<lambda>_. [])(Up := reads), cp_written = (\<lambda>_. [])(Up := w), read_dl = rd, write_dl = wd,
     cp_room = (\<lambda>_. 1)(Up := room), write_breaks = (\<lambda>_. False), wait_group = 2, pipe_returned = False\<rparr>"

lemma up_steps:
  "pipe_step (up_run room Arming inp reads w rd wd) (up_run room Reading inp reads w (rd(Up := Ahead)) wd)"
  "rd Up \<noteq> Passed \<Longrightarrow> pipe_step (up_run room Reading ((data, failed) # inp) reads w rd wd)
     (up_run room (Got data failed) inp (reads @ [(data, failed)]) w rd wd)"
  "data \<noteq> [] \<Longrightarrow> wd Up \<noteq> Passed \<Longrightarrow> pipe_step (up_run (Suc room) (Got data failed) inp reads w rd wd)
     (up_run room (after_chunk failed) inp reads (w @ [data]) rd wd)"
  "pipe_step (up_run room (Got [] failed) inp reads w rd wd) (up_run room (after_chunk failed) inp reads w rd wd)"
  "pipe_step (up_run room EndingA inp reads w rd wd) (up_run room EndingB inp reads w (rd(Up := Passed)) (wd(Down := Passed)))"
  "pipe_step (up_run room EndingB inp reads w rd wd) (up_run room Leaving inp reads w (rd(Down := Passed)) (wd(Up := Passed)))"
  using pipe_step.arm [of "up_run room Arming inp reads w rd wd" Up]
    pipe_step.read [of "up_run room Reading ((data, failed) # inp) reads w rd wd" Up data failed inp]
    pipe_step.write_done [of "up_run (Suc room) (Got data failed) inp reads w rd wd" Up data failed room]
    pipe_step.nothing_read [of "up_run room (Got [] failed) inp reads w rd wd" Up failed]
    pipe_step.end_a [of "up_run room EndingA inp reads w rd wd" Up]
    pipe_step.end_b [of "up_run room EndingB inp reads w rd wd" Up]
  by (simp_all add: up_run_def expire_a_def expire_b_def)

abbreviation half_closing_reach :: "pipe_run \<Rightarrow> bool" where
  "half_closing_reach \<equiv> pipe_reach half_closing (\<lambda>_. 1) (\<lambda>_. False)"

lemma half_closing_run:
  "\<exists>reads rd wd. half_closing_reach (up_run 0 Leaving [] reads [[71]] rd wd)"
proof -
  have init: "pipe_init half_closing (\<lambda>_. 1) (\<lambda>_. False) =
      up_run 1 Arming [([71], False), ([], True)] [] [] (\<lambda>_. Never) (\<lambda>_. Never)"
    by (auto simp: pipe_init_def up_run_def half_closing_def fun_eq_iff split: dir.split)
  let ?rd = "(\<lambda>_. Never)(Up := Ahead)"
  have "half_closing_reach (up_run 1 Reading [([71], False), ([], True)] [] [] ?rd (\<lambda>_. Never))"
    unfolding init by (rule r_into_rtranclp, rule up_steps(1))
  then have "half_closing_reach (up_run 1 (Got [71] False) [([], True)] [([71], False)] [] ?rd (\<lambda>_. Never))"
    by (rule rtranclp.rtrancl_into_rtrancl) (use up_steps(2) [of ?rd 1 "[71]" False "[([], True)]" "[]"] in simp)
  then have "half_closing_reach (up_run 0 Arming [([], True)] [([71], False)] [[71]] ?rd (\<lambda>_. Never))"
    by (rule rtranclp.rtrancl_into_rtrancl)
      (use up_steps(3) [of "[71]" "\<lambda>_. Never" 0 False _ _ "[]"] in \<open>simp add: after_chunk_def\<close>)
  then have "half_closing_reach (up_run 0 Reading [([], True)] [([71], False)] [[71]] ?rd (\<lambda>_. Never))"
    by (rule rtranclp.rtrancl_into_rtrancl) (use up_steps(1) [of 0 _ _ _ ?rd] in simp)
  then have "half_closing_reach (up_run 0 (Got [] True) [] [([71], False), ([], True)] [[71]] ?rd (\<lambda>_. Never))"
    by (rule rtranclp.rtrancl_into_rtrancl) (use up_steps(2) [of ?rd 0 "[]" True "[]" "[([71], False)]"] in simp)
  then have "half_closing_reach (up_run 0 EndingA [] [([71], False), ([], True)] [[71]] ?rd (\<lambda>_. Never))"
    by (rule rtranclp.rtrancl_into_rtrancl) (use up_steps(4) [of 0 True] in \<open>simp add: after_chunk_def\<close>)
  then show ?thesis
    by (blast intro: rtranclp.rtrancl_into_rtrancl up_steps(5,6))
qed

theorem pipe_ends_witness:
  "\<exists>s. half_closing_reach s \<and> cp_written s Up = [[71]] \<and> (\<exists>s'. pipe_step s s') \<and>
     (\<forall>s'. pipe_step\<^sup>*\<^sup>* s s' \<longrightarrow> cp_written s' Down = [])"
proof -
  obtain reads rd wd where r: "half_closing_reach (up_run 0 Leaving [] reads [[71]] rd wd)"
    using half_closing_run by blast
  let ?s = "up_run 0 Leaving [] reads [[71]] rd wd"
  have pc: "cp_pc ?s Up = Leaving" "cp_written ?s Up = [[71]]" "cp_written ?s Down = []" "\<not> pipe_returned ?s"
    "\<not> write_blocks ?s Up"
    by (simp_all add: up_run_def write_blocks_def)
  have "\<exists>s'. pipe_step ?s s'"
    using pipe_ends [OF r] pc(4,5) by blast
  moreover have "\<forall>s'. pipe_step\<^sup>*\<^sup>* ?s s' \<longrightarrow> cp_written s' Down = []"
    using pipe_ends [OF r] pc(1,3) by metis
  ultimately show ?thesis using r pc(2) by blast
qed

end
