(* ===== verification/TunEngine.thy ===== *)
theory TunEngine
  imports TunPipe RunTun
begin

text \<open>
  The manager and the connection handler of the TUN engine put together (pkg/tun/manager.go and
  handler.go, with the global sequence tracker of pkg/seqtrack): the handler works with the ports and the
  TTL of the manager that was started, and \<open>Start\<close> and \<open>Stop\<close> set and forget the tracker it asks. What
  is proved: once the engine of a configuration has started, exactly the connections to the configured
  ports are disguised, however many connections it has served before, and the others are only copied.
\<close>

subsection \<open>The handler of a manager\<close>

definition SetSeqTracker :: "conns option \<Rightarrow> tun_state \<Rightarrow> tun_state" where
  "SetSeqTracker st s = s\<lparr>tun_tracker := st\<rparr>"

text \<open>A new tracker has captured nothing.\<close>

fun tracker_step :: "tm_effect \<Rightarrow> tun_state \<Rightarrow> tun_state" where
  "tracker_step (StartTracker iface) s = SetSeqTracker (Some (\<lambda>_. None)) s"
| "tracker_step ForgetTracker s = SetSeqTracker None s"
| "tracker_step _ s = s"

definition tracker_after :: "tm_effect list \<Rightarrow> tun_state \<Rightarrow> tun_state" where
  "tracker_after effs = fold tracker_step effs"

definition tun_connection ::
  "(nat \<Rightarrow> nat \<Rightarrow> bytes option) \<Rightarrow> RawSocket \<Rightarrow> TunManager \<Rightarrow> conn_env \<times> Socksaddr \<Rightarrow> tun_state
   \<Rightarrow> tun_effect list option \<times> tun_state" where
  "tun_connection rnd sock m = serve_connection rnd sock (tFakeTTL (tm_cfg m)) (tm_targetPorts m)"

subsection \<open>Lemmas\<close>

lemma tracker_after_simps [simp]:
  "tracker_after [] s = s" "tracker_after (e # es) s = tracker_after es (tracker_step e s)"
  "tracker_after (xs @ ys) s = tracker_after ys (tracker_after xs s)"
  by (simp_all add: tracker_after_def)

lemma initNetworking_tracker: "initNetworking env i m = (err, effs, m') \<Longrightarrow> tracker_after effs s = s \<and>
    tm_targetPorts m' = tm_targetPorts m"
  by (auto simp: initNetworking_def Let_def split: option.splits)

lemma start_device_tracker: "start_device env m effs = (err, effs', m') \<Longrightarrow>
    tracker_after effs' s = tracker_after effs s \<and> tm_targetPorts m' = tm_targetPorts m"
  by (auto simp: start_device_def Let_def split: option.splits)

lemma StartTun_tracker:
  assumes "StartTun env m = (None, effs, m')"
  shows "tracker_after effs s = (if phys_iface env m \<noteq> [] \<and> r_tracker env = None then SetSeqTracker (Some (\<lambda>_. None)) s else s)"
    and "tm_targetPorts m' = tm_targetPorts m"
proof -
  let ?i = "phys_iface env m" and ?m = "m\<lparr>tm_cancel := True, tm_rawSock := True\<rparr>"
  obtain ierr ieffs im where i: "initNetworking env ?i ?m = (ierr, ieffs, im)" by (rule prod_cases3)
  let ?pre = "[OpenRawSock ?i] @ startSeqTracker env ?i"
  have raw: "r_rawSock env = None" and d: "start_device env im (?pre @ ieffs) = (None, effs, m')"
    using assms i by (auto simp: StartTun_def phys_iface_def [symmetric] Let_def split: option.splits)
  have "tracker_after ?pre s = (if ?i \<noteq> [] \<and> r_tracker env = None then SetSeqTracker (Some (\<lambda>_. None)) s else s)"
    by (auto simp: startSeqTracker_def split: option.split)
  then show "tracker_after effs s = (if ?i \<noteq> [] \<and> r_tracker env = None then SetSeqTracker (Some (\<lambda>_. None)) s else s)"
    using start_device_tracker [OF d, of s] initNetworking_tracker [OF i] by simp
  show "tm_targetPorts m' = tm_targetPorts m"
    using start_device_tracker [OF d] initNetworking_tracker [OF i] by simp
qed

text \<open>\<open>Stop\<close> forgets the tracker, whatever the manager holds.\<close>

lemma StopTun_tracker: "tun_tracker (tracker_after (fst (StopTun m)) s) = None"
  by (simp add: StopTun_def SetSeqTracker_def)

text \<open>Connections neither set nor forget the tracker.\<close>

lemma GetSeqAck_tracker: "GetSeqAck clock arrive port tracker = Some (nums, tracker') \<Longrightarrow> (tracker' = None) = (tracker = None)"
  by (auto simp: GetSeqAck_def split: option.splits bind_splits)

lemma resolveDst_tracker: "resolveDst addr host port s = (dst, s') \<Longrightarrow> tun_tracker s' = tun_tracker s"
  by (auto simp: resolveDst_def Let_def split: option.splits prod.splits if_splits)

lemma injectAndForward_tracker:
  assumes "injectAndForward rnd sock ttl tc dst s = Some (effs, s')"
  shows "(tun_tracker s' = None) = (tun_tracker s = None)"
  using assms unfolding injectAndForward_def Let_def
  by (auto dest!: GetSeqAck_tracker split: option.splits prod.splits if_splits bind_splits)

lemma NewConnectionEx_tracker:
  assumes "NewConnectionEx rnd sock ttl targets tc destination s = Some (effs, s')"
  shows "(tun_tracker s' = None) = (tun_tracker s = None)"
  using assms unfolding NewConnectionEx_def Let_def
  by (auto dest!: injectAndForward_tracker resolveDst_tracker split: prod.splits if_splits bind_splits)

lemma serve_tracker:
  "serve (tun_connection rnd sock m) conns s = (outs, s') \<Longrightarrow> (tun_tracker s' = None) = (tun_tracker s = None)"
proof (induction conns arbitrary: s outs)
  case (Cons c conns)
  obtain out s1 where 1: "tun_connection rnd sock m c s = (out, s1)" by fastforce
  then have t: "(tun_tracker s1 = None) = (tun_tracker s = None)"
    by (auto simp: tun_connection_def serve_connection_def dest: NewConnectionEx_tracker split: option.splits)
  show ?case
  proof (cases out)
    case None
    with Cons.prems 1 t show ?thesis by simp
  next
    case (Some effs)
    obtain outs1 where "serve (tun_connection rnd sock m) conns s1 = (outs1, s')"
      using Cons.prems 1 Some by (auto split: prod.splits option.splits)
    from Cons.IH [OF this] t show ?thesis by simp
  qed
qed simp

text \<open>A state in which an engine with a tracker can be after any connections.\<close>

lemma session_state:
  assumes "StartTun env m0 = (None, effs0, m)" and "phys_iface env m0 \<noteq> []" and "r_tracker env = None"
    and "\<forall>x \<in> set conns. acceptable x" and "unat (tun_counter s0) + length conns < 2 ^ 63"
    and "serve (tun_connection rnd sock m) conns (tracker_after effs0 s0) = (outs, s)"
  obtains c where "tun_tracker s = Some c" and "filed c" and "unat (tun_counter s) < 2 ^ 63" and "outs \<noteq> None"
proof -
  let ?s0 = "tracker_after effs0 s0"
  have s0: "tun_tracker ?s0 = Some (\<lambda>_. None)" "tun_counter ?s0 = tun_counter s0"
    using StartTun_tracker(1) [OF assms(1), of s0] assms(2,3) by (simp_all add: SetSeqTracker_def)
  have "tun_ok ?s0" "length conns \<le> tun_budget ?s0"
    using s0 assms(5) by (simp_all add: tun_ok_def tun_budget_def filed_empty)
  from tunh.serve_sound [OF this(1) assms(4) this(2), of rnd sock "tFakeTTL (tm_cfg m)" "tm_targetPorts m"] assms(6)
  have s: "tun_ok s" "tun_budget ?s0 \<le> length conns + tun_budget s" "outs \<noteq> None"
    by (auto simp: tun_connection_def)
  have "0 < tun_budget s"
    using s(2) s0(2) assms(5) by (simp add: tun_budget_def)
  moreover obtain c where "tun_tracker s = Some c"
    using serve_tracker [OF assms(6)] s0(1) by auto
  ultimately show ?thesis
    using that s(1,3) by (auto simp: tun_ok_def tun_budget_def)
qed

text \<open>A connection to another port is only copied.\<close>

lemma NewConnectionEx_copied:
  assumes "has_conn tc" and "IsValid destination" and "dial_ok tc" and "\<not> targets (dst_Port destination)"
  shows "\<exists>addr s'. NewConnectionEx rnd sock ttl targets tc destination s =
    Some ([Dial ''tcp'' addr, pipe tc, CloseServer, CloseApp] @ (if has_onClose tc then [OnClose] else []), s')"
  using assms by (simp add: NewConnectionEx_def Let_def split: prod.split)

text \<open>A connection over IPv4 that is dialled, whose first read gives a ClientHello, and whose fakes are accepted.\<close>

definition healthy :: "conn_env \<Rightarrow> bytes \<Rightarrow> ip \<times> int \<Rightarrow> ip \<times> int \<Rightarrow> bool" where
  "healthy tc hello local remote \<longleftrightarrow> has_conn tc \<and> dial_ok tc \<and> hello_read tc = Some hello \<and> (\<forall>i. fake_ok tc i) \<and>
     hello_write_ok tc \<and> srv_local tc = Some local \<and> srv_remote tc = Some remote \<and>
     to4 (fst local) \<noteq> [] \<and> to4 (fst remote) \<noteq> [] \<and> clock_ok (seq_clock tc)"

subsection \<open>Properties\<close>

text \<open>
  C5. The TUN engine disguises what its configuration says: after \<open>Start\<close> of the engine for a
  configuration has succeeded with its tracker, and after any number of connections has been served, a
  further connection to a configured port (443 if none is configured) sends three copies of one decoy on
  its own connection, with the numbers \<open>GetSeqAck\<close> gives and the configured TTL (8 for 0), before it
  forwards the ClientHello and then the rest, and a connection to any other port sends none and is
  copied from its first byte on.
\<close>

theorem tun_engine_treats:
  assumes "newTunEngine cfg = (m0, doh)" and "StartTun env m0 = (None, effs0, m)"
    and "phys_iface env m0 \<noteq> []" and "r_tracker env = None" and "rand_ok rnd"
    and "\<forall>x \<in> set conns. acceptable x" and "unat (tun_counter s0) + length conns < 2 ^ 63"
    and "serve (tun_connection rnd sock m) conns (tracker_after effs0 s0) = (outs, s)"
    and "healthy tc hello local remote" and "IsValid destination"
    and "ports = (if ecPorts cfg = [] then [443] else ecPorts cfg)" and "ttl = (if ecFakeTTL cfg = 0 then 8 else ecFakeTTL cfg)"
  shows "(dst_Port destination \<in> set ports \<longrightarrow>
      (\<exists>seq ack tracker pre tx log post s'.
         GetSeqAck (seq_clock tc) (seq_arrive tc) (Some (snd local)) (tun_tracker s) = Some ((seq, ack), tracker) \<and>
         tun_connection rnd sock m (tc, destination) s =
           (Some (pre @ [TunSend tx, TunSend tx, TunSend tx, log, SleepMs 2, ServerWrite hello] @ post), s') \<and>
         server_stream (pre @ [TunSend tx, TunSend tx, TunSend tx, log]) = [] \<and>
         server_stream post = concat (copy_loop (srv_write_ok tc) [] (app_reads tc)) \<and>
         decoy_on (socket_os sock) \<lparr>SrcIP = fst local, DstIP = fst remote, SrcPort = of_int (snd local), DstPort = of_int (snd remote),
           Seq = seq, Ack = ack\<rparr> ttl tx)) \<and>
    (dst_Port destination \<notin> set ports \<longrightarrow>
      (\<exists>effs s'. tun_connection rnd sock m (tc, destination) s = (Some effs, s') \<and> (\<forall>tx. TunSend tx \<notin> set effs) \<and>
         server_stream effs = concat (copy_loop (srv_write_ok tc) [] (app_reads tc))))"
proof -
  have m0: "tm_targetPorts m0 = port_map ports" "tFakeTTL (tm_cfg m0) = ttl"
    using assms(1,11,12) by (auto simp: newTunEngine_def NewTunManager_def Let_def)
  have m: "tm_targetPorts m = port_map ports" "tFakeTTL (tm_cfg m) = ttl"
    using StartTun_tracker(2) [OF assms(2)] StartTun_cfg [OF assms(2)] m0 by simp_all
  obtain c where c: "tun_tracker s = Some c" "filed c" "unat (tun_counter s) < 2 ^ 63"
    by (rule session_state [OF assms(2-4,6-8)])
  obtain lip lport rip rport where e: "local = (lip, lport)" "remote = (rip, rport)"
    by fastforce
  have h: "has_conn tc" "dial_ok tc" "hello_read tc = Some hello" "\<forall>i. fake_ok tc i" "hello_write_ok tc"
    "srv_local tc = Some (lip, lport)" "srv_remote tc = Some (rip, rport)" "to4 lip \<noteq> []" "to4 rip \<noteq> []" "clock_ok (seq_clock tc)"
    using assms(9) by (simp_all add: healthy_def e)
  show ?thesis
  proof (intro conjI impI)
    assume "dst_Port destination \<in> set ports"
    then have p: "port_map ports (dst_Port destination)"
      by (simp add: port_map_iff)
    note decoys = decoys_first [where targets = "port_map ports" and ttl = ttl and sock = sock,
      OF assms(5) c(3) h(10) c(1,2) h(1) assms(10) h(2) p h(3-9)]
    then show "\<exists>seq ack tracker pre tx log post s'.
         GetSeqAck (seq_clock tc) (seq_arrive tc) (Some (snd local)) (tun_tracker s) = Some ((seq, ack), tracker) \<and>
         tun_connection rnd sock m (tc, destination) s =
           (Some (pre @ [TunSend tx, TunSend tx, TunSend tx, log, SleepMs 2, ServerWrite hello] @ post), s') \<and>
         server_stream (pre @ [TunSend tx, TunSend tx, TunSend tx, log]) = [] \<and>
         server_stream post = concat (copy_loop (srv_write_ok tc) [] (app_reads tc)) \<and>
         decoy_on (socket_os sock) \<lparr>SrcIP = fst local, DstIP = fst remote, SrcPort = of_int (snd local), DstPort = of_int (snd remote),
           Seq = seq, Ack = ack\<rparr> ttl tx"
      unfolding tun_connection_def serve_connection_def m e c(1) fst_conv snd_conv
      by (elim exE conjE) (intro exI conjI, auto)
  next
    assume "dst_Port destination \<notin> set ports"
    then have p: "\<not> port_map ports (dst_Port destination)"
      by (simp add: port_map_iff)
    from NewConnectionEx_copied [where targets = "port_map ports", OF h(1) assms(10) h(2) p, of rnd sock ttl s]
    show "\<exists>effs s'. tun_connection rnd sock m (tc, destination) s = (Some effs, s') \<and> (\<forall>tx. TunSend tx \<notin> set effs) \<and>
         server_stream effs = concat (copy_loop (srv_write_ok tc) [] (app_reads tc))"
      by (auto simp: tun_connection_def serve_connection_def m pipe_def)
  qed
qed

theorem tun_engine_treats_witness:
  "\<exists>effs0 m effs s'. StartTun tm_ok (fst (newTunEngine (DefaultEngineConfig\<lparr>ecInterface := ''en0''\<rparr>))) = (None, effs0, m) \<and>
     tun_connection (\<lambda>k n. None) (platformRawSocket Darwin) m (sample_tc, sample_destination) (tracker_after effs0 idle_tun) = (Some effs, s') \<and>
     ServerWrite TLSClientHello \<in> set effs \<and> (\<exists>tx. TunSend tx \<in> set effs)"
proof -
  let ?c = "DefaultEngineConfig\<lparr>ecInterface := ''en0''\<rparr>"
  have new: "newTunEngine ?c = (NewTunManager en0_config, True)"
    by (simp add: newTunEngine_def DefaultEngineConfig_def en0_config_def)
  have "\<exists>effs m. StartTun tm_ok (NewTunManager en0_config) = (None, effs, m)"
    by (simp add: StartTun_def tm_ok_def en0_config_def NewTunManager_def initNetworking_def start_device_def Let_def)
  then obtain effs0 m where st: "StartTun tm_ok (NewTunManager en0_config) = (None, effs0, m)"
    by blast
  have iface: "phys_iface tm_ok (NewTunManager en0_config) \<noteq> []"
    by (simp add: phys_iface_def NewTunManager_def en0_config_def)
  have conn: "healthy sample_tc TLSClientHello ([192, 168, 1, 2], 50000) ([93, 184, 216, 34], 443)"
    by (simp add: healthy_def sample_tc_def to4_def sample_clock_ok)
  have r: "r_tracker tm_ok = None"
    by (simp add: tm_ok_def)
  have b: "unat (tun_counter idle_tun) + length ([] :: (conn_env \<times> Socksaddr) list) < 2 ^ 63"
    by (simp add: idle_tun_def)
  have d: "IsValid sample_destination" "dst_Port sample_destination \<in> set [443]"
    by (simp_all add: sample_destination_def)
  have p: "[443] = (if ecPorts ?c = [] then [443] else ecPorts ?c)" "8 = (if ecFakeTTL ?c = 0 then 8 else ecFakeTTL ?c)"
    by (simp_all add: DefaultEngineConfig_def)
  from tun_engine_treats [where conns = "[]" and sock = "platformRawSocket Darwin" and ?s0.0 = idle_tun,
      OF new st iface r rand_ok_None _ b serve.simps(1) conn d(1) p] d(2)
  obtain pre tx log post s' where "tun_connection (\<lambda>k n. None) (platformRawSocket Darwin) m (sample_tc, sample_destination)
      (tracker_after effs0 idle_tun) = (Some (pre @ [TunSend tx, TunSend tx, TunSend tx, log, SleepMs 2, ServerWrite TLSClientHello] @ post), s')"
    by auto
  with st new show ?thesis by fastforce
qed

end
